(* ===== verification/Go_Prelude.thy ===== *)
theory Go_Prelude
  imports Main "HOL-Library.Multiset"
begin

text \<open>
  The part of the development that is about Go and not about this repository.

  A Go function that talks to the outside world is an element of \<open>('e, 'a) go\<close>: a function from
  the history of all interactions so far (a list of events of type \<open>'e\<close>) to the result it returns
  and the list of events it adds. The result is \<open>Ok v\<close> for a returned value with a nil error,
  \<open>Err e\<close> for a non-nil error and \<open>Panic m\<close> for a panic, which no \<open>if err != nil\<close> intercepts.
  What the outside world answers is an arbitrary function of the history, so every interleaving,
  failure and stale answer is covered by quantifying over that function.

  The theory holds the combinators, the weakest precondition \<open>wp\<close> with one rewriting rule per
  combinator (collection \<open>wp_simps\<close>), the footprint predicate \<open>only\<close> with its introduction rules
  (collection \<open>only_rules\<close>), and the list lemmas the components share.
\<close>

named_theorems wp_simps "weakest preconditions of the combinators and of the operations"
named_theorems only_rules "which events an operation can emit"

section \<open>Errors\<close>

text \<open>
  \<open>ErrorString\<close> is a \<open>fmt.Errorf\<close> without a \<open>%w\<close> verb, \<open>Errorf p e\<close> one whose text is \<open>p\<close>
  followed by the wrapped error, \<open>Joined\<close> is \<open>errors.Join\<close>, \<open>ExtError\<close> an error made outside the
  repository.
\<close>

datatype gerror =
    ErrorString string
  | Errorf string gerror
  | Joined "gerror list"
  | ExtError string

fun join_with :: "string \<Rightarrow> string list \<Rightarrow> string" where
  "join_with sep [] = []"
| "join_with sep [x] = x"
| "join_with sep (x # y # zs) = x @ sep @ join_with sep (y # zs)"

definition newline :: string where
  "newline = [CHR 0x0A]"

text \<open>The text of an error, as \<open>err.Error()\<close> returns it.\<close>

fun Error :: "gerror \<Rightarrow> string" where
  "Error (ErrorString s) = s"
| "Error (Errorf p e) = p @ Error e"
| "Error (Joined es) = join_with newline (map Error es)"
| "Error (ExtError s) = s"

datatype 'a res = Ok 'a | Err gerror | Panic string

type_synonym ('e, 'a) go = "'e list \<Rightarrow> 'a res \<times> 'e list"

fun res_of :: "gerror + 'a \<Rightarrow> 'a res" where
  "res_of (Inl e) = Err e"
| "res_of (Inr a) = Ok a"

lemma map_res_eq_simps [simp]:
  "map_res f r = Ok b \<longleftrightarrow> (\<exists>a. r = Ok a \<and> b = f a)"
  "map_res f r = Err e \<longleftrightarrow> r = Err e"
  "map_res f r = Panic p \<longleftrightarrow> r = Panic p"
  by (cases r; auto)+

lemma res_of_no_panic [simp]: "res_of r \<noteq> Panic p" "Panic p \<noteq> res_of r"
  by (cases r; simp)+

lemma res_of_eq_simps [simp]:
  "res_of r = Ok a \<longleftrightarrow> r = Inr a" "res_of r = Err e \<longleftrightarrow> r = Inl e"
  by (cases r; simp)+

section \<open>Combinators\<close>

definition ret :: "'a \<Rightarrow> ('e, 'a) go" where
  "ret a = (\<lambda>h. (Ok a, []))"

definition fail :: "gerror \<Rightarrow> ('e, 'a) go" where
  "fail e = (\<lambda>h. (Err e, []))"

definition panic :: "string \<Rightarrow> ('e, 'a) go" where
  "panic m = (\<lambda>h. (Panic m, []))"

text \<open>\<open>of_res\<close> runs a computation that does not interact, such as building a pod specification.\<close>

definition of_res :: "'a res \<Rightarrow> ('e, 'a) go" where
  "of_res r = (\<lambda>h. (r, []))"

text \<open>\<^verbatim>\<open>v, err := m(); if err != nil { return err }; f(v)\<close>\<close>

definition bind :: "('e, 'a) go \<Rightarrow> ('a \<Rightarrow> ('e, 'b) go) \<Rightarrow> ('e, 'b) go" where
  "bind m f = (\<lambda>h. case m h of
       (Ok a, t) \<Rightarrow> (case f a (h @ t) of (r, t') \<Rightarrow> (r, t @ t'))
     | (Err e, t) \<Rightarrow> (Err e, t)
     | (Panic p, t) \<Rightarrow> (Panic p, t))"

text \<open>\<^verbatim>\<open>v, err := m(); if err != nil { hdl(err) } else { f(v) }\<close>\<close>

definition attempt :: "('e, 'a) go \<Rightarrow> (gerror \<Rightarrow> ('e, 'b) go) \<Rightarrow> ('a \<Rightarrow> ('e, 'b) go) \<Rightarrow> ('e, 'b) go" where
  "attempt m hdl f = (\<lambda>h. case m h of
       (Ok a, t) \<Rightarrow> (case f a (h @ t) of (r, t') \<Rightarrow> (r, t @ t'))
     | (Err e, t) \<Rightarrow> (case hdl e (h @ t) of (r, t') \<Rightarrow> (r, t @ t'))
     | (Panic p, t) \<Rightarrow> (Panic p, t))"

text \<open>\<^verbatim>\<open>if err := m(); err != nil { return fmt.Errorf(msg + "%w", err) }\<close>\<close>

definition wrapf :: "string \<Rightarrow> ('e, 'a) go \<Rightarrow> ('e, 'a) go" where
  "wrapf msg m = attempt m (\<lambda>e. fail (Errorf msg e)) ret"

text \<open>\<^verbatim>\<open>defer d()\<close> in front of \<open>m\<close>: \<open>d\<close> runs after \<open>m\<close> however \<open>m\<close> ended, and its error is dropped.\<close>

definition defer_after :: "('e, unit) go \<Rightarrow> ('e, 'a) go \<Rightarrow> ('e, 'a) go" where
  "defer_after d m = (\<lambda>h. case m h of (r, t) \<Rightarrow>
       (case d (h @ t) of
          (Panic p, t') \<Rightarrow> (Panic p, t @ t')
        | (_, t') \<Rightarrow> (r, t @ t')))"

definition emit :: "'e \<Rightarrow> ('e, unit) go" where
  "emit e = (\<lambda>h. (Ok (), [e]))"

text \<open>One interaction: the answer is a function of the history, the event records it.\<close>

definition call :: "('e list \<Rightarrow> gerror + 'a) \<Rightarrow> (gerror + 'a \<Rightarrow> 'e) \<Rightarrow> ('e, 'a) go" where
  "call f mk = (\<lambda>h. (res_of (f h), [mk (f h)]))"

text \<open>A read that cannot fail, such as \<open>time.Now()\<close>.\<close>

definition ask :: "('e list \<Rightarrow> 'a) \<Rightarrow> ('a \<Rightarrow> 'e) \<Rightarrow> ('e, 'a) go" where
  "ask f mk = (\<lambda>h. (Ok (f h), [mk (f h)]))"

text \<open>What an operation returns and what it emits, for statements about one run.\<close>

definition result :: "('e, 'a) go \<Rightarrow> 'e list \<Rightarrow> 'a res" where
  "result m h = fst (m h)"

definition emitted :: "('e, 'a) go \<Rightarrow> 'e list \<Rightarrow> 'e list" where
  "emitted m h = snd (m h)"

section \<open>Weakest preconditions\<close>

definition wp :: "('e, 'a) go \<Rightarrow> ('a res \<Rightarrow> 'e list \<Rightarrow> bool) \<Rightarrow> 'e list \<Rightarrow> bool" where
  "wp m Q h = Q (result m h) (emitted m h)"

lemma wp_ret [wp_simps]: "wp (ret a) Q h = Q (Ok a) []"
  by (simp add: wp_def ret_def result_def emitted_def)

lemma wp_fail [wp_simps]: "wp (fail e) Q h = Q (Err e) []"
  by (simp add: wp_def fail_def result_def emitted_def)

lemma wp_panic [wp_simps]: "wp (panic p) Q h = Q (Panic p) []"
  by (simp add: wp_def panic_def result_def emitted_def)

lemma wp_of_res [wp_simps]: "wp (of_res r) Q h = Q r []"
  by (simp add: wp_def of_res_def result_def emitted_def)

lemma wp_emit [wp_simps]: "wp (emit e) Q h = Q (Ok ()) [e]"
  by (simp add: wp_def emit_def result_def emitted_def)

lemma wp_call [wp_simps]:
  "wp (call f mk) Q h = (case f h of
       Inl e \<Rightarrow> Q (Err e) [mk (Inl e)] | Inr a \<Rightarrow> Q (Ok a) [mk (Inr a)])"
  by (simp add: wp_def call_def result_def emitted_def split: sum.split)

lemma wp_ask: "wp (ask f mk) Q h = Q (Ok (f h)) [mk (f h)]"
  by (simp add: wp_def ask_def result_def emitted_def)

lemma wp_bind [wp_simps]:
  "wp (bind m f) Q h = wp m (\<lambda>r t. case r of
       Ok a \<Rightarrow> wp (f a) (\<lambda>r' t'. Q r' (t @ t')) (h @ t)
     | Err e \<Rightarrow> Q (Err e) t
     | Panic p \<Rightarrow> Q (Panic p) t) h"
  by (auto simp: wp_def bind_def result_def emitted_def split: prod.split res.split)

lemma wp_attempt [wp_simps]:
  "wp (attempt m hdl f) Q h = wp m (\<lambda>r t. case r of
       Ok a \<Rightarrow> wp (f a) (\<lambda>r' t'. Q r' (t @ t')) (h @ t)
     | Err e \<Rightarrow> wp (hdl e) (\<lambda>r' t'. Q r' (t @ t')) (h @ t)
     | Panic p \<Rightarrow> Q (Panic p) t) h"
  by (auto simp: wp_def attempt_def result_def emitted_def split: prod.split res.split)

lemma wp_wrapf [wp_simps]:
  "wp (wrapf msg m) Q h = wp m (\<lambda>r t. case r of
       Ok a \<Rightarrow> Q (Ok a) t | Err e \<Rightarrow> Q (Err (Errorf msg e)) t | Panic p \<Rightarrow> Q (Panic p) t) h"
  unfolding wrapf_def wp_attempt
  by (rule arg_cong [where f = "\<lambda>P. wp m P h"]) (auto simp: wp_ret wp_fail fun_eq_iff split: res.split)

lemma wp_defer [wp_simps]:
  "wp (defer_after d m) Q h = wp m (\<lambda>r t. wp d (\<lambda>r' t'. case r' of
       Panic p \<Rightarrow> Q (Panic p) (t @ t') | _ \<Rightarrow> Q r (t @ t')) (h @ t)) h"
  by (auto simp: wp_def defer_after_def result_def emitted_def split: prod.split res.split)

lemma wp_if [wp_simps]: "wp (if b then m else m') Q h = (if b then wp m Q h else wp m' Q h)"
  by simp

lemma wp_mono:
  assumes "wp m P h" and "\<And>r t. r = result m h \<Longrightarrow> t = emitted m h \<Longrightarrow> P r t \<Longrightarrow> Q r t"
  shows "wp m Q h"
  using assms by (simp add: wp_def)

lemma wp_conj: "wp m (\<lambda>r t. P r t \<and> Q r t) h \<longleftrightarrow> wp m P h \<and> wp m Q h"
  by (simp add: wp_def)

lemma wpI: "Q (result m h) (emitted m h) \<Longrightarrow> wp m Q h"
  by (simp add: wp_def)

lemma wpD: "wp m Q h \<Longrightarrow> Q (result m h) (emitted m h)"
  by (simp add: wp_def)

text \<open>Running a sequence, for results and emitted events stated separately.\<close>

lemma result_bind:
  "result (bind m f) h = (case result m h of
     Ok a \<Rightarrow> result (f a) (h @ emitted m h) | Err e \<Rightarrow> Err e | Panic p \<Rightarrow> Panic p)"
  by (auto simp: bind_def result_def emitted_def split: prod.split res.split)

lemma emitted_bind:
  "emitted (bind m f) h = emitted m h @ (case result m h of
     Ok a \<Rightarrow> emitted (f a) (h @ emitted m h) | _ \<Rightarrow> [])"
  by (auto simp: bind_def result_def emitted_def split: prod.split res.split)

lemma result_call: "result (call f mk) h = res_of (f h)"
  by (simp add: call_def result_def)

lemma emitted_call: "emitted (call f mk) h = [mk (f h)]"
  by (simp add: call_def emitted_def)

lemma result_ret [simp]: "result (ret a) h = Ok a"
  by (simp add: ret_def result_def)

lemma emitted_ret [simp]: "emitted (ret a) h = []"
  by (simp add: ret_def emitted_def)

lemma result_fail [simp]: "result (fail e) h = Err e"
  by (simp add: fail_def result_def)

lemma emitted_fail [simp]: "emitted (fail e) h = []"
  by (simp add: fail_def emitted_def)

text \<open>Evaluating a run step by step, when the result of each step is known.\<close>

lemmas run_simps = result_bind emitted_bind result_call emitted_call

text \<open>Who emitted an event of a sequence.\<close>

lemma in_emitted_bind:
  "e \<in> set (emitted (bind m f) h) \<longleftrightarrow>
     e \<in> set (emitted m h) \<or> (\<exists>a. result m h = Ok a \<and> e \<in> set (emitted (f a) (h @ emitted m h)))"
  by (auto simp: emitted_bind split: res.split)

text \<open>One interaction whose answer is then converted.\<close>

lemma result_call_ret: "result (bind (call f mk) (\<lambda>a. ret (g a))) h = res_of (map_sum id g (f h))"
  by (cases "f h") (simp_all add: result_bind result_call)

lemma emitted_call_ret: "emitted (bind (call f mk) (\<lambda>a. ret (g a))) h = [mk (f h)]"
  by (cases "f h") (simp_all add: emitted_bind result_call emitted_call)

lemma emitted_attempt:
  "emitted (attempt m hdl f) h = emitted m h @ (case result m h of
     Ok a \<Rightarrow> emitted (f a) (h @ emitted m h)
   | Err e \<Rightarrow> emitted (hdl e) (h @ emitted m h)
   | Panic p \<Rightarrow> [])"
  by (auto simp: attempt_def result_def emitted_def split: prod.split res.split)

lemma result_attempt:
  "result (attempt m hdl f) h = (case result m h of
     Ok a \<Rightarrow> result (f a) (h @ emitted m h)
   | Err e \<Rightarrow> result (hdl e) (h @ emitted m h)
   | Panic p \<Rightarrow> Panic p)"
  by (auto simp: attempt_def result_def emitted_def split: prod.split res.split)

lemma result_wrapf:
  "result (wrapf msg m) h = (case result m h of
     Ok a \<Rightarrow> Ok a | Err e \<Rightarrow> Err (Errorf msg e) | Panic p \<Rightarrow> Panic p)"
  by (simp add: wrapf_def result_attempt split: res.split)

lemma emitted_wrapf [simp]: "emitted (wrapf msg m) h = emitted m h"
  by (simp add: wrapf_def emitted_attempt split: res.split)

lemma result_of_res [simp]: "result (of_res r) h = r"
  by (simp add: of_res_def result_def)

lemma emitted_of_res [simp]: "emitted (of_res r) h = []"
  by (simp add: of_res_def emitted_def)

lemma result_emit [simp]: "result (emit e) h = Ok ()"
  by (simp add: emit_def result_def)

lemma emitted_emit [simp]: "emitted (emit e) h = [e]"
  by (simp add: emit_def emitted_def)

lemma result_defer:
  "result (defer_after d m) h = (case result d (h @ emitted m h) of
     Panic p \<Rightarrow> Panic p | _ \<Rightarrow> result m h)"
  by (auto simp: defer_after_def result_def emitted_def split: prod.split res.split)

lemma emitted_defer:
  "emitted (defer_after d m) h = emitted m h @ emitted d (h @ emitted m h)"
  by (auto simp: defer_after_def result_def emitted_def split: prod.split res.split)

section \<open>Footprints\<close>

text \<open>\<open>only P m\<close>: whatever the history, every event \<open>m\<close> emits satisfies \<open>P\<close>.\<close>

definition only :: "('e \<Rightarrow> bool) \<Rightarrow> ('e, 'a) go \<Rightarrow> bool" where
  "only P m \<longleftrightarrow> (\<forall>h. \<forall>e \<in> set (emitted m h). P e)"

lemma onlyD: "only P m \<Longrightarrow> e \<in> set (emitted m h) \<Longrightarrow> P e"
  by (simp add: only_def)

lemma only_mono: "only P m \<Longrightarrow> (\<And>e. P e \<Longrightarrow> Q e) \<Longrightarrow> only Q m"
  by (auto simp: only_def)

lemma only_ret [only_rules]: "only P (ret a)"
  by (simp add: only_def ret_def emitted_def)

lemma only_fail [only_rules]: "only P (fail e)"
  by (simp add: only_def fail_def emitted_def)

lemma only_panic [only_rules]: "only P (panic m)"
  by (simp add: only_def panic_def emitted_def)

lemma only_of_res [only_rules]: "only P (of_res r)"
  by (simp add: only_def of_res_def emitted_def)

lemma only_bind [only_rules]:
  "only P m \<Longrightarrow> (\<And>a h. result m h = Ok a \<Longrightarrow> only P (f a)) \<Longrightarrow> only P (bind m f)"
  unfolding only_def by (metis in_emitted_bind)

lemma only_attempt [only_rules]:
  "only P m \<Longrightarrow> (\<And>e. only P (hdl e)) \<Longrightarrow> (\<And>a. only P (f a)) \<Longrightarrow> only P (attempt m hdl f)"
  by (auto simp: only_def emitted_attempt split: res.splits)

lemma only_wrapf [only_rules]: "only P m \<Longrightarrow> only P (wrapf msg m)"
  by (simp add: wrapf_def only_attempt only_ret only_fail)

lemma only_defer [only_rules]: "only P d \<Longrightarrow> only P m \<Longrightarrow> only P (defer_after d m)"
  by (auto simp: only_def emitted_defer)

lemma only_if [only_rules]:
  "(b \<Longrightarrow> only P m) \<Longrightarrow> (\<not> b \<Longrightarrow> only P m') \<Longrightarrow> only P (if b then m else m')"
  by simp

lemma only_prod [only_rules]: "(\<And>a b. only P (f a b)) \<Longrightarrow> only P (case p of (a, b) \<Rightarrow> f a b)"
  by (cases p) simp

lemma only_option [only_rules]:
  "(x = None \<Longrightarrow> only P m) \<Longrightarrow> (\<And>a. x = Some a \<Longrightarrow> only P (f a)) \<Longrightarrow>
   only P (case x of None \<Rightarrow> m | Some a \<Rightarrow> f a)"
  by (cases x) simp_all

lemma only_Let [only_rules]: "(\<And>x. only P (f x)) \<Longrightarrow> only P (let x = a in f x)"
  by simp

lemma only_emit: "P e \<Longrightarrow> only P (emit e)"
  by (simp add: only_def emit_def emitted_def)

lemma only_call: "(\<And>r. P (mk r)) \<Longrightarrow> only P (call f mk)"
  by (simp add: only_def call_def emitted_def)

lemma only_ask: "(\<And>a. P (mk a)) \<Longrightarrow> only P (ask f mk)"
  by (simp add: only_def ask_def emitted_def)

section \<open>Guarded runs\<close>

text \<open>
  A safety property of the interactions is a guard \<open>I\<close>: whether an event is allowed after the events
  before it. \<open>guarded I s t\<close> says that every event of \<open>t\<close> is allowed when it comes after \<open>s\<close>.
\<close>

fun guarded :: "('e list \<Rightarrow> 'e \<Rightarrow> bool) \<Rightarrow> 'e list \<Rightarrow> 'e list \<Rightarrow> bool" where
  "guarded I s [] = True"
| "guarded I s (e # t) = (I s e \<and> guarded I (s @ [e]) t)"

lemma guarded_append [simp]: "guarded I s (t @ u) \<longleftrightarrow> guarded I s t \<and> guarded I (s @ t) u"
  by (induction t arbitrary: s) auto

lemma guarded_split: "guarded I s (pre @ e # post) \<Longrightarrow> I (s @ pre) e"
  by simp

lemma guarded_all: "(\<And>s e. e \<in> set t \<Longrightarrow> I s e) \<Longrightarrow> guarded I s t"
  by (induction t arbitrary: s) auto

lemma guarded_mono: "guarded I s t \<Longrightarrow> (\<And>s e. I s e \<Longrightarrow> J s e) \<Longrightarrow> guarded J s t"
  by (induction t arbitrary: s) auto

text \<open>
  The triple: started after the events \<open>t\<close> with \<open>P t\<close>, whatever happened before them, \<open>m\<close> emits only
  allowed events, and ends with \<open>Q a\<close> when it returns \<open>a\<close> and with \<open>R\<close> when it returns an error.
\<close>

definition triple :: "('e list \<Rightarrow> 'e \<Rightarrow> bool) \<Rightarrow> ('e list \<Rightarrow> bool) \<Rightarrow> ('e, 'a) go \<Rightarrow>
    ('a \<Rightarrow> 'e list \<Rightarrow> bool) \<Rightarrow> ('e list \<Rightarrow> bool) \<Rightarrow> bool" where
  "triple I P m Q R \<longleftrightarrow> (\<forall>h t. P t \<longrightarrow> guarded I t (emitted m (h @ t)) \<and>
     (\<forall>a. result m (h @ t) = Ok a \<longrightarrow> Q a (t @ emitted m (h @ t))) \<and>
     (\<forall>e. result m (h @ t) = Err e \<longrightarrow> R (t @ emitted m (h @ t))))"

lemma tripleD:
  assumes "triple I P m Q R" and "P []"
  shows "guarded I [] (emitted m h)" and "result m h = Ok a \<Longrightarrow> Q a (emitted m h)"
  using assms(1) [unfolded triple_def, rule_format, of "[]" h] assms(2) by auto

lemma triple_ret: "(\<And>t. P t \<Longrightarrow> Q a t) \<Longrightarrow> triple I P (ret a) Q R"
  by (simp add: triple_def)

lemma triple_fail: "(\<And>t. P t \<Longrightarrow> R t) \<Longrightarrow> triple I P (fail e) Q R"
  by (simp add: triple_def)

lemma triple_of_res:
  "(\<And>t a. P t \<Longrightarrow> r = Ok a \<Longrightarrow> Q a t) \<Longrightarrow> (\<And>t e. P t \<Longrightarrow> r = Err e \<Longrightarrow> R t) \<Longrightarrow> triple I P (of_res r) Q R"
  by (simp add: triple_def)

lemma triple_bind:
  assumes m: "triple I P m M R" and f: "\<And>a. triple I (M a) (f a) Q R"
  shows "triple I P (bind m f) Q R"
  unfolding triple_def
proof (intro allI impI)
  fix h t assume "P t"
  with m have 1: "guarded I t (emitted m (h @ t))"
    "\<And>a. result m (h @ t) = Ok a \<Longrightarrow> M a (t @ emitted m (h @ t))"
    "\<And>e. result m (h @ t) = Err e \<Longrightarrow> R (t @ emitted m (h @ t))"
    by (auto simp: triple_def)
  show "guarded I t (emitted (bind m f) (h @ t)) \<and>
    (\<forall>a. result (bind m f) (h @ t) = Ok a \<longrightarrow> Q a (t @ emitted (bind m f) (h @ t))) \<and>
    (\<forall>e. result (bind m f) (h @ t) = Err e \<longrightarrow> R (t @ emitted (bind m f) (h @ t)))"
  proof (cases "result m (h @ t)")
    case (Ok a)
    with 1 f [of a, unfolded triple_def, rule_format, of "t @ emitted m (h @ t)" h] show ?thesis
      by (simp add: run_simps)
  qed (use 1 in \<open>simp_all add: run_simps\<close>)
qed

lemma triple_attempt:
  assumes m: "triple I P m M N" and f: "\<And>a. triple I (M a) (f a) Q R" and hdl: "\<And>e. triple I N (hdl e) Q R"
  shows "triple I P (attempt m hdl f) Q R"
  unfolding triple_def
proof (intro allI impI)
  fix h t assume "P t"
  with m have 1: "guarded I t (emitted m (h @ t))"
    "\<And>a. result m (h @ t) = Ok a \<Longrightarrow> M a (t @ emitted m (h @ t))"
    "\<And>e. result m (h @ t) = Err e \<Longrightarrow> N (t @ emitted m (h @ t))"
    by (auto simp: triple_def)
  show "guarded I t (emitted (attempt m hdl f) (h @ t)) \<and>
    (\<forall>a. result (attempt m hdl f) (h @ t) = Ok a \<longrightarrow> Q a (t @ emitted (attempt m hdl f) (h @ t))) \<and>
    (\<forall>e. result (attempt m hdl f) (h @ t) = Err e \<longrightarrow> R (t @ emitted (attempt m hdl f) (h @ t)))"
  proof (cases "result m (h @ t)")
    case (Ok a)
    with 1 f [of a, unfolded triple_def, rule_format, of "t @ emitted m (h @ t)" h] show ?thesis
      by (simp add: result_attempt emitted_attempt)
  next
    case (Err e)
    with 1 hdl [of e, unfolded triple_def, rule_format, of "t @ emitted m (h @ t)" h] show ?thesis
      by (simp add: result_attempt emitted_attempt)
  qed (use 1 in \<open>simp add: result_attempt emitted_attempt\<close>)
qed

lemma triple_wrapf: "triple I P m Q R \<Longrightarrow> triple I P (wrapf msg m) Q R"
  by (auto simp: triple_def result_wrapf split: res.splits)

lemma triple_if:
  "(b \<Longrightarrow> triple I P m Q R) \<Longrightarrow> (\<not> b \<Longrightarrow> triple I P m' Q R) \<Longrightarrow> triple I P (if b then m else m') Q R"
  by simp

lemma triple_option:
  "(x = None \<Longrightarrow> triple I P m Q R) \<Longrightarrow> (\<And>a. x = Some a \<Longrightarrow> triple I P (f a) Q R) \<Longrightarrow>
   triple I P (case x of None \<Rightarrow> m | Some a \<Rightarrow> f a) Q R"
  by (cases x) simp_all

lemma triple_sum:
  "(\<And>a. x = Inl a \<Longrightarrow> triple I P (m a) Q R) \<Longrightarrow> (\<And>a. x = Inr a \<Longrightarrow> triple I P (f a) Q R) \<Longrightarrow>
   triple I P (case x of Inl a \<Rightarrow> m a | Inr a \<Rightarrow> f a) Q R"
  by (cases x) simp_all

text \<open>An assertion that later events cannot undo.\<close>

definition stable :: "('e list \<Rightarrow> bool) \<Rightarrow> bool" where
  "stable M \<longleftrightarrow> (\<forall>t e. M t \<longrightarrow> M (t @ [e]))"

lemma stableD: "stable M \<Longrightarrow> M t \<Longrightarrow> M (t @ s)"
  by (induction s rule: rev_induct) (auto simp: stable_def simp flip: append_assoc)

lemma stable_conj: "stable M \<Longrightarrow> stable N \<Longrightarrow> stable (\<lambda>t. M t \<and> N t)"
  by (simp add: stable_def)

lemma stable_True: "stable (\<lambda>_. True)"
  by (simp add: stable_def)

lemma triple_pre: "triple I P m Q R \<Longrightarrow> (\<And>t. P' t \<Longrightarrow> P t) \<Longrightarrow> triple I P' m Q R"
  by (simp add: triple_def)

lemma triple_post:
  "triple I P m Q R \<Longrightarrow> (\<And>a t. Q a t \<Longrightarrow> Q' a t) \<Longrightarrow> (\<And>t. R t \<Longrightarrow> R' t) \<Longrightarrow> triple I P m Q' R'"
  by (simp add: triple_def)

lemma triple_call:
  assumes "\<And>t x. P t \<Longrightarrow> I t (mk x)" and "\<And>h t a. P t \<Longrightarrow> f h = Inr a \<Longrightarrow> Q a (t @ [mk (Inr a)])"
    and "\<And>t e. P t \<Longrightarrow> R (t @ [mk (Inl e)])"
  shows "triple I P (call f mk) Q R"
  using assms by (auto simp: triple_def result_call emitted_call)

text \<open>An operation with a known footprint, when its events are allowed and do not disturb \<open>P\<close>.\<close>

lemma triple_frame:
  assumes "only ev m" and "\<And>t e. ev e \<Longrightarrow> P t \<Longrightarrow> I t e" and "\<And>t e. ev e \<Longrightarrow> P t \<Longrightarrow> P (t @ [e])"
  shows "triple I P m (\<lambda>_. P) P"
proof -
  have "guarded I t s \<and> P (t @ s)" if "P t" and "\<forall>e \<in> set s. ev e" for s t
    using that assms(2,3) by (induction s arbitrary: t) (auto, metis append.assoc append_Cons append_Nil)
  then show ?thesis using assms(1) by (auto simp: triple_def only_def)
qed

text \<open>The same, with what is known of the run when it returned.\<close>

lemma triple_frame_result:
  assumes "only ev m" and "\<And>t e. ev e \<Longrightarrow> P t \<Longrightarrow> I t e" and "\<And>t e. ev e \<Longrightarrow> P t \<Longrightarrow> P (t @ [e])"
    and "\<And>h a. result m h = Ok a \<Longrightarrow> X a (emitted m h)"
  shows "triple I P m (\<lambda>a t. P t \<and> (\<exists>s u. P s \<and> t = s @ u \<and> X a u)) P"
proof -
  have "triple I P m (\<lambda>_. P) P" by (rule triple_frame [of ev]) (use assms(1-3) in auto)
  with assms(4) show ?thesis unfolding triple_def by blast
qed

lemma triple_conj:
  "triple I P m Q R \<Longrightarrow> triple J P' m Q' R' \<Longrightarrow>
   triple (\<lambda>s e. I s e \<and> J s e) (\<lambda>t. P t \<and> P' t) m (\<lambda>a t. Q a t \<and> Q' a t) (\<lambda>t. R t \<and> R' t)"
proof -
  have "guarded (\<lambda>s e. I s e \<and> J s e) s t \<longleftrightarrow> guarded I s t \<and> guarded J s t" for s t
    by (induction t arbitrary: s) auto
  then show "triple I P m Q R \<Longrightarrow> triple J P' m Q' R' \<Longrightarrow> ?thesis" by (simp add: triple_def)
qed

section \<open>Iterating over a Go map\<close>

text \<open>
  The order in which \<open>range\<close> visits a map is not specified. A map is a list of entries; one
  iteration visits the permutation that a list of choices picks.
\<close>

fun shuffle :: "nat list \<Rightarrow> 'a list \<Rightarrow> 'a list" where
  "shuffle _ [] = []"
| "shuffle [] (x # xs) = x # xs"
| "shuffle (k # ks) (x # xs) =
     (let ys = x # xs; i = k mod length ys
      in ys ! i # shuffle ks (take i ys @ drop (Suc i) ys))"

lemma mset_take_nth_drop: "i < length xs \<Longrightarrow> add_mset (xs ! i) (mset (take i xs @ drop (Suc i) xs)) = mset xs"
  by (metis id_take_nth_drop mset.simps(2) mset_append union_mset_add_mset_right)

lemma mset_shuffle [simp]: "mset (shuffle ks xs) = mset xs"
proof (induction ks xs rule: shuffle.induct)
  case (3 k ks x xs)
  let ?ys = "x # xs" and ?i = "k mod length (x # xs)"
  have "?i < length ?ys" by simp
  from mset_take_nth_drop [OF this] 3 show ?case by (simp add: Let_def)
qed simp_all

lemma set_shuffle [simp]: "set (shuffle ks xs) = set xs"
  by (metis mset_shuffle set_mset_mset)

text \<open>Every order can be picked, so quantifying over the choices covers every iteration order.\<close>

lemma shuffle_onto: "mset ys = mset xs \<Longrightarrow> \<exists>ks. shuffle ks xs = ys"
proof (induction ys arbitrary: xs)
  case Nil
  then show ?case by simp
next
  case (Cons y ys)
  then have "y \<in> set xs" by (metis list.set_intros(1) mset_eq_setD)
  then obtain i where i: "i < length xs" "xs ! i = y" by (meson in_set_conv_nth)
  let ?zs = "take i xs @ drop (Suc i) xs"
  from mset_take_nth_drop [OF i(1)] i(2) Cons.prems have "mset ys = mset ?zs"
    by (metis add_mset_add_mset_same_iff mset.simps(2))
  with Cons.IH obtain ks where ks: "shuffle ks ?zs = ys" by metis
  from i obtain x xs' where xs: "xs = x # xs'" by (cases xs) auto
  have "shuffle (i # ks) xs = y # ys"
    using i ks by (simp add: xs Let_def)
  then show ?case by blast
qed

lemma bind_ret: "bind (ret a) f = f a"
  by (rule ext) (simp add: bind_def ret_def split: prod.split)

lemma bind_assoc: "bind (bind m f) g = bind m (\<lambda>a. bind (f a) g)"
  by (rule ext) (auto simp: bind_def split: prod.splits res.splits)

section \<open>Total correctness\<close>

text \<open>
  \<open>yields h P m Q\<close>: run after \<open>h\<close> and events that satisfy \<open>P\<close>, the operation returns a value, with \<open>Q\<close> of
  the value and of all events but \<open>h\<close>. There is no rule for \<open>fail\<close>: an operation that yields does not fail.
\<close>

definition yields :: "'e list \<Rightarrow> ('e list \<Rightarrow> bool) \<Rightarrow> ('e, 'a) go \<Rightarrow> ('a \<Rightarrow> 'e list \<Rightarrow> bool) \<Rightarrow> bool" where
  "yields h P m Q \<longleftrightarrow> (\<forall>t. P t \<longrightarrow> (\<exists>a. result m (h @ t) = Ok a \<and> Q a (t @ emitted m (h @ t))))"

lemma yieldsD: "yields h P m Q \<Longrightarrow> P [] \<Longrightarrow> \<exists>a. result m h = Ok a \<and> Q a (emitted m h)"
  unfolding yields_def by (metis append_Nil append_Nil2)

lemma yields_ret: "(\<And>t. P t \<Longrightarrow> Q a t) \<Longrightarrow> yields h P (ret a) Q"
  by (simp add: yields_def)

lemma yields_bind:
  assumes "yields h P m M" and "\<And>a. yields h (M a) (f a) Q"
  shows "yields h P (bind m f) Q"
  unfolding yields_def
proof (intro allI impI)
  fix t assume "P t"
  with assms(1) obtain a where a: "result m (h @ t) = Ok a" "M a (t @ emitted m (h @ t))" by (auto simp: yields_def)
  with assms(2) [of a] obtain b where "result (f a) (h @ t @ emitted m (h @ t)) = Ok b"
    "Q b ((t @ emitted m (h @ t)) @ emitted (f a) (h @ t @ emitted m (h @ t)))"
    unfolding yields_def by blast
  with a(1) show "\<exists>b. result (bind m f) (h @ t) = Ok b \<and> Q b (t @ emitted (bind m f) (h @ t))"
    by (simp add: result_bind emitted_bind)
qed

lemma yields_attempt:
  assumes "yields h P m M" and "\<And>a. yields h (M a) (f a) Q"
  shows "yields h P (attempt m hdl f) Q"
proof -
  have "result (attempt m hdl f) h = result (bind m f) h \<and> emitted (attempt m hdl f) h = emitted (bind m f) h"
    if "result m h = Ok a" for h a
    using that by (simp add: result_bind emitted_bind result_attempt emitted_attempt)
  with yields_bind [OF assms] assms(1) show ?thesis unfolding yields_def by metis
qed

lemma yields_wrapf: "yields h P m Q \<Longrightarrow> yields h P (wrapf msg m) Q"
  unfolding wrapf_def by (erule yields_attempt) (simp add: yields_ret)

lemma yields_post: "yields h P m Q \<Longrightarrow> (\<And>a t. Q a t \<Longrightarrow> Q' a t) \<Longrightarrow> yields h P m Q'"
  unfolding yields_def by blast

lemma yields_pre: "yields h P m Q \<Longrightarrow> (\<And>t. P' t \<Longrightarrow> P t) \<Longrightarrow> yields h P' m Q"
  unfolding yields_def by blast

lemma yields_given: "(\<And>t. P t \<Longrightarrow> c) \<Longrightarrow> (c \<Longrightarrow> yields h P m Q) \<Longrightarrow> yields h P m Q"
  unfolding yields_def by blast

text \<open>A call that always succeeds.\<close>

definition answers :: "('e list \<Rightarrow> gerror + 'a) \<Rightarrow> ('a \<Rightarrow> bool) \<Rightarrow> bool" where
  "answers f Q \<longleftrightarrow> (\<forall>h. \<exists>a. f h = Inr a \<and> Q a)"

lemma yields_call:
  assumes "answers f A" and "\<And>t a. P t \<Longrightarrow> A a \<Longrightarrow> Q a (t @ [mk (Inr a)])"
  shows "yields h P (call f mk) Q"
  unfolding yields_def
proof (intro allI impI)
  fix t assume "P t"
  moreover obtain a where "f (h @ t) = Inr a" "A a" using assms(1) by (auto simp: answers_def)
  ultimately show "\<exists>a. result (call f mk) (h @ t) = Ok a \<and> Q a (t @ emitted (call f mk) (h @ t))"
    using assms(2) by (simp add: result_call emitted_call)
qed

section \<open>Durations\<close>

text \<open>\<open>time.Duration\<close> counts nanoseconds.\<close>

definition Second :: int where "Second = 1000000000"
definition Minute :: int where "Minute = 60 * Second"
definition Hour :: int where "Hour = 60 * Minute"

lemmas duration_defs = Second_def Minute_def Hour_def

end
