(* ===== verification/Node_Types.thy ===== *)
theory Node_Types
  imports Go_Prelude
begin

text \<open>
  The custom resource of \<open>src/api/v1/node_types.go\<close>: the requested state of a node, its current
  state, and the object the controller reads and patches. As in the source both states are strings,
  so the empty string of an unset field and any other value are states too. The lemmas give the
  classification of the states by \<open>Drain\<close> and \<open>WorkState\<close>.
\<close>

section \<open>Requested state\<close>

type_synonym NodeState = string

definition NodeStateActive :: NodeState where "NodeStateActive = ''Active''"
definition NodeStateCordoned :: NodeState where "NodeStateCordoned = ''Cordoned''"
definition NodeStateDrained :: NodeState where "NodeStateDrained = ''Drained''"
definition NodeStateRebootIfRequired :: NodeState where "NodeStateRebootIfRequired = ''RebootIfRequired''"

definition Drain :: "NodeState \<Rightarrow> bool" where
  "Drain c = (if c = NodeStateDrained \<or> c = NodeStateRebootIfRequired then True else False)"

section \<open>Current state\<close>

type_synonym NodeCurrentState = string

definition NodeCurrentStateOk :: NodeCurrentState where "NodeCurrentStateOk = ''OK''"
definition NodeCurrentStateCordoned :: NodeCurrentState where "NodeCurrentStateCordoned = ''Cordoned''"
definition NodeCurrentStateQueued :: NodeCurrentState where "NodeCurrentStateQueued = ''Queued''"
definition NodeCurrentStateNext :: NodeCurrentState where "NodeCurrentStateNext = ''Next''"
definition NodeCurrentStateDraining :: NodeCurrentState where "NodeCurrentStateDraining = ''Draining''"
definition NodeCurrentStateDrained :: NodeCurrentState where "NodeCurrentStateDrained = ''Drained''"
definition NodeCurrentStateUndraining :: NodeCurrentState where "NodeCurrentStateUndraining = ''Undraining''"
definition NodeCurrentStateRebooting :: NodeCurrentState where "NodeCurrentStateRebooting = ''Rebooting''"

definition WorkState :: "NodeCurrentState \<Rightarrow> bool" where
  "WorkState c =
     (if c = NodeCurrentStateOk \<or> c = NodeCurrentStateCordoned \<or> c = NodeCurrentStateQueued
      then False else True)"

definition GetNodeCurrentStates :: "NodeCurrentState list" where
  "GetNodeCurrentStates =
     [NodeCurrentStateOk, NodeCurrentStateCordoned, NodeCurrentStateQueued, NodeCurrentStateNext,
      NodeCurrentStateDraining, NodeCurrentStateDrained, NodeCurrentStateUndraining,
      NodeCurrentStateRebooting]"

lemmas requested_defs =
  NodeStateActive_def NodeStateCordoned_def NodeStateDrained_def NodeStateRebootIfRequired_def

lemmas current_defs =
  NodeCurrentStateOk_def NodeCurrentStateCordoned_def NodeCurrentStateQueued_def
  NodeCurrentStateNext_def NodeCurrentStateDraining_def NodeCurrentStateDrained_def
  NodeCurrentStateUndraining_def NodeCurrentStateRebooting_def

lemma requested_distinct [simp]:
  "distinct [NodeStateActive, NodeStateCordoned, NodeStateDrained, NodeStateRebootIfRequired]"
  by (simp add: requested_defs)

lemma requested_neq [simp]:
  "NodeStateActive \<noteq> NodeStateCordoned" "NodeStateActive \<noteq> NodeStateDrained"
  "NodeStateActive \<noteq> NodeStateRebootIfRequired" "NodeStateCordoned \<noteq> NodeStateActive"
  "NodeStateCordoned \<noteq> NodeStateDrained" "NodeStateCordoned \<noteq> NodeStateRebootIfRequired"
  "NodeStateDrained \<noteq> NodeStateActive" "NodeStateDrained \<noteq> NodeStateCordoned"
  "NodeStateDrained \<noteq> NodeStateRebootIfRequired" "NodeStateRebootIfRequired \<noteq> NodeStateActive"
  "NodeStateRebootIfRequired \<noteq> NodeStateCordoned" "NodeStateRebootIfRequired \<noteq> NodeStateDrained"
  by (simp_all add: requested_defs)

lemma current_distinct: "distinct GetNodeCurrentStates"
  by (simp add: GetNodeCurrentStates_def current_defs)

lemma current_neq [simp]:
  "x \<in> set GetNodeCurrentStates \<Longrightarrow> x \<noteq> ''''"
  "NodeCurrentStateOk \<noteq> NodeCurrentStateUndraining" "NodeCurrentStateUndraining \<noteq> NodeCurrentStateOk"
  "NodeCurrentStateNext \<noteq> NodeCurrentStateQueued" "NodeCurrentStateQueued \<noteq> NodeCurrentStateNext"
  "NodeCurrentStateNext \<noteq> NodeCurrentStateDraining" "NodeCurrentStateDraining \<noteq> NodeCurrentStateNext"
  "NodeCurrentStateNext \<noteq> NodeCurrentStateDrained" "NodeCurrentStateDrained \<noteq> NodeCurrentStateNext"
  "NodeCurrentStateNext \<noteq> NodeCurrentStateRebooting" "NodeCurrentStateRebooting \<noteq> NodeCurrentStateNext"
  "NodeCurrentStateNext \<noteq> NodeCurrentStateUndraining" "NodeCurrentStateUndraining \<noteq> NodeCurrentStateNext"
  "NodeCurrentStateDraining \<noteq> NodeCurrentStateDrained" "NodeCurrentStateDrained \<noteq> NodeCurrentStateDraining"
  "NodeCurrentStateDraining \<noteq> NodeCurrentStateUndraining" "NodeCurrentStateUndraining \<noteq> NodeCurrentStateDraining"
  "NodeCurrentStateDraining \<noteq> NodeCurrentStateRebooting" "NodeCurrentStateRebooting \<noteq> NodeCurrentStateDraining"
  "NodeCurrentStateDrained \<noteq> NodeCurrentStateUndraining" "NodeCurrentStateUndraining \<noteq> NodeCurrentStateDrained"
  "NodeCurrentStateDrained \<noteq> NodeCurrentStateRebooting" "NodeCurrentStateRebooting \<noteq> NodeCurrentStateDrained"
  "NodeCurrentStateRebooting \<noteq> NodeCurrentStateUndraining" "NodeCurrentStateUndraining \<noteq> NodeCurrentStateRebooting"
  by (auto simp: GetNodeCurrentStates_def current_defs)

lemma WorkState_simps [simp]:
  "\<not> WorkState NodeCurrentStateOk" "\<not> WorkState NodeCurrentStateCordoned"
  "\<not> WorkState NodeCurrentStateQueued" "WorkState NodeCurrentStateNext"
  "WorkState NodeCurrentStateDraining" "WorkState NodeCurrentStateDrained"
  "WorkState NodeCurrentStateUndraining" "WorkState NodeCurrentStateRebooting" "WorkState ''''"
  by (simp_all add: WorkState_def current_defs)

lemma WorkState_neq:
  "WorkState c \<Longrightarrow> c \<noteq> NodeCurrentStateOk" "WorkState c \<Longrightarrow> c \<noteq> NodeCurrentStateCordoned"
  "WorkState c \<Longrightarrow> c \<noteq> NodeCurrentStateQueued"
  by (auto simp: WorkState_def)

lemma Drain_simps [simp]:
  "\<not> Drain NodeStateActive" "\<not> Drain NodeStateCordoned" "Drain NodeStateDrained"
  "Drain NodeStateRebootIfRequired"
  by (simp_all add: Drain_def)

section \<open>The object\<close>

text \<open>
  Times are nanoseconds since the zero time of Go, so that \<open>IsZero\<close> is \<open>= 0\<close>. An optional pointer
  is an \<open>option\<close>. Of \<open>metav1.ObjectMeta\<close> the record has the fields the code reads or writes.
\<close>

record Condition =
  cdType :: string
  cdStatus :: string
  cdObservedGeneration :: int
  cdLastTransitionTime :: int
  cdReason :: string
  cdMessage :: string
  LastCheckTime :: "int option"

record NodeSpec =
  State :: NodeState

record NodeStatus =
  Conditions :: "Condition list"
  RebootRequiredLastChecked :: "int option"
  RebootRequired :: "bool option"
  Drained :: bool
  CurrentState :: NodeCurrentState
  BootID :: string

record Node =
  Name :: string
  Finalizers :: "string list"
  OwnerReferences :: "string list"
  DeletionTimestamp :: "int option"
  Spec :: NodeSpec
  Status :: NodeStatus

text \<open>\<open>IsZero\<close> of a time behind a pointer: nil counts as the zero time.\<close>

fun IsZero :: "int option \<Rightarrow> bool" where
  "IsZero None = True"
| "IsZero (Some t) = (t = 0)"

text \<open>Field access through the nested structs, as the code writes it.\<close>

abbreviation specState :: "Node \<Rightarrow> NodeState" where
  "specState node \<equiv> State (Spec node)"

abbreviation currentState :: "Node \<Rightarrow> NodeCurrentState" where
  "currentState node \<equiv> CurrentState (Status node)"

abbreviation isDrained :: "Node \<Rightarrow> bool" where
  "isDrained node \<equiv> Drained (Status node)"

section \<open>Classification of the states\<close>

text \<open>
  The states from which the code does not start work are \<open>OK\<close>, \<open>Cordoned\<close> and \<open>Queued\<close>; among the
  declared states all others are work states, and so is every string that is not a declared state,
  the empty string of an object whose status was never written included.
\<close>

lemma WorkState_declared:
  "filter WorkState GetNodeCurrentStates =
     [NodeCurrentStateNext, NodeCurrentStateDraining, NodeCurrentStateDrained,
      NodeCurrentStateUndraining, NodeCurrentStateRebooting]"
  by (simp add: GetNodeCurrentStates_def)

lemma WorkState_undeclared: "c \<notin> set GetNodeCurrentStates \<Longrightarrow> WorkState c"
  by (auto simp: WorkState_def GetNodeCurrentStates_def)

end
