(* ===== verification/Plugin_Proto.thy ===== *)
theory Plugin_Proto
  imports Go_Prelude
begin

text \<open>
  The messages of the drain plugin protocol, \<open>src/api/plugins/proto/v1/drain_plugin.pb.go\<close>: for
  every message with fields its struct (hidden field values and presence bits), its builder and its
  getters, setters and clearing methods. A pointer is an \<open>option\<close>; a getter called on nil returns the zero value.
  Messages without fields are the unit type. The lemmas say that a getter returns what the builder was given; the
  contract \<open>presence_field\<close> of the accessors of one field is interpreted on every field.
\<close>

text \<open>\<open>ConfigFormat\<close> is an \<open>int32\<close>; the enum is open, so other numbers can arrive.\<close>

datatype ConfigFormat =
    CONFIG_FORMAT_UNSPECIFIED | CONFIG_FORMAT_YAML | CONFIG_FORMAT_JSON | CONFIG_FORMAT_OTHER int

section \<open>PluginInfoResponse\<close>

record PluginInfoResponse =
  pir_Id :: "string option"
  pir_ConfigFormat :: ConfigFormat
  pir_presence_Id :: bool
  pir_presence_ConfigFormat :: bool

definition PluginInfoResponse_Build :: "string option \<Rightarrow> ConfigFormat option \<Rightarrow> PluginInfoResponse" where
  "PluginInfoResponse_Build bId bConfigFormat =
     (let m0 = \<lparr>pir_Id = None, pir_ConfigFormat = CONFIG_FORMAT_UNSPECIFIED,
                pir_presence_Id = False, pir_presence_ConfigFormat = False\<rparr>;
          m1 = (case bId of None \<Rightarrow> m0 | Some v \<Rightarrow> m0\<lparr>pir_presence_Id := True, pir_Id := Some v\<rparr>)
      in case bConfigFormat of
           None \<Rightarrow> m1
         | Some v \<Rightarrow> m1\<lparr>pir_presence_ConfigFormat := True, pir_ConfigFormat := v\<rparr>)"

definition GetId :: "PluginInfoResponse option \<Rightarrow> string" where
  "GetId x = (case x of
       Some m \<Rightarrow> (case pir_Id m of Some v \<Rightarrow> v | None \<Rightarrow> '''')
     | None \<Rightarrow> '''')"

definition GetConfigFormat :: "PluginInfoResponse option \<Rightarrow> ConfigFormat" where
  "GetConfigFormat x = (case x of
       Some m \<Rightarrow> (if pir_presence_ConfigFormat m then pir_ConfigFormat m else CONFIG_FORMAT_UNSPECIFIED)
     | None \<Rightarrow> CONFIG_FORMAT_UNSPECIFIED)"

section \<open>InitRequest\<close>

record InitRequest =
  ir_Config :: "string option"
  ir_presence_Config :: bool

definition InitRequest_Build :: "string option \<Rightarrow> InitRequest" where
  "InitRequest_Build bConfig =
     (case bConfig of
        None \<Rightarrow> \<lparr>ir_Config = None, ir_presence_Config = False\<rparr>
      | Some v \<Rightarrow> \<lparr>ir_Config = Some v, ir_presence_Config = True\<rparr>)"

definition GetConfigBytes :: "InitRequest option \<Rightarrow> string option" where
  "GetConfigBytes x = (case x of Some m \<Rightarrow> ir_Config m | None \<Rightarrow> None)"

section \<open>The boolean responses\<close>

record IsSupportedResponse =
  isr_Supported :: bool
  isr_presence :: bool

definition IsSupportedResponse_Build :: "bool option \<Rightarrow> IsSupportedResponse" where
  "IsSupportedResponse_Build b =
     (case b of
        None \<Rightarrow> \<lparr>isr_Supported = False, isr_presence = False\<rparr>
      | Some v \<Rightarrow> \<lparr>isr_Supported = v, isr_presence = True\<rparr>)"

definition GetSupported :: "IsSupportedResponse option \<Rightarrow> bool" where
  "GetSupported x = (case x of Some m \<Rightarrow> isr_Supported m | None \<Rightarrow> False)"

record IsHealthyResponse =
  ihr_Healthy :: bool
  ihr_presence :: bool

definition IsHealthyResponse_Build :: "bool option \<Rightarrow> IsHealthyResponse" where
  "IsHealthyResponse_Build b =
     (case b of
        None \<Rightarrow> \<lparr>ihr_Healthy = False, ihr_presence = False\<rparr>
      | Some v \<Rightarrow> \<lparr>ihr_Healthy = v, ihr_presence = True\<rparr>)"

definition GetHealthy :: "IsHealthyResponse option \<Rightarrow> bool" where
  "GetHealthy x = (case x of Some m \<Rightarrow> ihr_Healthy m | None \<Rightarrow> False)"

record IsDrainOkResponse =
  ido_Ok :: bool
  ido_presence :: bool

definition IsDrainOkResponse_Build :: "bool option \<Rightarrow> IsDrainOkResponse" where
  "IsDrainOkResponse_Build b =
     (case b of
        None \<Rightarrow> \<lparr>ido_Ok = False, ido_presence = False\<rparr>
      | Some v \<Rightarrow> \<lparr>ido_Ok = v, ido_presence = True\<rparr>)"

definition GetOk :: "IsDrainOkResponse option \<Rightarrow> bool" where
  "GetOk x = (case x of Some m \<Rightarrow> ido_Ok m | None \<Rightarrow> False)"

section \<open>The requests that name a node\<close>

record IsDrainOkRequest =
  idr_NodeName :: "string option"
  idr_presence :: bool

definition IsDrainOkRequest_Build :: "string option \<Rightarrow> IsDrainOkRequest" where
  "IsDrainOkRequest_Build b =
     (case b of
        None \<Rightarrow> \<lparr>idr_NodeName = None, idr_presence = False\<rparr>
      | Some v \<Rightarrow> \<lparr>idr_NodeName = Some v, idr_presence = True\<rparr>)"

definition IsDrainOkRequest_GetNodeName :: "IsDrainOkRequest option \<Rightarrow> string" where
  "IsDrainOkRequest_GetNodeName x = (case x of
       Some m \<Rightarrow> (case idr_NodeName m of Some v \<Rightarrow> v | None \<Rightarrow> '''')
     | None \<Rightarrow> '''')"

record PreDrainRequest =
  pre_NodeName :: "string option"
  pre_presence :: bool

definition PreDrainRequest_Build :: "string option \<Rightarrow> PreDrainRequest" where
  "PreDrainRequest_Build b =
     (case b of
        None \<Rightarrow> \<lparr>pre_NodeName = None, pre_presence = False\<rparr>
      | Some v \<Rightarrow> \<lparr>pre_NodeName = Some v, pre_presence = True\<rparr>)"

definition PreDrainRequest_GetNodeName :: "PreDrainRequest option \<Rightarrow> string" where
  "PreDrainRequest_GetNodeName x = (case x of
       Some m \<Rightarrow> (case pre_NodeName m of Some v \<Rightarrow> v | None \<Rightarrow> '''')
     | None \<Rightarrow> '''')"

record PostDrainRequest =
  post_NodeName :: "string option"
  post_presence :: bool

definition PostDrainRequest_Build :: "string option \<Rightarrow> PostDrainRequest" where
  "PostDrainRequest_Build b =
     (case b of
        None \<Rightarrow> \<lparr>post_NodeName = None, post_presence = False\<rparr>
      | Some v \<Rightarrow> \<lparr>post_NodeName = Some v, post_presence = True\<rparr>)"

definition PostDrainRequest_GetNodeName :: "PostDrainRequest option \<Rightarrow> string" where
  "PostDrainRequest_GetNodeName x = (case x of
       Some m \<Rightarrow> (case post_NodeName m of Some v \<Rightarrow> v | None \<Rightarrow> '''')
     | None \<Rightarrow> '''')"

section \<open>Getters after builders\<close>

named_theorems proto_simps "a getter returns what the builder was given"

lemma GetId_Build [proto_simps]:
  "GetId (Some (PluginInfoResponse_Build i f)) = (case i of None \<Rightarrow> '''' | Some v \<Rightarrow> v)"
  by (simp add: GetId_def PluginInfoResponse_Build_def Let_def split: option.split)

lemma GetConfigFormat_Build [proto_simps]:
  "GetConfigFormat (Some (PluginInfoResponse_Build i f)) =
     (case f of None \<Rightarrow> CONFIG_FORMAT_UNSPECIFIED | Some v \<Rightarrow> v)"
  by (simp add: GetConfigFormat_def PluginInfoResponse_Build_def Let_def split: option.split)

lemma GetConfigBytes_Build [proto_simps]: "GetConfigBytes (Some (InitRequest_Build c)) = c"
  by (simp add: GetConfigBytes_def InitRequest_Build_def split: option.split)

lemma GetSupported_Build [proto_simps]: "GetSupported (Some (IsSupportedResponse_Build (Some b))) = b"
  by (simp add: GetSupported_def IsSupportedResponse_Build_def)

lemma GetHealthy_Build [proto_simps]: "GetHealthy (Some (IsHealthyResponse_Build (Some b))) = b"
  by (simp add: GetHealthy_def IsHealthyResponse_Build_def)

lemma GetOk_Build [proto_simps]: "GetOk (Some (IsDrainOkResponse_Build (Some b))) = b"
  by (simp add: GetOk_def IsDrainOkResponse_Build_def)

lemma GetNodeName_Build [proto_simps]:
  "IsDrainOkRequest_GetNodeName (Some (IsDrainOkRequest_Build (Some n))) = n"
  "PreDrainRequest_GetNodeName (Some (PreDrainRequest_Build (Some n))) = n"
  "PostDrainRequest_GetNodeName (Some (PostDrainRequest_Build (Some n))) = n"
  by (simp_all add: IsDrainOkRequest_GetNodeName_def IsDrainOkRequest_Build_def
      PreDrainRequest_GetNodeName_def PreDrainRequest_Build_def
      PostDrainRequest_GetNodeName_def PostDrainRequest_Build_def)

section \<open>Setters, presence and clearing\<close>

text \<open>The methods on a message that is not nil; \<open>Has\<close> may be asked of nil. A slice of bytes set to nil is stored as empty.\<close>

definition SetId :: "PluginInfoResponse \<Rightarrow> string \<Rightarrow> PluginInfoResponse" where
  "SetId x v = x\<lparr>pir_Id := Some v, pir_presence_Id := True\<rparr>"
definition HasId :: "PluginInfoResponse option \<Rightarrow> bool" where
  "HasId x = (case x of None \<Rightarrow> False | Some m \<Rightarrow> pir_presence_Id m)"
definition ClearId :: "PluginInfoResponse \<Rightarrow> PluginInfoResponse" where
  "ClearId x = x\<lparr>pir_presence_Id := False, pir_Id := None\<rparr>"

definition SetConfigFormat :: "PluginInfoResponse \<Rightarrow> ConfigFormat \<Rightarrow> PluginInfoResponse" where
  "SetConfigFormat x v = x\<lparr>pir_ConfigFormat := v, pir_presence_ConfigFormat := True\<rparr>"
definition HasConfigFormat :: "PluginInfoResponse option \<Rightarrow> bool" where
  "HasConfigFormat x = (case x of None \<Rightarrow> False | Some m \<Rightarrow> pir_presence_ConfigFormat m)"
definition ClearConfigFormat :: "PluginInfoResponse \<Rightarrow> PluginInfoResponse" where
  "ClearConfigFormat x = x\<lparr>pir_presence_ConfigFormat := False, pir_ConfigFormat := CONFIG_FORMAT_UNSPECIFIED\<rparr>"

definition SetConfig :: "InitRequest \<Rightarrow> string option \<Rightarrow> InitRequest" where
  "SetConfig x v = x\<lparr>ir_Config := Some (case v of None \<Rightarrow> [] | Some b \<Rightarrow> b), ir_presence_Config := True\<rparr>"
definition HasConfig :: "InitRequest option \<Rightarrow> bool" where
  "HasConfig x = (case x of None \<Rightarrow> False | Some m \<Rightarrow> ir_presence_Config m)"
definition ClearConfig :: "InitRequest \<Rightarrow> InitRequest" where
  "ClearConfig x = x\<lparr>ir_presence_Config := False, ir_Config := None\<rparr>"

definition SetSupported :: "IsSupportedResponse \<Rightarrow> bool \<Rightarrow> IsSupportedResponse" where
  "SetSupported x v = x\<lparr>isr_Supported := v, isr_presence := True\<rparr>"
definition HasSupported :: "IsSupportedResponse option \<Rightarrow> bool" where
  "HasSupported x = (case x of None \<Rightarrow> False | Some m \<Rightarrow> isr_presence m)"
definition ClearSupported :: "IsSupportedResponse \<Rightarrow> IsSupportedResponse" where
  "ClearSupported x = x\<lparr>isr_presence := False, isr_Supported := False\<rparr>"

definition SetHealthy :: "IsHealthyResponse \<Rightarrow> bool \<Rightarrow> IsHealthyResponse" where
  "SetHealthy x v = x\<lparr>ihr_Healthy := v, ihr_presence := True\<rparr>"
definition HasHealthy :: "IsHealthyResponse option \<Rightarrow> bool" where
  "HasHealthy x = (case x of None \<Rightarrow> False | Some m \<Rightarrow> ihr_presence m)"
definition ClearHealthy :: "IsHealthyResponse \<Rightarrow> IsHealthyResponse" where
  "ClearHealthy x = x\<lparr>ihr_presence := False, ihr_Healthy := False\<rparr>"

definition SetOk :: "IsDrainOkResponse \<Rightarrow> bool \<Rightarrow> IsDrainOkResponse" where
  "SetOk x v = x\<lparr>ido_Ok := v, ido_presence := True\<rparr>"
definition HasOk :: "IsDrainOkResponse option \<Rightarrow> bool" where
  "HasOk x = (case x of None \<Rightarrow> False | Some m \<Rightarrow> ido_presence m)"
definition ClearOk :: "IsDrainOkResponse \<Rightarrow> IsDrainOkResponse" where
  "ClearOk x = x\<lparr>ido_presence := False, ido_Ok := False\<rparr>"

definition IsDrainOkRequest_SetNodeName :: "IsDrainOkRequest \<Rightarrow> string \<Rightarrow> IsDrainOkRequest" where
  "IsDrainOkRequest_SetNodeName x v = x\<lparr>idr_NodeName := Some v, idr_presence := True\<rparr>"
definition IsDrainOkRequest_HasNodeName :: "IsDrainOkRequest option \<Rightarrow> bool" where
  "IsDrainOkRequest_HasNodeName x = (case x of None \<Rightarrow> False | Some m \<Rightarrow> idr_presence m)"
definition IsDrainOkRequest_ClearNodeName :: "IsDrainOkRequest \<Rightarrow> IsDrainOkRequest" where
  "IsDrainOkRequest_ClearNodeName x = x\<lparr>idr_presence := False, idr_NodeName := None\<rparr>"

definition PreDrainRequest_SetNodeName :: "PreDrainRequest \<Rightarrow> string \<Rightarrow> PreDrainRequest" where
  "PreDrainRequest_SetNodeName x v = x\<lparr>pre_NodeName := Some v, pre_presence := True\<rparr>"
definition PreDrainRequest_HasNodeName :: "PreDrainRequest option \<Rightarrow> bool" where
  "PreDrainRequest_HasNodeName x = (case x of None \<Rightarrow> False | Some m \<Rightarrow> pre_presence m)"
definition PreDrainRequest_ClearNodeName :: "PreDrainRequest \<Rightarrow> PreDrainRequest" where
  "PreDrainRequest_ClearNodeName x = x\<lparr>pre_presence := False, pre_NodeName := None\<rparr>"

definition PostDrainRequest_SetNodeName :: "PostDrainRequest \<Rightarrow> string \<Rightarrow> PostDrainRequest" where
  "PostDrainRequest_SetNodeName x v = x\<lparr>post_NodeName := Some v, post_presence := True\<rparr>"
definition PostDrainRequest_HasNodeName :: "PostDrainRequest option \<Rightarrow> bool" where
  "PostDrainRequest_HasNodeName x = (case x of None \<Rightarrow> False | Some m \<Rightarrow> post_presence m)"
definition PostDrainRequest_ClearNodeName :: "PostDrainRequest \<Rightarrow> PostDrainRequest" where
  "PostDrainRequest_ClearNodeName x = x\<lparr>post_presence := False, post_NodeName := None\<rparr>"

lemmas accessor_defs =
  SetId_def HasId_def ClearId_def GetId_def
  SetConfigFormat_def HasConfigFormat_def ClearConfigFormat_def GetConfigFormat_def
  SetConfig_def HasConfig_def ClearConfig_def GetConfigBytes_def
  SetSupported_def HasSupported_def ClearSupported_def GetSupported_def
  SetHealthy_def HasHealthy_def ClearHealthy_def GetHealthy_def
  SetOk_def HasOk_def ClearOk_def GetOk_def
  IsDrainOkRequest_SetNodeName_def IsDrainOkRequest_HasNodeName_def IsDrainOkRequest_ClearNodeName_def IsDrainOkRequest_GetNodeName_def
  PreDrainRequest_SetNodeName_def PreDrainRequest_HasNodeName_def PreDrainRequest_ClearNodeName_def PreDrainRequest_GetNodeName_def
  PostDrainRequest_SetNodeName_def PostDrainRequest_HasNodeName_def PostDrainRequest_ClearNodeName_def PostDrainRequest_GetNodeName_def

text \<open>
  What a field with presence promises: after \<open>Set\<close> it is present and reads as the value that was set, after \<open>Clear\<close>
  and on nil it is absent and reads as the default.
\<close>

locale presence_field =
  fixes fset :: "'m \<Rightarrow> 'v \<Rightarrow> 'm" and fget :: "'m option \<Rightarrow> 'g" and fhas :: "'m option \<Rightarrow> bool" and fclear :: "'m \<Rightarrow> 'm"
    and seen :: "'v \<Rightarrow> 'g" and absent :: 'g
  assumes get_set: "fget (Some (fset m v)) = seen v" and has_set: "fhas (Some (fset m v))"
    and get_clear: "fget (Some (fclear m)) = absent" and has_clear: "\<not> fhas (Some (fclear m))"
    and get_nil: "fget None = absent" and has_nil: "\<not> fhas None"
begin

text \<open>After any series of settings and clearings the field shows the last of them.\<close>

lemma last_update:
  assumes "us \<noteq> []"
  shows "fget (Some (fold (\<lambda>u m. case u of None \<Rightarrow> fclear m | Some v \<Rightarrow> fset m v) us m)) =
      (case last us of None \<Rightarrow> absent | Some v \<Rightarrow> seen v)"
    and "fhas (Some (fold (\<lambda>u m. case u of None \<Rightarrow> fclear m | Some v \<Rightarrow> fset m v) us m)) \<longleftrightarrow> last us \<noteq> None"
  using assms by (cases us rule: rev_cases; cases "last us"; simp add: get_set has_set get_clear has_clear)+

end

interpretation pluginInfoResponseId: presence_field SetId GetId HasId ClearId id "''''"
  by unfold_locales (simp_all add: accessor_defs)

interpretation pluginInfoResponseConfigFormat: presence_field SetConfigFormat GetConfigFormat HasConfigFormat ClearConfigFormat id CONFIG_FORMAT_UNSPECIFIED
  by unfold_locales (simp_all add: accessor_defs)

interpretation initRequestConfig: presence_field SetConfig GetConfigBytes HasConfig ClearConfig
  "\<lambda>v. Some (case v of None \<Rightarrow> [] | Some b \<Rightarrow> b)" None
  by unfold_locales (simp_all add: accessor_defs)

interpretation isSupportedResponseSupported: presence_field SetSupported GetSupported HasSupported ClearSupported id False
  by unfold_locales (simp_all add: accessor_defs)

interpretation isHealthyResponseHealthy: presence_field SetHealthy GetHealthy HasHealthy ClearHealthy id False
  by unfold_locales (simp_all add: accessor_defs)

interpretation isDrainOkResponseOk: presence_field SetOk GetOk HasOk ClearOk id False
  by unfold_locales (simp_all add: accessor_defs)

interpretation isDrainOkRequestNodeName: presence_field IsDrainOkRequest_SetNodeName IsDrainOkRequest_GetNodeName IsDrainOkRequest_HasNodeName IsDrainOkRequest_ClearNodeName id "''''"
  by unfold_locales (simp_all add: accessor_defs)

interpretation preDrainRequestNodeName: presence_field PreDrainRequest_SetNodeName PreDrainRequest_GetNodeName PreDrainRequest_HasNodeName PreDrainRequest_ClearNodeName id "''''"
  by unfold_locales (simp_all add: accessor_defs)

interpretation postDrainRequestNodeName: presence_field PostDrainRequest_SetNodeName PostDrainRequest_GetNodeName PostDrainRequest_HasNodeName PostDrainRequest_ClearNodeName id "''''"
  by unfold_locales (simp_all add: accessor_defs)

text \<open>A builder sets the fields it is given on an empty message.\<close>

lemma Build_by_setters:
  "PluginInfoResponse_Build (Some i) (Some f) = SetConfigFormat (SetId (PluginInfoResponse_Build None None) i) f"
  "InitRequest_Build (Some b) = SetConfig (InitRequest_Build None) (Some b)"
  "IsSupportedResponse_Build (Some v) = SetSupported (IsSupportedResponse_Build None) v"
  "IsHealthyResponse_Build (Some v) = SetHealthy (IsHealthyResponse_Build None) v"
  "IsDrainOkResponse_Build (Some v) = SetOk (IsDrainOkResponse_Build None) v"
  "IsDrainOkRequest_Build (Some n) = IsDrainOkRequest_SetNodeName (IsDrainOkRequest_Build None) n"
  "PreDrainRequest_Build (Some n) = PreDrainRequest_SetNodeName (PreDrainRequest_Build None) n"
  "PostDrainRequest_Build (Some n) = PostDrainRequest_SetNodeName (PostDrainRequest_Build None) n"
  by (simp_all add: accessor_defs PluginInfoResponse_Build_def InitRequest_Build_def IsSupportedResponse_Build_def
      IsHealthyResponse_Build_def IsDrainOkResponse_Build_def IsDrainOkRequest_Build_def PreDrainRequest_Build_def
      PostDrainRequest_Build_def)

text \<open>The number and the name of a configuration format, as the generated maps have them.\<close>

fun ConfigFormat_Number :: "ConfigFormat \<Rightarrow> int" where
  "ConfigFormat_Number CONFIG_FORMAT_UNSPECIFIED = 0"
| "ConfigFormat_Number CONFIG_FORMAT_YAML = 1"
| "ConfigFormat_Number CONFIG_FORMAT_JSON = 2"
| "ConfigFormat_Number (CONFIG_FORMAT_OTHER n) = n"

definition ConfigFormat_name :: "(int \<times> string) list" where
  "ConfigFormat_name = [(0, ''CONFIG_FORMAT_UNSPECIFIED''), (1, ''CONFIG_FORMAT_YAML''), (2, ''CONFIG_FORMAT_JSON'')]"

definition ConfigFormat_value :: "(string \<times> int) list" where
  "ConfigFormat_value = [(''CONFIG_FORMAT_UNSPECIFIED'', 0), (''CONFIG_FORMAT_YAML'', 1), (''CONFIG_FORMAT_JSON'', 2)]"

lemma ConfigFormat_names: "map_of ConfigFormat_name n = Some s \<longleftrightarrow> map_of ConfigFormat_value s = Some n"
  by (auto simp: ConfigFormat_name_def ConfigFormat_value_def split: if_splits)

end
