(* ===== verification/Config.thy ===== *)
theory Config
  imports Go_Strings Plugin_Proto
begin

text \<open>
  Configuration, \<open>src/internal/config/config.go\<close>. The configuration library (koanf, with its
  parsers and providers) and the parser of resource quantities are not part of the repository: they
  are the parameters \<open>K\<close> and \<open>parseQuantity\<close> of the definitions. The type \<open>'k\<close> is the state of a
  koanf instance. The file system is the parameter \<open>F\<close>.
\<close>

section \<open>Data\<close>

record Logger =
  lgLevel :: string

record LogConfig =
  lcLevel :: string
  lcFormat :: string
  lcLoggers :: "(string \<times> Logger) list"

record ResourceList =
  rlMemory :: string
  rlCPU :: string

record ContainerResources =
  crRequests :: ResourceList
  crLimits :: ResourceList

record PodConfig =
  pcPriorityClassName :: string
  pcContainerResources :: ContainerResources

record Config =
  cfLog :: LogConfig
  cfRebootCheckInterval :: int
  cfPod :: PodConfig
  cfContainerNode :: bool

text \<open>
  Of \<open>k8s.io/api\<close>: a resource list is a map from resource names to quantities, nil when absent. A
  quantity is opaque: what the parameter \<open>parseQuantity\<close> returns.
\<close>

type_synonym Quantity = string

record ResourceRequirements =
  rrRequests :: "(string \<times> Quantity) list option"
  rrLimits :: "(string \<times> Quantity) list option"

section \<open>Resources\<close>

definition MustParse :: "(string \<Rightarrow> gerror + Quantity) \<Rightarrow> string \<Rightarrow> Quantity res" where
  "MustParse parseQuantity s =
     (case parseQuantity s of Inr q \<Rightarrow> Ok q | Inl e \<Rightarrow> Panic (''cannot parse '' @ s @ '': '' @ Error e))"

definition toKubernetes ::
  "(string \<Rightarrow> gerror + Quantity) \<Rightarrow> ResourceList \<Rightarrow> (string \<times> Quantity) list option res" where
  "toKubernetes parseQuantity c =
     (if rlCPU c \<noteq> '''' \<and> rlMemory c \<noteq> '''' then
        (case (if rlCPU c \<noteq> '''' then map_res (\<lambda>q. [(''cpu'', q)]) (MustParse parseQuantity (rlCPU c))
               else Ok []) of
           Ok list \<Rightarrow>
             (if rlMemory c \<noteq> ''''
              then map_res (\<lambda>q. Some (list @ [(''memory'', q)])) (MustParse parseQuantity (rlMemory c))
              else Ok (Some list))
         | Err e \<Rightarrow> Err e
         | Panic p \<Rightarrow> Panic p)
      else Ok None)"

definition ToResourceRequirement ::
  "(string \<Rightarrow> gerror + Quantity) \<Rightarrow> ContainerResources \<Rightarrow> ResourceRequirements res" where
  "ToResourceRequirement parseQuantity c =
     (case toKubernetes parseQuantity (crRequests c) of
        Ok rq \<Rightarrow> map_res (\<lambda>lm. \<lparr>rrRequests = rq, rrLimits = lm\<rparr>)
                  (toKubernetes parseQuantity (crLimits c))
      | Err e \<Rightarrow> Err e
      | Panic p \<Rightarrow> Panic p)"

section \<open>Loggers\<close>

text \<open>\<open>Config.GetLogger\<close>; the package function of the same name is not modelled here.\<close>

definition Config_GetLogger :: "Config \<Rightarrow> string \<Rightarrow> Logger" where
  "Config_GetLogger c name =
     (case map_of (lcLoggers (cfLog c)) name of
        Some logger \<Rightarrow>
          (if lgLevel logger = '''' then logger\<lparr>lgLevel := lcLevel (cfLog c)\<rparr> else logger)
      | None \<Rightarrow> \<lparr>lgLevel = lcLevel (cfLog c)\<rparr>)"

section \<open>Loading\<close>

datatype env_value = EnvString string | EnvStrings "string list"

definition TransformFunc :: "string \<Rightarrow> string \<Rightarrow> string \<times> env_value" where
  "TransformFunc k v =
     (let k = ReplaceAll (ToLower (TrimPrefix k ''NODEDRAIN_'')) (CHR ''_'') (CHR ''.'')
      in if CHR '' '' \<in> set v then (k, EnvStrings (Split (CHR '' '') v)) else (k, EnvString v))"

record 'k koanf =
  kLoadEnv :: "string \<Rightarrow> (string \<Rightarrow> string \<Rightarrow> string \<times> env_value) \<Rightarrow> 'k \<Rightarrow> gerror + 'k"
  kLoadFile :: "string \<Rightarrow> 'k \<Rightarrow> gerror + 'k"
  kUnmarshal :: "'k \<Rightarrow> gerror + Config"
  kDuration :: "'k \<Rightarrow> string \<Rightarrow> int"
  kCut :: "'k \<Rightarrow> string \<Rightarrow> 'k"
  kMarshalJSON :: "'k \<Rightarrow> gerror + string"
  kMarshalYAML :: "'k \<Rightarrow> gerror + string"

datatype stat_result = StatNotExist | StatError gerror | StatFile | StatDir

record osfs =
  osStat :: "string \<Rightarrow> stat_result"
  osReadDir :: "string \<Rightarrow> gerror + string list"

definition configDir :: string where
  "configDir = ''/config''"

text \<open>The loop over the directory: a file that does not load is reported on stderr and skipped.\<close>

fun loadFiles :: "'k koanf \<Rightarrow> 'k \<Rightarrow> string list \<Rightarrow> 'k" where
  "loadFiles K k [] = k"
| "loadFiles K k (f # fs) =
     (if Ext f = ''.yaml'' \<or> Ext f = ''.yml'' then
        (case kLoadFile K (Join configDir f) k of
           Inl e \<Rightarrow> loadFiles K k fs
         | Inr k' \<Rightarrow> loadFiles K k' fs)
      else loadFiles K k fs)"

definition loadConfigFiles :: "'k koanf \<Rightarrow> osfs \<Rightarrow> 'k \<Rightarrow> gerror + 'k" where
  "loadConfigFiles K F k =
     (case osStat F configDir of
        StatNotExist \<Rightarrow> Inr k
      | StatError e \<Rightarrow> Inl (Errorf ''failed to get stat for /config: '' e)
      | StatFile \<Rightarrow> Inl (ErrorString ''config is not a directory'')
      | StatDir \<Rightarrow>
          (case osReadDir F configDir of
             Inl e \<Rightarrow> Inl (Errorf ''failed to read config directory: '' e)
           | Inr files \<Rightarrow> Inr (loadFiles K k (sort files))))"

text \<open>\<open>LoadConfig\<close> returns the new configuration and the state of the global koanf instance.\<close>

definition LoadConfig :: "'k koanf \<Rightarrow> osfs \<Rightarrow> 'k \<Rightarrow> gerror + Config \<times> 'k" where
  "LoadConfig K F k =
     (case kLoadEnv K ''NODEDRAIN_'' TransformFunc k of
        Inl e \<Rightarrow> Inl e
      | Inr k1 \<Rightarrow>
          (case loadConfigFiles K F k1 of
             Inl e \<Rightarrow> Inl e
           | Inr k2 \<Rightarrow>
               (case kUnmarshal K k2 of
                  Inl e \<Rightarrow> Inl (Errorf ''failed to unmarshal config: '' e)
                | Inr conf \<Rightarrow> Inr (conf, k2))))"

section \<open>Configuration of a plugin\<close>

definition GetPluginConfig ::
  "'k koanf \<Rightarrow> 'k \<Rightarrow> (ConfigFormat \<Rightarrow> string) \<Rightarrow> ConfigFormat \<Rightarrow> string \<Rightarrow> gerror + string" where
  "GetPluginConfig K k formatString format pluginId =
     (let pluginConfig = kCut K k (''plugins.'' @ pluginId)
      in case format of
           CONFIG_FORMAT_JSON \<Rightarrow> kMarshalJSON K pluginConfig
         | CONFIG_FORMAT_YAML \<Rightarrow> kMarshalYAML K pluginConfig
         | _ \<Rightarrow> Inl (ErrorString (''unknown format: '' @ formatString format)))"

section \<open>Properties\<close>

text \<open>Names of environment variables. A key that comes from the environment has neither capital letters
  nor underscores, so a setting with a capital letter in its name, such as \<open>reboot.checkInterval\<close> or
  \<open>containerNode\<close>, cannot be set that way. A value is split at blanks only, and nothing else is lost.\<close>

lemma env_keys:
  "case TransformFunc k v of (key, val) \<Rightarrow>
     (\<forall>c \<in> set key. \<not> is_upper c \<and> c \<noteq> CHR ''_'') \<and>
     key \<noteq> ''reboot.checkInterval'' \<and> key \<noteq> ''containerNode'' \<and>
     (case val of EnvString s \<Rightarrow> s = v \<and> CHR '' '' \<notin> set v | EnvStrings ss \<Rightarrow> join_with '' '' ss = v)"
proof -
  let ?key = "ReplaceAll (ToLower (TrimPrefix k ''NODEDRAIN_'')) (CHR ''_'') (CHR ''.'')"
  have key: "\<not> is_upper c \<and> c \<noteq> CHR ''_''" if "c \<in> set ?key" for c
    using that ToLower_not_upper by (auto simp: ReplaceAll_def is_upper_def split: if_splits)
  have "is_upper (CHR ''I'')" "is_upper (CHR ''N'')" by (simp_all add: is_upper_def)
  then have "?key \<noteq> ''reboot.checkInterval''" "?key \<noteq> ''containerNode''"
    using key [of "CHR ''I''"] key [of "CHR ''N''"] by auto
  with key show ?thesis by (simp add: TransformFunc_def Let_def join_Split)
qed

lemma env_keys_witness:
  "TransformFunc ''NODEDRAIN_LOG_LEVEL'' ''warn'' = (''log.level'', EnvString ''warn'') \<and>
   CHR ''_'' \<notin> set (fst (TransformFunc ''NODEDRAIN_LOG_LEVEL'' ''warn''))"
proof -
  have "TransformFunc ''NODEDRAIN_LOG_LEVEL'' ''warn'' = (''log.level'', EnvString ''warn'')" by code_simp
  with env_keys [of "''NODEDRAIN_LOG_LEVEL''" "''warn''"] show ?thesis by auto
qed

text \<open>Resources are all or nothing. A resource list is passed on exactly when both CPU and memory are set
  and both parse, and then it has exactly these two entries; with only one of them set it is silently
  dropped, and a quantity that does not parse panics.\<close>

lemma resource_list:
  "toKubernetes parse c =
     (if rlCPU c = '''' \<or> rlMemory c = '''' then Ok None
      else case (parse (rlCPU c), parse (rlMemory c)) of
             (Inr q, Inr m) \<Rightarrow> Ok (Some [(''cpu'', q), (''memory'', m)])
           | (Inl e, _) \<Rightarrow> Panic (''cannot parse '' @ rlCPU c @ '': '' @ Error e)
           | (_, Inl e) \<Rightarrow> Panic (''cannot parse '' @ rlMemory c @ '': '' @ Error e))"
  by (auto simp: toKubernetes_def MustParse_def split: sum.splits)

text \<open>The configuration files, as a fold over the YAML files: one that does not load changes nothing.\<close>

definition isYaml :: "string \<Rightarrow> bool" where
  "isYaml f \<longleftrightarrow> Ext f = ''.yaml'' \<or> Ext f = ''.yml''"

definition loadOne :: "'k koanf \<Rightarrow> 'k \<Rightarrow> string \<Rightarrow> 'k" where
  "loadOne K k f = (case kLoadFile K (Join configDir f) k of Inl _ \<Rightarrow> k | Inr k' \<Rightarrow> k')"

lemma loadFiles_fold: "loadFiles K k fs = foldl (loadOne K) k (filter isYaml fs)"
  by (induction fs arbitrary: k) (auto simp: isYaml_def loadOne_def split: sum.split)

text \<open>C32. The order of configuration. A successful load has read the environment first and then the YAML files
  of the directory in the order of their names, each over the result so far, those that do not load left
  out; so files win over the environment, and the order in which the directory was listed does not matter.\<close>

theorem config_order:
  assumes "LoadConfig K F k = Inr (conf, k')" and "osStat F configDir = StatDir"
    and "osReadDir F configDir = Inr files" and "mset files' = mset files"
  shows "\<exists>k1. kLoadEnv K ''NODEDRAIN_'' TransformFunc k = Inr k1 \<and>
    k' = foldl (loadOne K) k1 (filter isYaml (sort files')) \<and> kUnmarshal K k' = Inr conf"
proof -
  have "sort files' = sort files" using assms(4) by (metis properties_for_sort mset_sort sorted_sort)
  with assms show ?thesis
    by (auto simp: LoadConfig_def loadConfigFiles_def loadFiles_fold split: sum.splits)
qed

text \<open>A koanf instance that records what was loaded, with a file that does not load.\<close>

definition emptyConfig :: Config where
  "emptyConfig = \<lparr>cfLog = \<lparr>lcLevel = ''info'', lcFormat = ''json'', lcLoggers = []\<rparr>, cfRebootCheckInterval = 0,
     cfPod = \<lparr>pcPriorityClassName = '''', pcContainerResources = \<lparr>crRequests = \<lparr>rlMemory = '''', rlCPU = ''''\<rparr>,
       crLimits = \<lparr>rlMemory = '''', rlCPU = ''''\<rparr>\<rparr>\<rparr>, cfContainerNode = False\<rparr>"

definition recordingKoanf :: "string list koanf" where
  "recordingKoanf = \<lparr>kLoadEnv = (\<lambda>p f k. Inr (k @ [p])),
     kLoadFile = (\<lambda>f k. if f = ''/config/b.yaml'' then Inl (ExtError ''syntax'') else Inr (k @ [f])),
     kUnmarshal = (\<lambda>k. Inr emptyConfig), kDuration = (\<lambda>k p. 0), kCut = (\<lambda>k p. k),
     kMarshalJSON = (\<lambda>k. Inr ''{}''), kMarshalYAML = (\<lambda>k. Inr ''{}'')\<rparr>"

definition threeFiles :: osfs where
  "threeFiles = \<lparr>osStat = (\<lambda>p. StatDir), osReadDir = (\<lambda>p. Inr [''c.yml'', ''README'', ''b.yaml'', ''a.yaml''])\<rparr>"

theorem config_order_witness:
  "LoadConfig recordingKoanf threeFiles [] = Inr (emptyConfig, [''NODEDRAIN_'', ''/config/a.yaml'', ''/config/c.yml'']) \<and>
   (\<exists>k1. kLoadEnv recordingKoanf ''NODEDRAIN_'' TransformFunc [] = Inr k1 \<and>
      [''NODEDRAIN_'', ''/config/a.yaml'', ''/config/c.yml''] =
        foldl (loadOne recordingKoanf) k1 (filter isYaml (sort [''a.yaml'', ''b.yaml'', ''c.yml'', ''README''])))"
proof -
  have s: "LoadConfig recordingKoanf threeFiles [] = Inr (emptyConfig, [''NODEDRAIN_'', ''/config/a.yaml'', ''/config/c.yml''])"
    by code_simp
  have f: "osStat threeFiles configDir = StatDir"
    "osReadDir threeFiles configDir = Inr [''c.yml'', ''README'', ''b.yaml'', ''a.yaml'']" by code_simp+
  have "mset [''a.yaml'', ''b.yaml'', ''c.yml'', ''README''] = mset [''c.yml'', ''README'', ''b.yaml'', ''a.yaml'']"
    by (simp add: add_mset_commute)
  from config_order [OF s f this] s show ?thesis by blast
qed

end
