(* ===== verification/Kube_Env.thy ===== *)
theory Kube_Env
  imports Node_Types Config Plugin_Proto
begin

text \<open>
  The boundary of the program: the objects of the Kubernetes API it handles, the events (one per
  interaction with code outside the repository, each with its answer), the environment that answers,
  and one primitive operation per interaction.

  Nothing is assumed about the environment: each field of \<open>env\<close> is a function of the history, so an
  environment may fail at any call, return stale objects, or change objects between calls. What a
  theorem needs of it is a named hypothesis.
\<close>

section \<open>Objects of the Kubernetes API\<close>

text \<open>Of the API types, the fields the repository reads or writes.\<close>

record ManagedFieldsEntry =
  mfManager :: string
  mfSubresource :: string
  mfFieldsV1 :: "string option"

record NodeCondition =
  ncType :: string
  ncStatus :: string

record KubeNode =
  kName :: string
  kUnschedulable :: bool
  kBootID :: string
  kConditions :: "NodeCondition list"
  kManagedFields :: "ManagedFieldsEntry list"

record VolumeMount =
  vmName :: string
  vmReadOnly :: bool
  vmMountPath :: string

record HostPathVolume =
  hvName :: string
  hvPath :: string
  hvType :: string

record SecurityContext =
  scAdd :: "string list"
  scAllowPrivilegeEscalation :: bool
  scPrivileged :: bool
  scReadOnlyRootFilesystem :: bool

record Container =
  cName :: string
  cImage :: string
  cCommand :: "string list"
  cVolumeMounts :: "VolumeMount list"
  cSecurityContext :: "SecurityContext option"
  cResources :: ResourceRequirements

record Toleration =
  tKey :: string
  tOperator :: string
  tEffect :: string

record PodSecurityContext =
  psRunAsUser :: "int option"
  psRunAsGroup :: "int option"
  psRunAsNonRoot :: "bool option"
  psAppArmorProfile :: "string option"

record PodSpec =
  pdVolumes :: "HostPathVolume list"
  pdContainers :: "Container list"
  pdRestartPolicy :: string
  pdTerminationGracePeriodSeconds :: "int option"
  pdNodeName :: string
  pdHostPID :: bool
  pdSecurityContext :: PodSecurityContext
  pdTolerations :: "Toleration list"
  pdPriorityClassName :: string

record Pod =
  pName :: string
  pGenerateName :: string
  pNamespace :: string
  pLabels :: "(string \<times> string) list"
  pSpec :: PodSpec
  pPhase :: string

record PodExecOptions =
  exCommand :: "string list"
  exStdin :: bool
  exStdout :: bool
  exStderr :: bool
  exTTY :: bool

record ListOptions =
  loLabelSelector :: string
  loFieldSelector :: string

text \<open>The options of \<open>drain.Helper\<close> of kubectl that the controller sets; durations in nanoseconds.\<close>

record DrainHelper =
  dhGracePeriodSeconds :: int
  dhIgnoreAllDaemonSets :: bool
  dhTimeout :: int
  dhDeleteEmptyDirData :: bool

datatype event_type = EventTypeNormal | EventTypeWarning

text \<open>A connection to a plugin process, and what \<open>Dispense\<close> can return.\<close>

type_synonym conn = string

datatype dispensed = DispensedDrainClient conn | DispensedOther string

text \<open>A decoded JSON value, as \<open>json.Unmarshal\<close> leaves it in an \<open>interface{}\<close>.\<close>

datatype json =
    JNull | JBool bool | JNumber string | JString string | JArray "json list"
  | JObject "(string \<times> json) list"

section \<open>Events\<close>

datatype event =
    EvGetKubeNode string "gerror + KubeNode"
  | EvGetNode string "gerror + Node"
  | EvListNodes "gerror + Node list"
  | EvCreateNode Node "gerror + Node"
  | EvUpdateNode Node "gerror + Node"
  | EvPatchNode Node Node "gerror + Node"
  | EvPatchStatus Node Node "gerror + Node"
  | EvPatchKubeNode KubeNode KubeNode "gerror + KubeNode"
  | EvListKubeNodes "gerror + KubeNode list"
  | EvGetClusterNode string "gerror + KubeNode"
  | EvCreatePod Pod "gerror + Pod"
  | EvGetPod string string "gerror + Pod"
  | EvDeletePod string string "gerror + unit"
  | EvDeletePodForeground string string "gerror + unit"
  | EvDeletePods string ListOptions "gerror + unit"
  | EvNewExecutor string string PodExecOptions "gerror + unit"
  | EvStream string string PodExecOptions "gerror + unit"
  | EvNewClientset "gerror + unit"
  | EvRunNodeDrain DrainHelper string "gerror + unit"
  | EvNow int
  | EvHostname "gerror + string"
  | EvRecord string event_type string string
  | EvStat string stat_result
  | EvReadDir string "gerror + (string \<times> bool) list"
  | EvPluginClient string "gerror + conn"
  | EvPing conn "gerror + unit"
  | EvDispense conn string "gerror + dispensed"
  | EvPluginInfo conn "gerror + PluginInfoResponse"
  | EvInit conn InitRequest "gerror + unit"
  | EvIsSupported conn "gerror + IsSupportedResponse"
  | EvIsHealthy conn "gerror + IsHealthyResponse"
  | EvIsDrainOk conn IsDrainOkRequest "gerror + IsDrainOkResponse"
  | EvPreDrain conn PreDrainRequest "gerror + unit"
  | EvPostDrain conn PostDrainRequest "gerror + unit"

type_synonym history = "event list"
type_synonym 'a op = "(event, 'a) go"

section \<open>The environment\<close>

text \<open>
  The fields, in order: the controller-runtime client; the client set of client-go; the exec
  executor; kubectl's drain; the clock and the host; the files under the plugin directory; go-plugin
  and the gRPC connection; then the pure helpers of the libraries, the loaded configuration and
  \<open>wait.PollUntilContextTimeout\<close>, which runs the condition it is given. \<open>eMapOrder\<close> picks the order
  of an iteration over a Go map. \<open>eErrPod\<close> is the pointer that a failed \<open>Get\<close> of a pod returns beside
  its error.
\<close>

record env =
  eGetKubeNode :: "history \<Rightarrow> string \<Rightarrow> gerror + KubeNode"
  eGetNode :: "history \<Rightarrow> string \<Rightarrow> gerror + Node"
  eListNodes :: "history \<Rightarrow> gerror + Node list"
  eCreateNode :: "history \<Rightarrow> Node \<Rightarrow> gerror + Node"
  eUpdateNode :: "history \<Rightarrow> Node \<Rightarrow> gerror + Node"
  ePatchNode :: "history \<Rightarrow> Node \<Rightarrow> Node \<Rightarrow> gerror + Node"
  ePatchStatus :: "history \<Rightarrow> Node \<Rightarrow> Node \<Rightarrow> gerror + Node"
  ePatchKubeNode :: "history \<Rightarrow> KubeNode \<Rightarrow> KubeNode \<Rightarrow> gerror + KubeNode"
  eListKubeNodes :: "history \<Rightarrow> gerror + KubeNode list"
  eGetClusterNode :: "history \<Rightarrow> string \<Rightarrow> gerror + KubeNode"
  eCreatePod :: "history \<Rightarrow> Pod \<Rightarrow> gerror + Pod"
  eGetPod :: "history \<Rightarrow> string \<Rightarrow> string \<Rightarrow> gerror + Pod"
  eDeletePod :: "history \<Rightarrow> string \<Rightarrow> string \<Rightarrow> gerror + unit"
  eDeletePodForeground :: "history \<Rightarrow> string \<Rightarrow> string \<Rightarrow> gerror + unit"
  eDeletePods :: "history \<Rightarrow> string \<Rightarrow> ListOptions \<Rightarrow> gerror + unit"
  eNewExecutor :: "history \<Rightarrow> string \<Rightarrow> string \<Rightarrow> PodExecOptions \<Rightarrow> gerror + unit"
  eStream :: "history \<Rightarrow> string \<Rightarrow> string \<Rightarrow> PodExecOptions \<Rightarrow> gerror + unit"
  eNewClientset :: "history \<Rightarrow> gerror + unit"
  eRunNodeDrain :: "history \<Rightarrow> DrainHelper \<Rightarrow> string \<Rightarrow> gerror + unit"
  eNow :: "history \<Rightarrow> int"
  eHostname :: "history \<Rightarrow> gerror + string"
  eStat :: "history \<Rightarrow> string \<Rightarrow> stat_result"
  eReadDir :: "history \<Rightarrow> string \<Rightarrow> gerror + (string \<times> bool) list"
  ePluginClient :: "history \<Rightarrow> string \<Rightarrow> gerror + conn"
  ePing :: "history \<Rightarrow> conn \<Rightarrow> gerror + unit"
  eDispense :: "history \<Rightarrow> conn \<Rightarrow> string \<Rightarrow> gerror + dispensed"
  ePluginInfo :: "history \<Rightarrow> conn \<Rightarrow> gerror + PluginInfoResponse"
  eInit :: "history \<Rightarrow> conn \<Rightarrow> InitRequest \<Rightarrow> gerror + unit"
  eIsSupported :: "history \<Rightarrow> conn \<Rightarrow> gerror + IsSupportedResponse"
  eIsHealthy :: "history \<Rightarrow> conn \<Rightarrow> gerror + IsHealthyResponse"
  eIsDrainOk :: "history \<Rightarrow> conn \<Rightarrow> IsDrainOkRequest \<Rightarrow> gerror + IsDrainOkResponse"
  ePreDrain :: "history \<Rightarrow> conn \<Rightarrow> PreDrainRequest \<Rightarrow> gerror + unit"
  ePostDrain :: "history \<Rightarrow> conn \<Rightarrow> PostDrainRequest \<Rightarrow> gerror + unit"
  eMapOrder :: "history \<Rightarrow> nat list"
  eIsNotFound :: "gerror \<Rightarrow> bool"
  eContainsFinalizer :: "Node \<Rightarrow> string \<Rightarrow> bool"
  eRemoveFinalizer :: "Node \<Rightarrow> string \<Rightarrow> Node"
  eAddFinalizer :: "Node \<Rightarrow> string \<Rightarrow> Node"
  eSetOwnerReference :: "KubeNode \<Rightarrow> Node \<Rightarrow> gerror + Node"
  eUnmarshal :: "string \<Rightarrow> gerror + json"
  eInRequirement :: "string \<Rightarrow> string list \<Rightarrow> gerror + string"
  eParseQuantity :: "string \<Rightarrow> gerror + Quantity"
  eFormatString :: "ConfigFormat \<Rightarrow> string"
  eConfig :: Config
  eKoanf :: "string koanf"
  eKoanfState :: string
  eErrPod :: "Pod option"
  ePoll :: "int \<Rightarrow> int \<Rightarrow> bool \<Rightarrow> bool op \<Rightarrow> history \<Rightarrow> (gerror + unit) \<times> history"

section \<open>Primitive operations\<close>

definition getKubeNode :: "env \<Rightarrow> string \<Rightarrow> KubeNode op" where
  "getKubeNode E n = call (\<lambda>h. eGetKubeNode E h n) (EvGetKubeNode n)"
definition getNode :: "env \<Rightarrow> string \<Rightarrow> Node op" where
  "getNode E n = call (\<lambda>h. eGetNode E h n) (EvGetNode n)"
definition listNodes :: "env \<Rightarrow> Node list op" where
  "listNodes E = call (eListNodes E) EvListNodes"
definition createNode :: "env \<Rightarrow> Node \<Rightarrow> Node op" where
  "createNode E x = call (\<lambda>h. eCreateNode E h x) (EvCreateNode x)"
definition updateNode :: "env \<Rightarrow> Node \<Rightarrow> Node op" where
  "updateNode E x = call (\<lambda>h. eUpdateNode E h x) (EvUpdateNode x)"
definition patchNode :: "env \<Rightarrow> Node \<Rightarrow> Node \<Rightarrow> Node op" where
  "patchNode E old new = call (\<lambda>h. ePatchNode E h old new) (EvPatchNode old new)"
definition patchStatus :: "env \<Rightarrow> Node \<Rightarrow> Node \<Rightarrow> Node op" where
  "patchStatus E old new = call (\<lambda>h. ePatchStatus E h old new) (EvPatchStatus old new)"
definition patchKubeNode :: "env \<Rightarrow> KubeNode \<Rightarrow> KubeNode \<Rightarrow> KubeNode op" where
  "patchKubeNode E old new = call (\<lambda>h. ePatchKubeNode E h old new) (EvPatchKubeNode old new)"
definition listKubeNodes :: "env \<Rightarrow> KubeNode list op" where
  "listKubeNodes E = call (eListKubeNodes E) EvListKubeNodes"
definition getClusterNode :: "env \<Rightarrow> string \<Rightarrow> KubeNode op" where
  "getClusterNode E n = call (\<lambda>h. eGetClusterNode E h n) (EvGetClusterNode n)"
definition createPod :: "env \<Rightarrow> Pod \<Rightarrow> Pod op" where
  "createPod E x = call (\<lambda>h. eCreatePod E h x) (EvCreatePod x)"
definition getPod :: "env \<Rightarrow> string \<Rightarrow> string \<Rightarrow> Pod op" where
  "getPod E ns n = call (\<lambda>h. eGetPod E h ns n) (EvGetPod ns n)"
definition deletePod :: "env \<Rightarrow> string \<Rightarrow> string \<Rightarrow> unit op" where
  "deletePod E ns n = call (\<lambda>h. eDeletePod E h ns n) (EvDeletePod ns n)"
definition deletePodForeground :: "env \<Rightarrow> string \<Rightarrow> string \<Rightarrow> unit op" where
  "deletePodForeground E ns n = call (\<lambda>h. eDeletePodForeground E h ns n) (EvDeletePodForeground ns n)"
definition deletePods :: "env \<Rightarrow> string \<Rightarrow> ListOptions \<Rightarrow> unit op" where
  "deletePods E ns lo = call (\<lambda>h. eDeletePods E h ns lo) (EvDeletePods ns lo)"
definition newExecutor :: "env \<Rightarrow> string \<Rightarrow> string \<Rightarrow> PodExecOptions \<Rightarrow> unit op" where
  "newExecutor E ns n opt = call (\<lambda>h. eNewExecutor E h ns n opt) (EvNewExecutor ns n opt)"
definition stream :: "env \<Rightarrow> string \<Rightarrow> string \<Rightarrow> PodExecOptions \<Rightarrow> unit op" where
  "stream E ns n opt = call (\<lambda>h. eStream E h ns n opt) (EvStream ns n opt)"
definition newClientset :: "env \<Rightarrow> unit op" where
  "newClientset E = call (eNewClientset E) EvNewClientset"
definition runNodeDrain :: "env \<Rightarrow> DrainHelper \<Rightarrow> string \<Rightarrow> unit op" where
  "runNodeDrain E dh n = call (\<lambda>h. eRunNodeDrain E h dh n) (EvRunNodeDrain dh n)"
definition now :: "env \<Rightarrow> int op" where
  "now E = ask (eNow E) EvNow"
definition hostname :: "env \<Rightarrow> string op" where
  "hostname E = call (eHostname E) EvHostname"
definition eventf :: "string \<Rightarrow> event_type \<Rightarrow> string \<Rightarrow> string \<Rightarrow> unit op" where
  "eventf obj ty reason msg = emit (EvRecord obj ty reason msg)"
definition stat :: "env \<Rightarrow> string \<Rightarrow> stat_result op" where
  "stat E p = ask (\<lambda>h. eStat E h p) (EvStat p)"
definition readDir :: "env \<Rightarrow> string \<Rightarrow> (string \<times> bool) list op" where
  "readDir E p = call (\<lambda>h. eReadDir E h p) (EvReadDir p)"
definition pluginClient :: "env \<Rightarrow> string \<Rightarrow> conn op" where
  "pluginClient E p = call (\<lambda>h. ePluginClient E h p) (EvPluginClient p)"
definition ping :: "env \<Rightarrow> conn \<Rightarrow> unit op" where
  "ping E c = call (\<lambda>h. ePing E h c) (EvPing c)"
definition dispense :: "env \<Rightarrow> conn \<Rightarrow> string \<Rightarrow> dispensed op" where
  "dispense E c n = call (\<lambda>h. eDispense E h c n) (EvDispense c n)"
definition invokePluginInfo :: "env \<Rightarrow> conn \<Rightarrow> PluginInfoResponse op" where
  "invokePluginInfo E c = call (\<lambda>h. ePluginInfo E h c) (EvPluginInfo c)"
definition invokeInit :: "env \<Rightarrow> conn \<Rightarrow> InitRequest \<Rightarrow> unit op" where
  "invokeInit E c rq = call (\<lambda>h. eInit E h c rq) (EvInit c rq)"
definition invokeIsSupported :: "env \<Rightarrow> conn \<Rightarrow> IsSupportedResponse op" where
  "invokeIsSupported E c = call (\<lambda>h. eIsSupported E h c) (EvIsSupported c)"
definition invokeIsHealthy :: "env \<Rightarrow> conn \<Rightarrow> IsHealthyResponse op" where
  "invokeIsHealthy E c = call (\<lambda>h. eIsHealthy E h c) (EvIsHealthy c)"
definition invokeIsDrainOk :: "env \<Rightarrow> conn \<Rightarrow> IsDrainOkRequest \<Rightarrow> IsDrainOkResponse op" where
  "invokeIsDrainOk E c rq = call (\<lambda>h. eIsDrainOk E h c rq) (EvIsDrainOk c rq)"
definition invokePreDrain :: "env \<Rightarrow> conn \<Rightarrow> PreDrainRequest \<Rightarrow> unit op" where
  "invokePreDrain E c rq = call (\<lambda>h. ePreDrain E h c rq) (EvPreDrain c rq)"
definition invokePostDrain :: "env \<Rightarrow> conn \<Rightarrow> PostDrainRequest \<Rightarrow> unit op" where
  "invokePostDrain E c rq = call (\<lambda>h. ePostDrain E h c rq) (EvPostDrain c rq)"

lemmas primitive_defs =
  getKubeNode_def getNode_def listNodes_def createNode_def updateNode_def patchNode_def
  patchStatus_def patchKubeNode_def listKubeNodes_def getClusterNode_def createPod_def getPod_def
  deletePod_def deletePodForeground_def deletePods_def newExecutor_def stream_def newClientset_def
  runNodeDrain_def now_def hostname_def eventf_def stat_def readDir_def pluginClient_def ping_def
  dispense_def invokePluginInfo_def invokeInit_def invokeIsSupported_def invokeIsHealthy_def
  invokeIsDrainOk_def invokePreDrain_def invokePostDrain_def

text \<open>\<open>range\<close> over a map: the entries in the order the runtime picks.\<close>

definition range_map :: "env \<Rightarrow> ('k \<times> 'v) list \<Rightarrow> ('k \<times> 'v) list op" where
  "range_map E m = (\<lambda>h. (Ok (shuffle (eMapOrder E h) m), []))"

lemma wp_range_map [wp_simps]: "wp (range_map E m) Q h = Q (Ok (shuffle (eMapOrder E h) m)) []"
  by (simp add: wp_def range_map_def result_def emitted_def)

lemma only_range_map [only_rules]: "only P (range_map E m)"
  by (simp add: only_def range_map_def emitted_def)

text \<open>\<open>time.Now()\<close> answers with the clock.\<close>

lemma wp_now [wp_simps]: "wp (now E) Q h = Q (Ok (eNow E h)) [EvNow (eNow E h)]"
  by (simp add: now_def wp_ask)

lemma wp_eventf [wp_simps]: "wp (eventf n ty r m) Q h = Q (Ok ()) [EvRecord n ty r m]"
  by (simp add: eventf_def wp_emit)

lemma result_range_map [simp]: "result (range_map E m) h = Ok (shuffle (eMapOrder E h) m)"
  by (simp add: range_map_def result_def)

lemma emitted_range_map [simp]: "emitted (range_map E m) h = []"
  by (simp add: range_map_def emitted_def)

lemma run_eventf [simp]:
  "result (eventf n ty r m) h = Ok ()" "emitted (eventf n ty r m) h = [EvRecord n ty r m]"
  by (simp_all add: eventf_def)

text \<open>
  \<open>wait.PollUntilContextTimeout\<close> with an interval, a timeout, whether to start at once, and a
  condition. The one law about it that statements need: all it does to the outside is to run the
  condition, so its events are events of the condition.
\<close>

definition poll :: "env \<Rightarrow> int \<Rightarrow> int \<Rightarrow> bool \<Rightarrow> bool op \<Rightarrow> unit op" where
  "poll E interval timeout immediate c =
     (\<lambda>h. case ePoll E interval timeout immediate c h of (r, t) \<Rightarrow> (res_of r, t))"

definition polls_only :: "env \<Rightarrow> bool" where
  "polls_only E \<longleftrightarrow> (\<forall>P i t b c. only P c \<longrightarrow> only P (poll E i t b c))"

lemma only_poll: "polls_only E \<Longrightarrow> only P c \<Longrightarrow> only P (poll E i t b c)"
  by (simp add: polls_only_def)

lemma poll_no_panic: "result (poll E i t b c) h \<noteq> Panic p"
  by (simp add: poll_def result_def split: prod.split)

end
