(* ===== verification/Utils.thy ===== *)
theory Utils
  imports Kube_Env
begin

text \<open>
  The helpers of \<open>src/internal/utils/utils.go\<close>: the field owner, running a command in a pod, the
  two poll conditions on the phase of a pod and the lookup of a cluster node.
\<close>

definition LabelPrefix :: string where
  "LabelPrefix = ''nodedrain.k8s.slyng.dk''"

definition LabelComponent :: string where
  "LabelComponent = LabelPrefix @ ''/component''"

definition GetFieldOwner :: "string \<Rightarrow> string" where
  "GetFieldOwner managerNamespace = managerNamespace @ ''-manager''"

text \<open>\<open>stdin\<close> is nil or not; the buffers for stdout and stderr are only logged by the caller.\<close>

definition ExecCmd :: "env \<Rightarrow> string \<times> string \<Rightarrow> string \<Rightarrow> bool \<Rightarrow> unit op" where
  "ExecCmd E pod command stdinNil =
     (let cmd = [''sh'', ''-c'', command];
          option0 = \<lparr>exCommand = cmd, exStdin = True, exStdout = True, exStderr = True, exTTY = True\<rparr>;
          option1 = (if stdinNil then option0\<lparr>exStdin := False\<rparr> else option0)
      in bind (newExecutor E (fst pod) (snd pod) option1) (\<lambda>_.
         bind (stream E (fst pod) (snd pod) option1) (\<lambda>_. ret ())))"

definition PodFailed :: string where "PodFailed = ''Failed''"
definition PodSucceeded :: string where "PodSucceeded = ''Succeeded''"
definition PodRunning :: string where "PodRunning = ''Running''"

definition IsPodCompleted :: "env \<Rightarrow> string \<Rightarrow> string \<Rightarrow> bool op" where
  "IsPodCompleted E podName namespace =
     bind (getPod E namespace podName) (\<lambda>pod.
     if pPhase pod = PodFailed \<or> pPhase pod = PodSucceeded then ret True else ret False)"

definition IsPodRunning :: "env \<Rightarrow> string \<Rightarrow> string \<Rightarrow> bool op" where
  "IsPodRunning E podName namespace =
     bind (getPod E namespace podName) (\<lambda>pod.
     if pPhase pod = PodFailed \<or> pPhase pod = PodSucceeded
     then fail (ErrorString (''pod is in unexpected phase: '' @ pPhase pod))
     else if pPhase pod = PodRunning then ret True
     else ret False)"

text \<open>Any error makes \<open>GetNode\<close> return nil.\<close>

definition GetNode :: "env \<Rightarrow> string \<Rightarrow> KubeNode option op" where
  "GetNode E nodeName =
     attempt (getClusterNode E nodeName) (\<lambda>_. ret None) (\<lambda>node. ret (Some node))"

section \<open>Weakest preconditions\<close>

lemma wp_GetNode [wp_simps]:
  "wp (GetNode E n) Q h =
     (case eGetClusterNode E h n of
        Inl e \<Rightarrow> Q (Ok None) [EvGetClusterNode n (Inl e)]
      | Inr k \<Rightarrow> Q (Ok (Some k)) [EvGetClusterNode n (Inr k)])"
  by (auto simp: GetNode_def getClusterNode_def wp_attempt wp_call wp_ret split: sum.split)

text \<open>A poll condition is true exactly when the pod it read is in the phase it waits for.\<close>

lemma IsPodRunning_result:
  "result (IsPodRunning E n ns) h = Ok True \<longleftrightarrow>
     (\<exists>pod. eGetPod E h ns n = Inr pod \<and> pPhase pod = PodRunning)"
  by (cases "eGetPod E h ns n")
    (auto simp: IsPodRunning_def getPod_def result_bind result_call
      PodRunning_def PodFailed_def PodSucceeded_def)

lemma IsPodCompleted_result:
  "result (IsPodCompleted E n ns) h = Ok True \<longleftrightarrow>
     (\<exists>pod. eGetPod E h ns n = Inr pod \<and> (pPhase pod = PodFailed \<or> pPhase pod = PodSucceeded))"
  by (cases "eGetPod E h ns n")
    (auto simp: IsPodCompleted_def getPod_def result_bind result_call)

end
