(* ===== verification/Sample_Env.thy ===== *)
theory Sample_Env
  imports Kube_Env
begin

text \<open>
  A concrete environment for the witnesses: every call succeeds, reads return the sample objects
  under the requested name, writes echo the object, a poll evaluates its condition once. Witnesses
  change the fields they are about.
\<close>

definition sampleKube :: KubeNode where
  "sampleKube = \<lparr>kName = ''n1'', kUnschedulable = False, kBootID = ''boot-1'',
     kConditions = [\<lparr>ncType = ''Ready'', ncStatus = ''True''\<rparr>], kManagedFields = []\<rparr>"

definition sampleStatus :: NodeStatus where
  "sampleStatus = \<lparr>Conditions = [], RebootRequiredLastChecked = None, RebootRequired = None,
     Drained = False, CurrentState = ''OK'', BootID = ''''\<rparr>"

definition sampleNode :: Node where
  "sampleNode = \<lparr>Name = ''n1'', Finalizers = [], OwnerReferences = [], DeletionTimestamp = None,
     Spec = \<lparr>State = ''Active''\<rparr>, Status = sampleStatus\<rparr>"

definition sampleConfig :: Config where
  "sampleConfig =
     \<lparr>cfLog = \<lparr>lcLevel = ''info'', lcFormat = ''json'', lcLoggers = []\<rparr>,
      cfRebootCheckInterval = 12 * Hour,
      cfPod = \<lparr>pcPriorityClassName = '''',
        pcContainerResources = \<lparr>crRequests = \<lparr>rlMemory = ''16Mi'', rlCPU = ''10m''\<rparr>,
                                crLimits = \<lparr>rlMemory = ''32Mi'', rlCPU = ''100m''\<rparr>\<rparr>\<rparr>,
      cfContainerNode = False\<rparr>"

definition sampleKoanf :: "string koanf" where
  "sampleKoanf = \<lparr>kLoadEnv = (\<lambda>p f k. Inr k), kLoadFile = (\<lambda>f k. Inr k),
     kUnmarshal = (\<lambda>k. Inr sampleConfig), kDuration = (\<lambda>k p. 12 * Hour), kCut = (\<lambda>k p. k),
     kMarshalJSON = (\<lambda>k. Inr ''{}''), kMarshalYAML = (\<lambda>k. Inr ''{}'')\<rparr>"

definition pollOnce :: "int \<Rightarrow> int \<Rightarrow> bool \<Rightarrow> bool op \<Rightarrow> history \<Rightarrow> (gerror + unit) \<times> history" where
  "pollOnce i t b c h =
     (case c h of
        (Ok True, ev) \<Rightarrow> (Inr (), ev)
      | (Err e, ev) \<Rightarrow> (Inl e, ev)
      | (_, ev) \<Rightarrow> (Inl (ExtError ''context deadline exceeded''), ev))"

definition samplePod :: "Pod \<Rightarrow> Pod" where
  "samplePod p = p\<lparr>pName := pGenerateName p @ ''x1'', pPhase := ''Running''\<rparr>"

definition emptyPod :: Pod where
  "emptyPod = \<lparr>pName = '''', pGenerateName = '''', pNamespace = '''', pLabels = [],
     pSpec = \<lparr>pdVolumes = [], pdContainers = [], pdRestartPolicy = '''',
       pdTerminationGracePeriodSeconds = None, pdNodeName = '''', pdHostPID = False,
       pdSecurityContext = \<lparr>psRunAsUser = None, psRunAsGroup = None, psRunAsNonRoot = None,
         psAppArmorProfile = None\<rparr>,
       pdTolerations = [], pdPriorityClassName = ''''\<rparr>,
     pPhase = ''''\<rparr>"

definition sampleEnv :: env where
  "sampleEnv = \<lparr>
     eGetKubeNode = (\<lambda>h n. Inr (sampleKube\<lparr>kName := n\<rparr>)),
     eGetNode = (\<lambda>h n. Inr (sampleNode\<lparr>Name := n\<rparr>)),
     eListNodes = (\<lambda>h. Inr [sampleNode]),
     eCreateNode = (\<lambda>h x. Inr x),
     eUpdateNode = (\<lambda>h x. Inr x),
     ePatchNode = (\<lambda>h old new. Inr new),
     ePatchStatus = (\<lambda>h old new. Inr new),
     ePatchKubeNode = (\<lambda>h old new. Inr new),
     eListKubeNodes = (\<lambda>h. Inr [sampleKube]),
     eGetClusterNode = (\<lambda>h n. Inr (sampleKube\<lparr>kName := n\<rparr>)),
     eCreatePod = (\<lambda>h p. Inr (samplePod p)),
     eGetPod = (\<lambda>h ns n. Inr (emptyPod\<lparr>pName := n, pNamespace := ns, pPhase := ''Running''\<rparr>)),
     eDeletePod = (\<lambda>h ns n. Inr ()),
     eDeletePodForeground = (\<lambda>h ns n. Inr ()),
     eDeletePods = (\<lambda>h ns lo. Inr ()),
     eNewExecutor = (\<lambda>h ns n opt. Inr ()),
     eStream = (\<lambda>h ns n opt. Inr ()),
     eNewClientset = (\<lambda>h. Inr ()),
     eRunNodeDrain = (\<lambda>h dh n. Inr ()),
     eNow = (\<lambda>h. 1000 * Hour),
     eHostname = (\<lambda>h. Inr ''manager-0''),
     eStat = (\<lambda>h p. StatDir),
     eReadDir = (\<lambda>h p. Inr []),
     ePluginClient = (\<lambda>h p. Inr p),
     ePing = (\<lambda>h c. Inr ()),
     eDispense = (\<lambda>h c n. Inr (DispensedDrainClient c)),
     ePluginInfo = (\<lambda>h c. Inr (PluginInfoResponse_Build (Some c) (Some CONFIG_FORMAT_YAML))),
     eInit = (\<lambda>h c rq. Inr ()),
     eIsSupported = (\<lambda>h c. Inr (IsSupportedResponse_Build (Some True))),
     eIsHealthy = (\<lambda>h c. Inr (IsHealthyResponse_Build (Some True))),
     eIsDrainOk = (\<lambda>h c rq. Inr (IsDrainOkResponse_Build (Some True))),
     ePreDrain = (\<lambda>h c rq. Inr ()),
     ePostDrain = (\<lambda>h c rq. Inr ()),
     eMapOrder = (\<lambda>h. []),
     eIsNotFound = (\<lambda>e. e = ExtError ''NotFound''),
     eContainsFinalizer = (\<lambda>x f. f \<in> set (Finalizers x)),
     eRemoveFinalizer = (\<lambda>x f. x\<lparr>Finalizers := removeAll f (Finalizers x)\<rparr>),
     eAddFinalizer = (\<lambda>x f. x\<lparr>Finalizers := (if f \<in> set (Finalizers x) then Finalizers x else Finalizers x @ [f])\<rparr>),
     eSetOwnerReference = (\<lambda>k x. Inr (x\<lparr>OwnerReferences := OwnerReferences x @ [kName k]\<rparr>)),
     eUnmarshal = (\<lambda>raw. Inr JNull),
     eInRequirement = (\<lambda>k vs. Inr (k @ '' in (reboot,reboot-required)'')),
     eParseQuantity = Inr,
     eFormatString = (\<lambda>f. ''format''),
     eConfig = sampleConfig,
     eKoanf = sampleKoanf,
     eKoanfState = '''',
     eErrPod = Some emptyPod,
     ePoll = pollOnce\<rparr>"

lemma pollOnce_only:
  assumes "ePoll E = pollOnce"
  shows "polls_only E"
proof -
  have "emitted (poll E i t b c) h = emitted c h" for i t b c h
    using assms by (auto simp: poll_def emitted_def pollOnce_def split: prod.split res.split bool.split)
  then show ?thesis by (auto simp: polls_only_def only_def)
qed

lemma ePoll_sampleEnv [simp]: "ePoll sampleEnv = pollOnce"
  by (simp add: sampleEnv_def)

lemmas sample_defs =
  sampleEnv_def sampleKube_def sampleStatus_def sampleNode_def sampleConfig_def sampleKoanf_def
  samplePod_def emptyPod_def

end
