(* ===== verification/Reboot_Manager.thy ===== *)
theory Reboot_Manager
  imports Utils Sample_Env
begin

text \<open>
  The reboot manager, \<open>src/internal/utils/reboot-manager.go\<close>: the check for a required reboot, which
  runs a command in a short-lived pod on the node; the reboot itself, a pod that signals the init
  process; the check that a node came back; and the clean-up of both kinds of pods.
\<close>

record RebootManager =
  rmNamespace :: string

section \<open>Pods\<close>

definition podTolerations :: "Toleration list" where
  "podTolerations =
     [\<lparr>tKey = ''node-role.kubernetes.io/control-plane'', tOperator = ''Exists'', tEffect = ''NoSchedule''\<rparr>,
      \<lparr>tKey = ''node.kubernetes.io/unschedulable'', tOperator = ''Exists'', tEffect = ''NoSchedule''\<rparr>]"

definition rebootRequiredPod :: "env \<Rightarrow> RebootManager \<Rightarrow> string \<Rightarrow> Pod res" where
  "rebootRequiredPod E r nodeName =
     map_res (\<lambda>resources.
       \<lparr>pName = '''', pGenerateName = ''reboot-required-'', pNamespace = rmNamespace r,
        pLabels = [(LabelComponent, ''reboot-required'')],
        pSpec = \<lparr>
          pdVolumes = [\<lparr>hvName = ''host-var-run'', hvPath = ''/var/run/'', hvType = ''Directory''\<rparr>],
          pdContainers = [\<lparr>
            cName = ''shell'', cImage = ''alpine'', cCommand = [''sleep'', ''300''],
            cVolumeMounts = [\<lparr>vmName = ''host-var-run'', vmReadOnly = True, vmMountPath = ''/host/var/run''\<rparr>],
            cSecurityContext = None, cResources = resources\<rparr>],
          pdRestartPolicy = ''Never'', pdTerminationGracePeriodSeconds = Some 1,
          pdNodeName = nodeName, pdHostPID = False,
          pdSecurityContext = \<lparr>psRunAsUser = Some 1000, psRunAsGroup = Some 1000,
            psRunAsNonRoot = Some True, psAppArmorProfile = None\<rparr>,
          pdTolerations = podTolerations,
          pdPriorityClassName = pcPriorityClassName (cfPod (eConfig E))\<rparr>,
        pPhase = ''''\<rparr>)
     (ToResourceRequirement (eParseQuantity E) (pcContainerResources (cfPod (eConfig E))))"

definition rebootNodePod :: "env \<Rightarrow> RebootManager \<Rightarrow> string \<Rightarrow> Pod res" where
  "rebootNodePod E r nodeName =
     map_res (\<lambda>resources.
       \<lparr>pName = '''', pGenerateName = ''reboot-'', pNamespace = rmNamespace r,
        pLabels = [(LabelComponent, ''reboot'')],
        pSpec = \<lparr>
          pdVolumes = [],
          pdContainers = [\<lparr>
            cName = ''shell'', cImage = ''alpine'', cCommand = [''kill'', ''-39'', ''1''],
            cVolumeMounts = [],
            cSecurityContext = Some \<lparr>scAdd = [''CAP_KILL''], scAllowPrivilegeEscalation = False,
              scPrivileged = False, scReadOnlyRootFilesystem = True\<rparr>,
            cResources = resources\<rparr>],
          pdRestartPolicy = ''Never'', pdTerminationGracePeriodSeconds = None,
          pdNodeName = nodeName, pdHostPID = True,
          pdSecurityContext = \<lparr>psRunAsUser = None, psRunAsGroup = None, psRunAsNonRoot = None,
            psAppArmorProfile = Some ''Unconfined''\<rparr>,
          pdTolerations = podTolerations,
          pdPriorityClassName = pcPriorityClassName (cfPod (eConfig E))\<rparr>,
        pPhase = ''''\<rparr>)
     (ToResourceRequirement (eParseQuantity E) (pcContainerResources (cfPod (eConfig E))))"

text \<open>The pod of \<open>IsNodeRebooted\<close> when the nodes are containers: the required-check pod, changed.\<close>

definition rebootRequiredRemovePod :: "Pod \<Rightarrow> Pod" where
  "rebootRequiredRemovePod pod =
     (let c = pdContainers (pSpec pod) ! 0;
          c' = c\<lparr>cCommand := [''rm'', ''-f'', ''/host/var/run/reboot-required''],
                 cVolumeMounts := (cVolumeMounts c)[0 := (cVolumeMounts c ! 0)\<lparr>vmReadOnly := False\<rparr>]\<rparr>
      in pod\<lparr>pGenerateName := ''reboot-required-remove-'',
             pSpec := (pSpec pod)\<lparr>
               pdContainers := (pdContainers (pSpec pod))[0 := c'],
               pdSecurityContext := (pdSecurityContext (pSpec pod))\<lparr>
                 psRunAsUser := Some 0, psRunAsNonRoot := Some False\<rparr>\<rparr>\<rparr>)"

section \<open>Operations\<close>

text \<open>
  The deferred clean-up reads the variable \<open>pod\<close> when it runs. An error of the deletion is logged;
  a nil pointer panics.
\<close>

definition deleteDeferred :: "env \<Rightarrow> RebootManager \<Rightarrow> Pod option \<Rightarrow> unit op" where
  "deleteDeferred E r podVar =
     (case podVar of
        None \<Rightarrow> panic ''invalid memory address or nil pointer dereference''
      | Some pod \<Rightarrow> attempt (deletePod E (rmNamespace r) (pName pod)) (\<lambda>_. ret ()) ret)"

definition rebootRequiredCommand :: string where
  "rebootRequiredCommand = ''test -f /host/var/run/reboot-required''"

text \<open>
  The second half of \<open>IsRebootRequired\<close>, from the \<open>defer\<close> on. The variable \<open>pod\<close> that the deferred
  function reads was assigned by \<open>Create\<close> and is assigned again by \<open>Get\<close>, whether that failed or not.
\<close>

definition rebootRequiredInPod :: "env \<Rightarrow> RebootManager \<Rightarrow> Pod \<Rightarrow> bool op" where
  "rebootRequiredInPod E r pod =
     attempt (poll E Second (30 * Second) False (IsPodRunning E (pName pod) (pNamespace pod)))
       (\<lambda>e. defer_after (deleteDeferred E r (Some pod))
              (fail (Errorf ''pod did not complete while waiting: '' e)))
       (\<lambda>_. attempt (getPod E (pNamespace pod) (pName pod))
              (\<lambda>e. defer_after (deleteDeferred E r (eErrPod E))
                     (fail (Errorf ''failed to get reboot-required pod: '' e)))
              (\<lambda>pod'. defer_after (deleteDeferred E r (Some pod'))
                        (attempt (ExecCmd E (pNamespace pod', pName pod') rebootRequiredCommand True)
                           (\<lambda>_. ret False) (\<lambda>_. ret True))))"

definition IsRebootRequired :: "env \<Rightarrow> RebootManager \<Rightarrow> string \<Rightarrow> bool op" where
  "IsRebootRequired E r nodeName =
     bind (GetNode E nodeName) (\<lambda>kubeNode.
     if kubeNode = None then fail (ErrorString (''node don't exists in cluster: '' @ nodeName)) else
     bind (of_res (rebootRequiredPod E r nodeName)) (\<lambda>spec.
     bind (wrapf ''failed to create reboot-required pod: '' (createPod E spec)) (\<lambda>pod.
     rebootRequiredInPod E r pod)))"

definition RebootNode :: "env \<Rightarrow> RebootManager \<Rightarrow> Node \<Rightarrow> unit op" where
  "RebootNode E r node =
     bind (GetNode E (Name node)) (\<lambda>kubeNode.
     case kubeNode of
       None \<Rightarrow> fail (ErrorString (''node don't exists in cluster: '' @ Name node))
     | Some kube \<Rightarrow>
         if \<not> kUnschedulable kube
         then fail (ErrorString (''node needs to be cordoned before reboot: '' @ Name node))
         else if cfContainerNode (eConfig E)
         then eventf (Name node) EventTypeNormal ''Reboot'' ''Skipping reboot, because running on containers''
         else
           bind (eventf (Name node) EventTypeNormal ''Reboot'' ''Rebooting node'') (\<lambda>_.
           bind (of_res (rebootNodePod E r (Name node))) (\<lambda>spec.
           attempt (createPod E spec)
             (\<lambda>e. bind (eventf (Name node) EventTypeWarning ''Reboot'' (''Failed to create reboot pod: '' @ Error e))
                    (\<lambda>_. fail (Errorf ''failed to create reboot pod: '' e)))
             (\<lambda>_. ret ()))))"

definition CleanupNode :: "env \<Rightarrow> RebootManager \<Rightarrow> string \<Rightarrow> unit op" where
  "CleanupNode E r nodeName =
     (if nodeName = '''' then fail (ErrorString ''node name is required'')
      else case eInRequirement E LabelComponent [''reboot-required'', ''reboot''] of
             Inl e \<Rightarrow> fail e
           | Inr labelSelector \<Rightarrow>
               wrapf ''failed to delete pods: ''
                 (deletePods E (rmNamespace r)
                    \<lparr>loLabelSelector = labelSelector, loFieldSelector = ''spec.nodeName='' @ nodeName\<rparr>))"

text \<open>The loop over the conditions of a node: ready when some \<open>Ready\<close> condition is \<open>True\<close>.\<close>

fun nodeReadyLoop :: "bool \<Rightarrow> NodeCondition list \<Rightarrow> bool" where
  "nodeReadyLoop nodeReady [] = nodeReady"
| "nodeReadyLoop nodeReady (c # cs) =
     nodeReadyLoop (if ncType c = ''Ready'' then (if ncStatus c = ''True'' then True else nodeReady)
                    else nodeReady) cs"

definition IsNodeRebooted :: "env \<Rightarrow> RebootManager \<Rightarrow> KubeNode \<Rightarrow> string \<Rightarrow> bool op" where
  "IsNodeRebooted E r kubeNode oldBootId =
     (if cfContainerNode (eConfig E) then
        bind (of_res (rebootRequiredPod E r (kName kubeNode))) (\<lambda>spec.
        bind (wrapf ''failed to create reboot-required-remove pod: ''
                (createPod E (rebootRequiredRemovePod spec))) (\<lambda>pod.
        defer_after (deleteDeferred E r (Some pod))
          (bind (wrapf ''pod did not complete while waiting: ''
                   (poll E Second (30 * Second) False (IsPodCompleted E (pName pod) (pNamespace pod)))) (\<lambda>_.
           ret True))))
      else if kBootID kubeNode \<noteq> oldBootId then
        (let nodeReady = nodeReadyLoop False (kConditions kubeNode) in
         if nodeReady then
           bind (wrapf ''failed to cleanup node after reboot: '' (CleanupNode E r (kName kubeNode))) (\<lambda>_.
           ret nodeReady)
         else ret nodeReady)
      else ret False)"

section \<open>Facts\<close>

lemma nodeReadyLoop_iff:
  "nodeReadyLoop b cs \<longleftrightarrow> b \<or> (\<exists>c \<in> set cs. ncType c = ''Ready'' \<and> ncStatus c = ''True'')"
  by (induction cs arbitrary: b) auto

lemma rebootRequiredPod_Ok:
  "rebootRequiredPod E r n = Ok p \<Longrightarrow>
     pGenerateName p = ''reboot-required-'' \<and> pNamespace p = rmNamespace r \<and>
     pdNodeName (pSpec p) = n \<and> \<not> pdHostPID (pSpec p)"
  by (auto simp: rebootRequiredPod_def)

lemma rebootNodePod_Ok:
  "rebootNodePod E r n = Ok p \<Longrightarrow>
     pGenerateName p = ''reboot-'' \<and> pNamespace p = rmNamespace r \<and>
     pdNodeName (pSpec p) = n \<and> pdHostPID (pSpec p)"
  by (auto simp: rebootNodePod_def)

lemma run_deleteDeferred [simp]:
  "result (deleteDeferred E r (Some pod)) h = Ok ()"
  "emitted (deleteDeferred E r (Some pod)) h =
     [EvDeletePod (rmNamespace r) (pName pod) (eDeletePod E h (rmNamespace r) (pName pod))]"
  by (cases "eDeletePod E h (rmNamespace r) (pName pod)";
      simp add: deleteDeferred_def deletePod_def result_attempt emitted_attempt result_call emitted_call)+

lemma emitted_deleteDeferred_None [simp]: "emitted (deleteDeferred E r None) h = []"
  by (simp add: deleteDeferred_def panic_def emitted_def)

lemma run_GetNode:
  "result (GetNode E n) h = Ok (case eGetClusterNode E h n of Inl _ \<Rightarrow> None | Inr k \<Rightarrow> Some k)"
  "emitted (GetNode E n) h = [EvGetClusterNode n (eGetClusterNode E h n)]"
  by (cases "eGetClusterNode E h n";
      simp add: GetNode_def getClusterNode_def result_attempt emitted_attempt result_call emitted_call)+

section \<open>Footprints\<close>

text \<open>
  The interactions of the reboot manager for a node: reading the cluster node, the life of its pods in
  the cluster, commands in them, and recorded events; a collection of pods is deleted only in the
  manager's namespace and on that node. None of them writes a node object.
\<close>

definition reboot_event :: "RebootManager \<Rightarrow> string \<Rightarrow> event \<Rightarrow> bool" where
  "reboot_event r n e = (case e of
       EvGetClusterNode _ _ \<Rightarrow> True | EvCreatePod _ _ \<Rightarrow> True | EvGetPod _ _ _ \<Rightarrow> True
     | EvDeletePod _ _ _ \<Rightarrow> True | EvNewExecutor _ _ _ _ \<Rightarrow> True
     | EvStream _ _ _ _ \<Rightarrow> True | EvRecord _ _ _ _ \<Rightarrow> True
     | EvDeletePods ns lo _ \<Rightarrow> ns = rmNamespace r \<and> loFieldSelector lo = ''spec.nodeName='' @ n
     | _ \<Rightarrow> False)"

text \<open>The pods an event creates; the other events create none.\<close>

definition creates :: "(Pod \<Rightarrow> bool) \<Rightarrow> event \<Rightarrow> bool" where
  "creates P e = (case e of EvCreatePod p _ \<Rightarrow> P p | _ \<Rightarrow> True)"

lemma only_GetNode: "(\<And>r. P (EvGetClusterNode n r)) \<Longrightarrow> only P (GetNode E n)"
  by (simp add: only_def run_GetNode)

lemma only_pod_conditions:
  assumes "\<And>x. P (EvGetPod ns n x)"
  shows "only P (IsPodRunning E n ns)" "only P (IsPodCompleted E n ns)"
  using assms
  by (auto simp: IsPodRunning_def IsPodCompleted_def getPod_def intro!: only_rules only_call)

lemma only_deleteDeferred:
  "(\<And>n x. P (EvDeletePod (rmNamespace r) n x)) \<Longrightarrow> only P (deleteDeferred E r v)"
  by (cases v) (simp_all add: only_def)

lemma only_ExecCmd:
  assumes "\<And>ns n opt x. P (EvNewExecutor ns n opt x)" and "\<And>ns n opt x. P (EvStream ns n opt x)"
  shows "only P (ExecCmd E pod c b)"
  using assms
  by (auto simp: ExecCmd_def newExecutor_def stream_def Let_def intro!: only_rules only_call)

lemmas reboot_event_simps = reboot_event_def creates_def

lemma only_rebootRequiredInPod:
  assumes "polls_only E"
    and "\<And>ns n x. P (EvGetPod ns n x)" and "\<And>n x. P (EvDeletePod (rmNamespace r) n x)"
    and "\<And>ns n opt x. P (EvNewExecutor ns n opt x)" and "\<And>ns n opt x. P (EvStream ns n opt x)"
  shows "only P (rebootRequiredInPod E r pod)"
  unfolding rebootRequiredInPod_def getPod_def
  by (intro only_rules only_poll only_pod_conditions only_call only_deleteDeferred only_ExecCmd assms)

lemma only_IsRebootRequired:
  assumes "polls_only E"
  shows "only (\<lambda>e. reboot_event r n e \<and> creates (\<lambda>p. rebootRequiredPod E r n = Ok p) e) (IsRebootRequired E r n)"
  unfolding IsRebootRequired_def createPod_def
  by (intro only_rules only_GetNode only_call only_rebootRequiredInPod assms)
    (simp_all add: reboot_event_simps)

lemma only_RebootNode:
  "only (\<lambda>e. reboot_event r (Name node) e \<and> creates (\<lambda>p. rebootNodePod E r (Name node) = Ok p) e) (RebootNode E r node)"
  unfolding RebootNode_def createPod_def eventf_def
  by (intro only_rules only_GetNode only_call only_emit) (simp_all add: reboot_event_simps)

lemma only_CleanupNode:
  "only (\<lambda>e. reboot_event r n e \<and> creates (\<lambda>p. False) e) (CleanupNode E r n)"
  unfolding CleanupNode_def deletePods_def
  by (cases "eInRequirement E LabelComponent [''reboot-required'', ''reboot'']")
    (auto simp: reboot_event_simps intro!: only_rules only_call)

lemma only_IsNodeRebooted:
  assumes "polls_only E"
  shows "only (\<lambda>e. reboot_event r (kName k) e \<and> creates (\<lambda>p. \<exists>q. rebootRequiredPod E r (kName k) = Ok q \<and>
           p = rebootRequiredRemovePod q) e) (IsNodeRebooted E r k b)"
  unfolding IsNodeRebooted_def createPod_def
  by (intro only_rules only_poll only_pod_conditions only_call only_deleteDeferred assms
       only_mono [OF only_CleanupNode]) (auto simp: reboot_event_simps split: event.splits)

section \<open>The check for a required reboot\<close>

text \<open>The events of the second half, by how the poll and the read of the pod ended.\<close>

lemma emitted_rebootRequiredInPod:
  fixes E r pod h
  defines "c \<equiv> poll E Second (30 * Second) False (IsPodRunning E (pName pod) (pNamespace pod))"
  shows "emitted (rebootRequiredInPod E r pod) h = emitted c h @
     (case result c h of
        Ok _ \<Rightarrow>
          (case eGetPod E (h @ emitted c h) (pNamespace pod) (pName pod) of
             Inl e \<Rightarrow> EvGetPod (pNamespace pod) (pName pod) (Inl e) #
                 emitted (deleteDeferred E r (eErrPod E))
                   (h @ emitted c h @ [EvGetPod (pNamespace pod) (pName pod) (Inl e)])
           | Inr p \<Rightarrow> 
              (let t = emitted c h @ [EvGetPod (pNamespace pod) (pName pod) (Inr p)];
                   x = emitted (ExecCmd E (pNamespace p, pName p) rebootRequiredCommand True) (h @ t)
               in EvGetPod (pNamespace pod) (pName pod) (Inr p) # x @
                  [EvDeletePod (rmNamespace r) (pName p) (eDeletePod E (h @ t @ x) (rmNamespace r) (pName p))]))
      | Err _ \<Rightarrow> [EvDeletePod (rmNamespace r) (pName pod)
                   (eDeletePod E (h @ emitted c h) (rmNamespace r) (pName pod))]
      | Panic _ \<Rightarrow> [])"
  unfolding rebootRequiredInPod_def c_def [symmetric]
  by (auto simp: emitted_attempt emitted_defer getPod_def result_call emitted_call Let_def
      split: res.split sum.split)

definition rebootRequiredExec :: PodExecOptions where
  "rebootRequiredExec =
     \<lparr>exCommand = [''sh'', ''-c'', rebootRequiredCommand], exStdin = False, exStdout = True,
      exStderr = True, exTTY = True\<rparr>"

lemma ExecCmd_streams:
  "EvStream ns' n' opt x \<in> set (emitted (ExecCmd E (ns, n) rebootRequiredCommand True) h) \<Longrightarrow> ns' = ns \<and> n' = n"
  by (auto simp: ExecCmd_def newExecutor_def stream_def Let_def run_simps split: res.splits sum.splits)

lemma ExecCmd_run:
  "result (ExecCmd E (ns, n) rebootRequiredCommand True) h = Ok () \<longleftrightarrow>
     EvStream ns n rebootRequiredExec (Inr ()) \<in> set (emitted (ExecCmd E (ns, n) rebootRequiredCommand True) h)"
  "EvStream ns' n' opt (Inr ()) \<in> set (emitted (ExecCmd E (ns, n) rebootRequiredCommand True) h) \<Longrightarrow>
     ns' = ns \<and> n' = n \<and> opt = rebootRequiredExec"
  by (auto simp: ExecCmd_def newExecutor_def stream_def Let_def run_simps rebootRequiredExec_def
      split: res.splits sum.splits)

lemma no_stream_in_poll:
  assumes "polls_only E"
  shows "EvStream ns n opt x \<notin> set (emitted (poll E i t b (IsPodRunning E n' ns')) h)"
proof
  assume "EvStream ns n opt x \<in> set (emitted (poll E i t b (IsPodRunning E n' ns')) h)"
  moreover have "only (\<lambda>e. \<forall>ns n opt x. e \<noteq> EvStream ns n opt x) (poll E i t b (IsPodRunning E n' ns'))"
    by (rule only_poll [OF assms], rule only_pod_conditions) simp
  ultimately show False by (auto dest: onlyD)
qed

lemma deferred_no_stream: "EvStream ns n opt x \<notin> set (emitted (deleteDeferred E r v) h)"
  by (cases v) simp_all

text \<open>A law about the API server: a pod that is read has the requested name and namespace.\<close>

definition podNames :: "env \<Rightarrow> bool" where
  "podNames E \<longleftrightarrow> (\<forall>h ns m p. eGetPod E h ns m = Inr p \<longrightarrow> pName p = m \<and> pNamespace p = ns)"

lemma rebootRequiredInPod_result:
  assumes "polls_only E" and "result (rebootRequiredInPod E r pod) h = Ok b" and names: "podNames E"
  shows "b \<longleftrightarrow> EvStream (pNamespace pod) (pName pod) rebootRequiredExec (Inr ()) \<in> set (emitted (rebootRequiredInPod E r pod) h)"
    and "EvStream ns m opt x \<in> set (emitted (rebootRequiredInPod E r pod) h) \<Longrightarrow> ns = pNamespace pod \<and> m = pName pod"
proof -
  let ?c = "poll E Second (30 * Second) False (IsPodRunning E (pName pod) (pNamespace pod))"
  let ?t = "emitted ?c h"
  from assms(2) have ok: "result ?c h = Ok ()"
    by (auto simp: rebootRequiredInPod_def result_attempt result_defer split: res.splits)
  with assms(2) obtain p where p: "eGetPod E (h @ ?t) (pNamespace pod) (pName pod) = Inr p"
    by (cases "eGetPod E (h @ ?t) (pNamespace pod) (pName pod)")
      (auto simp: rebootRequiredInPod_def result_attempt result_defer getPod_def result_call split: res.splits)
  from names p have named: "pName p = pName pod" "pNamespace p = pNamespace pod" by (auto simp: podNames_def)
  let ?x = "ExecCmd E (pNamespace pod, pName pod) rebootRequiredCommand True"
  let ?h = "h @ ?t @ [EvGetPod (pNamespace pod) (pName pod) (Inr p)]"
  from ok p assms(2) have "b \<longleftrightarrow> result ?x ?h = Ok ()"
    by (auto simp: rebootRequiredInPod_def result_attempt result_defer getPod_def result_call emitted_call named
        split: res.splits)
  then show "b \<longleftrightarrow> EvStream (pNamespace pod) (pName pod) rebootRequiredExec (Inr ()) \<in> set (emitted (rebootRequiredInPod E r pod) h)"
    using ok p
    by (auto simp: emitted_rebootRequiredInPod Let_def no_stream_in_poll [OF assms(1)] ExecCmd_run(1) named)
  show "ns = pNamespace pod \<and> m = pName pod" if "EvStream ns m opt x \<in> set (emitted (rebootRequiredInPod E r pod) h)"
    using that ok p
    by (auto simp: emitted_rebootRequiredInPod Let_def no_stream_in_poll [OF assms(1)] named dest: ExecCmd_streams)
qed

lemma IsRebootRequired_Ok:
  assumes "result (IsRebootRequired E r n) h = Ok b"
  obtains k spec pod where "eGetClusterNode E h n = Inr k" "rebootRequiredPod E r n = Ok spec"
    "eCreatePod E (h @ [EvGetClusterNode n (Inr k)]) spec = Inr pod"
    "result (rebootRequiredInPod E r pod) (h @ [EvGetClusterNode n (Inr k), EvCreatePod spec (Inr pod)]) = Ok b"
    "emitted (IsRebootRequired E r n) h = [EvGetClusterNode n (Inr k), EvCreatePod spec (Inr pod)] @
       emitted (rebootRequiredInPod E r pod) (h @ [EvGetClusterNode n (Inr k), EvCreatePod spec (Inr pod)])"
  using assms
  by (auto simp: IsRebootRequired_def run_simps run_GetNode createPod_def result_wrapf
      split: res.splits sum.splits if_splits)

text \<open>C25. The answer of the check for a required reboot. When \<open>IsRebootRequired\<close> returns without an
  error, it created the check pod, bound to the node, and returned true exactly when the command
  \<open>test -f /host/var/run/reboot-required\<close>, run by \<open>sh -c\<close> without stdin, succeeded in that pod; no command is run in
  any other pod, and a command that could not run counts as not required. The two laws about the libraries are that a
  poll only runs its condition and that a successful read of a pod returns the pod of the requested name and namespace.\<close>

theorem reboot_check_answer:
  assumes "polls_only E" and "podNames E" and "result (IsRebootRequired E r n) h = Ok b" and "t = emitted (IsRebootRequired E r n) h"
  shows "\<exists>spec pod. rebootRequiredPod E r n = Ok spec \<and> pdNodeName (pSpec spec) = n \<and> EvCreatePod spec (Inr pod) \<in> set t \<and>
    (b \<longleftrightarrow> EvStream (pNamespace pod) (pName pod) rebootRequiredExec (Inr ()) \<in> set t) \<and>
    (\<forall>ns m opt x. EvStream ns m opt x \<in> set t \<longrightarrow> ns = pNamespace pod \<and> m = pName pod)"
proof -
  from assms(3) obtain k spec pod where pod: "rebootRequiredPod E r n = Ok spec"
    "result (rebootRequiredInPod E r pod) (h @ [EvGetClusterNode n (Inr k), EvCreatePod spec (Inr pod)]) = Ok b"
    "t = [EvGetClusterNode n (Inr k), EvCreatePod spec (Inr pod)] @
       emitted (rebootRequiredInPod E r pod) (h @ [EvGetClusterNode n (Inr k), EvCreatePod spec (Inr pod)])"
    unfolding assms(4) by (rule IsRebootRequired_Ok)
  from rebootRequiredPod_Ok [OF pod(1)] have "pdNodeName (pSpec spec) = n" by simp
  moreover have "EvCreatePod spec (Inr pod) \<in> set t"
    and mem: "EvStream ns m opt x \<in> set t \<longleftrightarrow>
      EvStream ns m opt x \<in> set (emitted (rebootRequiredInPod E r pod) (h @ [EvGetClusterNode n (Inr k), EvCreatePod spec (Inr pod)]))"
    for ns m opt x unfolding pod(3) by simp_all
  moreover note run = rebootRequiredInPod_result [OF assms(1) pod(2) assms(2), folded mem]
  ultimately show ?thesis using pod(1) by blast
qed

theorem reboot_check_answer_witness:
  "\<exists>spec pod t. rebootRequiredPod sampleEnv \<lparr>rmNamespace = ''ns''\<rparr> ''n1'' = Ok spec \<and>
     t = emitted (IsRebootRequired sampleEnv \<lparr>rmNamespace = ''ns''\<rparr> ''n1'') [] \<and> EvCreatePod spec (Inr pod) \<in> set t \<and>
     EvStream (pNamespace pod) (pName pod) rebootRequiredExec (Inr ()) \<in> set t"
proof -
  have p: "polls_only sampleEnv" by (rule pollOnce_only) simp
  have n: "podNames sampleEnv" by (auto simp: podNames_def sampleEnv_def)
  have r: "result (IsRebootRequired sampleEnv \<lparr>rmNamespace = ''ns''\<rparr> ''n1'') [] = Ok True"
    by code_simp
  define t where "t = emitted (IsRebootRequired sampleEnv \<lparr>rmNamespace = ''ns''\<rparr> ''n1'') []"
  from reboot_check_answer [OF p n r t_def] obtain spec pod where
    "rebootRequiredPod sampleEnv \<lparr>rmNamespace = ''ns''\<rparr> ''n1'' = Ok spec" "EvCreatePod spec (Inr pod) \<in> set t"
    "EvStream (pNamespace pod) (pName pod) rebootRequiredExec (Inr ()) \<in> set t" by auto
  then show ?thesis unfolding t_def by blast
qed

section \<open>The pods of the check\<close>

text \<open>The pods a run created, and whether an event is a failed read of a pod.\<close>

fun createdPods :: "history \<Rightarrow> Pod list" where
  "createdPods [] = []"
| "createdPods (EvCreatePod _ (Inr p) # es) = p # createdPods es"
| "createdPods (_ # es) = createdPods es"

fun podReadFailed :: "event \<Rightarrow> bool" where
  "podReadFailed (EvGetPod _ _ (Inl _)) = True"
| "podReadFailed _ = False"

lemma createdPods_iff: "p \<in> set (createdPods es) \<longleftrightarrow> (\<exists>s. EvCreatePod s (Inr p) \<in> set es)"
  by (induction es rule: createdPods.induct) auto

lemma IsRebootRequired_created:
  assumes "polls_only E" and "pod \<in> set (createdPods (emitted (IsRebootRequired E r n) h))"
  obtains k spec where
    "emitted (IsRebootRequired E r n) h = [EvGetClusterNode n (Inr k), EvCreatePod spec (Inr pod)] @
       emitted (rebootRequiredInPod E r pod) (h @ [EvGetClusterNode n (Inr k), EvCreatePod spec (Inr pod)])"
    "result (IsRebootRequired E r n) h =
       result (rebootRequiredInPod E r pod) (h @ [EvGetClusterNode n (Inr k), EvCreatePod spec (Inr pod)])"
proof -
  have nc: "EvCreatePod s x \<notin> set (emitted (rebootRequiredInPod E r q) h')" for s x q h'
    using only_rebootRequiredInPod [OF assms(1), of "\<lambda>e. \<forall>s x. e \<noteq> EvCreatePod s x" r q]
    by (auto dest: onlyD)
  from assms(2) obtain s where "EvCreatePod s (Inr pod) \<in> set (emitted (IsRebootRequired E r n) h)"
    by (auto simp: createdPods_iff)
  with nc obtain k where "eGetClusterNode E h n = Inr k" "rebootRequiredPod E r n = Ok s"
    "eCreatePod E (h @ [EvGetClusterNode n (Inr k)]) s = Inr pod"
    by (auto simp: IsRebootRequired_def run_simps run_GetNode createPod_def result_wrapf
        split: res.splits sum.splits if_splits)
  then show thesis
    by (intro that [of k s])
      (simp_all add: IsRebootRequired_def run_simps run_GetNode createPod_def result_wrapf)
qed

text \<open>C26. No check pod is left behind. When \<open>IsRebootRequired\<close> created a pod and no read of a pod
  failed, its last interaction deletes exactly that pod in the manager's namespace, whatever the poll,
  the command and the deletion answer. The two laws about the libraries are that a poll only runs its
  condition and that a successful read of a pod returns the pod of the requested name.\<close>

theorem reboot_check_cleans_up:
  assumes "polls_only E"
    and names: "\<And>h ns m p. eGetPod E h ns m = Inr p \<Longrightarrow> pName p = m"
    and created: "pod \<in> set (createdPods (emitted (IsRebootRequired E r n) h))"
    and reads: "\<not> list_ex podReadFailed (emitted (IsRebootRequired E r n) h)"
  shows "\<exists>x. last (emitted (IsRebootRequired E r n) h) = EvDeletePod (rmNamespace r) (pName pod) x"
proof -
  let ?c = "poll E Second (30 * Second) False (IsPodRunning E (pName pod) (pNamespace pod))"
  from IsRebootRequired_created [OF assms(1) created] obtain k spec where
    em: "emitted (IsRebootRequired E r n) h = [EvGetClusterNode n (Inr k), EvCreatePod spec (Inr pod)] @
      emitted (rebootRequiredInPod E r pod) (h @ [EvGetClusterNode n (Inr k), EvCreatePod spec (Inr pod)])"
    by metis
  let ?h = "h @ [EvGetClusterNode n (Inr k), EvCreatePod spec (Inr pod)]"
  show ?thesis
  proof (cases "result ?c ?h")
    case (Ok u)
    with reads em obtain p where "eGetPod E (?h @ emitted ?c ?h) (pNamespace pod) (pName pod) = Inr p"
      by (cases "eGetPod E (?h @ emitted ?c ?h) (pNamespace pod) (pName pod)")
        (auto simp: emitted_rebootRequiredInPod)
    with Ok em names show ?thesis by (simp add: emitted_rebootRequiredInPod Let_def)
  next
    case (Err e)
    with em show ?thesis by (simp add: emitted_rebootRequiredInPod)
  next
    case (Panic m)
    then show ?thesis by (simp add: poll_no_panic)
  qed
qed

theorem reboot_check_cleans_up_witness:
  "\<exists>x. last (emitted (IsRebootRequired sampleEnv \<lparr>rmNamespace = ''ns''\<rparr> ''n1'') []) =
     EvDeletePod ''ns'' ''reboot-required-x1'' x"
proof -
  let ?t = "emitted (IsRebootRequired sampleEnv \<lparr>rmNamespace = ''ns''\<rparr> ''n1'') []"
  have "createdPods ?t \<noteq> []" by code_simp
  then have "hd (createdPods ?t) \<in> set (createdPods ?t)" by simp
  moreover have "\<not> list_ex podReadFailed ?t" by code_simp
  moreover have "pName (hd (createdPods ?t)) = ''reboot-required-x1''" by code_simp
  moreover have "polls_only sampleEnv" by (rule pollOnce_only) simp
  moreover have "eGetPod sampleEnv h ns m = Inr p \<Longrightarrow> pName p = m" for h ns m p
    by (auto simp: sampleEnv_def)
  ultimately show ?thesis
    using reboot_check_cleans_up [of sampleEnv "hd (createdPods ?t)" "\<lparr>rmNamespace = ''ns''\<rparr>" "''n1''" "[]"]
    by simp
qed

text \<open>C39. The exception. When the read of the check pod after the poll fails, the deferred clean-up
  deletes the pod object that came back beside the error (an empty one: client-go returns a fresh
  struct), not the pod that was created: no deletion names the created pod, so it stays.\<close>

theorem reboot_check_leaks_pod:
  assumes "polls_only E"
    and "eErrPod E = Some q" and "pName q \<noteq> pName pod"
    and created: "pod \<in> set (createdPods (emitted (IsRebootRequired E r n) h))"
    and failed: "result (IsRebootRequired E r n) h = Err (Errorf ''failed to get reboot-required pod: '' e)"
  shows "EvDeletePod ns (pName pod) x \<notin> set (emitted (IsRebootRequired E r n) h)"
proof -
  let ?c = "poll E Second (30 * Second) False (IsPodRunning E (pName pod) (pNamespace pod))"
  from IsRebootRequired_created [OF assms(1) created] obtain k spec where
    em: "emitted (IsRebootRequired E r n) h = [EvGetClusterNode n (Inr k), EvCreatePod spec (Inr pod)] @
      emitted (rebootRequiredInPod E r pod) (h @ [EvGetClusterNode n (Inr k), EvCreatePod spec (Inr pod)])"
    and res: "result (IsRebootRequired E r n) h =
      result (rebootRequiredInPod E r pod) (h @ [EvGetClusterNode n (Inr k), EvCreatePod spec (Inr pod)])"
    by metis
  let ?h = "h @ [EvGetClusterNode n (Inr k), EvCreatePod spec (Inr pod)]"
  have "only (\<lambda>e. \<forall>ns m y. e \<noteq> EvDeletePod ns m y) ?c"
    by (intro only_poll [OF assms(1)] only_pod_conditions) simp
  then have nodel: "EvDeletePod ns m y \<notin> set (emitted ?c ?h)" for ns m y
    by (auto dest: onlyD)
  from failed res have ok: "result ?c ?h = Ok ()"
    by (auto simp: rebootRequiredInPod_def result_attempt result_defer split: res.splits)
  with failed res obtain e' where "eGetPod E (?h @ emitted ?c ?h) (pNamespace pod) (pName pod) = Inl e'"
    by (cases "eGetPod E (?h @ emitted ?c ?h) (pNamespace pod) (pName pod)")
      (auto simp: rebootRequiredInPod_def result_attempt result_defer getPod_def result_call split: res.splits)
  with ok em nodel assms(2,3) show ?thesis by (auto simp: emitted_rebootRequiredInPod)
qed

definition flakyPodEnv :: env where
  "flakyPodEnv = sampleEnv\<lparr>eGetPod := (\<lambda>h ns n.
     if list_ex (\<lambda>e. case e of EvGetPod _ _ _ \<Rightarrow> True | _ \<Rightarrow> False) h then Inl (ExtError ''timeout'')
     else eGetPod sampleEnv h ns n)\<rparr>"

theorem reboot_check_leaks_pod_witness:
  "\<forall>ns x. EvDeletePod ns ''reboot-required-x1'' x \<notin>
     set (emitted (IsRebootRequired flakyPodEnv \<lparr>rmNamespace = ''ns''\<rparr> ''n1'') [])"
proof -
  let ?m = "IsRebootRequired flakyPodEnv \<lparr>rmNamespace = ''ns''\<rparr> ''n1''"
  let ?p = "hd (createdPods (emitted ?m []))"
  have "createdPods (emitted ?m []) \<noteq> []" by code_simp
  then have "?p \<in> set (createdPods (emitted ?m []))" by simp
  moreover have n: "pName ?p = ''reboot-required-x1''" by code_simp
  moreover have "polls_only flakyPodEnv" by (rule pollOnce_only) (simp add: flakyPodEnv_def)
  moreover have "eErrPod flakyPodEnv = Some emptyPod" by (simp add: flakyPodEnv_def sampleEnv_def)
  moreover have "pName emptyPod \<noteq> pName ?p" unfolding n by (simp add: emptyPod_def)
  moreover have "result ?m [] = Err (Errorf ''failed to get reboot-required pod: '' (ExtError ''timeout''))"
    by code_simp
  ultimately show ?thesis
    using reboot_check_leaks_pod [of flakyPodEnv emptyPod ?p "\<lparr>rmNamespace = ''ns''\<rparr>" "''n1''" "[]"]
    by auto
qed

section \<open>The reboot and its check\<close>

text \<open>C24. The gate of the reboot. \<open>RebootNode\<close> creates at most one pod, and only when the nodes are
  not containers and the read of the cluster node at its start showed it cordoned; the pod is bound to
  the node to be rebooted, lives in the manager's namespace, shares the host's process namespace and
  sends signal 39 to process 1, with neither privileged mode nor privilege escalation.\<close>

theorem reboot_pod_gate:
  assumes "EvCreatePod p x \<in> set (emitted (RebootNode E r node) h)"
  shows "\<not> cfContainerNode (eConfig E) \<and>
    (\<exists>k. eGetClusterNode E h (Name node) = Inr k \<and> kUnschedulable k \<and>
       emitted (RebootNode E r node) h =
         [EvGetClusterNode (Name node) (Inr k),
          EvRecord (Name node) EventTypeNormal ''Reboot'' ''Rebooting node'', EvCreatePod p x] @
         (case x of Inr _ \<Rightarrow> [] | Inl e \<Rightarrow>
            [EvRecord (Name node) EventTypeWarning ''Reboot'' (''Failed to create reboot pod: '' @ Error e)])) \<and>
    pdNodeName (pSpec p) = Name node \<and> pNamespace p = rmNamespace r \<and> pdHostPID (pSpec p) \<and>
    (\<exists>c sc. pdContainers (pSpec p) = [c] \<and> cCommand c = [''kill'', ''-39'', ''1''] \<and>
       cSecurityContext c = Some sc \<and> \<not> scPrivileged sc \<and> \<not> scAllowPrivilegeEscalation sc)"
proof -
  let ?g = "EvGetClusterNode (Name node)" and ?ev = "EvRecord (Name node) EventTypeNormal ''Reboot'' ''Rebooting node''"
  note run = RebootNode_def run_simps run_GetNode emitted_attempt createPod_def eventf_def
  from assms obtain k where k: "eGetClusterNode E h (Name node) = Inr k" "kUnschedulable k"
    "\<not> cfContainerNode (eConfig E)"
    by (cases "eGetClusterNode E h (Name node)") (auto simp: run split: if_splits)
  with assms obtain spec where spec: "rebootNodePod E r (Name node) = Ok spec"
    by (cases "rebootNodePod E r (Name node)") (auto simp: run)
  let ?x = "eCreatePod E (h @ [?g (Inr k), ?ev]) spec"
  have em: "emitted (RebootNode E r node) h = [?g (Inr k), ?ev, EvCreatePod spec ?x] @
      (case ?x of Inr _ \<Rightarrow> [] | Inl e \<Rightarrow>
         [EvRecord (Name node) EventTypeWarning ''Reboot'' (''Failed to create reboot pod: '' @ Error e)])"
    using k spec by (cases ?x) (simp_all add: run)
  with assms have "p = spec" "x = ?x" by (auto split: sum.splits)
  with em k spec show ?thesis by (auto simp: rebootNodePod_def)
qed

text \<open>A cordoned node on a cluster of real machines: the gate is open.\<close>

definition cordonedEnv :: env where
  "cordonedEnv = sampleEnv\<lparr>eGetClusterNode := (\<lambda>h n. Inr (sampleKube\<lparr>kName := n, kUnschedulable := True\<rparr>)),
     eCreatePod := (\<lambda>h p. Inl (ExtError ''quota''))\<rparr>"

theorem reboot_pod_gate_witness:
  "\<exists>p k. rebootNodePod cordonedEnv \<lparr>rmNamespace = ''ns''\<rparr> ''n1'' = Ok p \<and>
     pdNodeName (pSpec p) = ''n1'' \<and> kUnschedulable k \<and>
     emitted (RebootNode cordonedEnv \<lparr>rmNamespace = ''ns''\<rparr> sampleNode) [] =
       [EvGetClusterNode ''n1'' (Inr k), EvRecord ''n1'' EventTypeNormal ''Reboot'' ''Rebooting node'',
        EvCreatePod p (Inl (ExtError ''quota'')),
        EvRecord ''n1'' EventTypeWarning ''Reboot'' ''Failed to create reboot pod: quota'']"
proof -
  let ?r = "\<lparr>rmNamespace = ''ns''\<rparr>"
  define p where "p = (case rebootNodePod cordonedEnv ?r ''n1'' of Ok p \<Rightarrow> p | _ \<Rightarrow> emptyPod)"
  have c: "EvCreatePod p (Inl (ExtError ''quota'')) \<in> set (emitted (RebootNode cordonedEnv ?r sampleNode) [])"
    unfolding p_def by code_simp
  have "rebootNodePod cordonedEnv ?r ''n1'' = Ok p" unfolding p_def by code_simp
  moreover have "Name sampleNode = ''n1''" by (simp add: sampleNode_def)
  ultimately show ?thesis using reboot_pod_gate [OF c] by auto
qed

text \<open>C27. When a node counts as rebooted, on real machines: its boot id differs from the one saved before
  the reboot, some \<open>Ready\<close> condition is \<open>True\<close>, and the pods of the reboot manager on it were deleted.
  The saved id alone, or readiness alone, is not enough, and in those cases nothing is touched.\<close>

theorem rebooted_iff:
  assumes "\<not> cfContainerNode (eConfig E)"
  shows "(result (IsNodeRebooted E r k oldBootId) h = Ok True \<longleftrightarrow>
      kBootID k \<noteq> oldBootId \<and> (\<exists>c \<in> set (kConditions k). ncType c = ''Ready'' \<and> ncStatus c = ''True'') \<and>
      result (CleanupNode E r (kName k)) h = Ok ())
    \<and> (result (IsNodeRebooted E r k oldBootId) h = Ok False \<longrightarrow> emitted (IsNodeRebooted E r k oldBootId) h = [])"
  using assms
  by (auto simp: IsNodeRebooted_def run_simps result_wrapf nodeReadyLoop_iff Let_def split: res.splits)

theorem rebooted_iff_witness:
  "result (IsNodeRebooted sampleEnv \<lparr>rmNamespace = ''ns''\<rparr> sampleKube ''boot-0'') [] = Ok True \<and>
   result (IsNodeRebooted sampleEnv \<lparr>rmNamespace = ''ns''\<rparr> sampleKube ''boot-1'') [] \<noteq> Ok True"
proof -
  have "result (CleanupNode sampleEnv \<lparr>rmNamespace = ''ns''\<rparr> (kName sampleKube)) [] = Ok ()" by code_simp
  moreover have "\<not> cfContainerNode (eConfig sampleEnv)" by code_simp
  moreover have "kBootID sampleKube = ''boot-1''" by code_simp
  moreover have "\<exists>c \<in> set (kConditions sampleKube). ncType c = ''Ready'' \<and> ncStatus c = ''True''" by code_simp
  ultimately show ?thesis
    using rebooted_iff [of sampleEnv "\<lparr>rmNamespace = ''ns''\<rparr>" sampleKube] by simp
qed

text \<open>
  The clean-up reaches only pods of the manager's namespace that are bound to the node, and refuses an
  empty name, which would select every node.
\<close>

lemma emitted_CleanupNode:
  "emitted (CleanupNode E r n) h =
     (if n = '''' then [] else
      case eInRequirement E LabelComponent [''reboot-required'', ''reboot''] of
        Inl _ \<Rightarrow> []
      | Inr sel \<Rightarrow>
          (let lo = \<lparr>loLabelSelector = sel, loFieldSelector = ''spec.nodeName='' @ n\<rparr>
           in [EvDeletePods (rmNamespace r) lo (eDeletePods E h (rmNamespace r) lo)]))"
  by (auto simp: CleanupNode_def deletePods_def emitted_call Let_def split: sum.split)

lemma CleanupNode_Ok:
  assumes "result (CleanupNode E r n) h = Ok ()"
  shows "\<exists>lo. loFieldSelector lo = ''spec.nodeName='' @ n \<and>
    emitted (CleanupNode E r n) h = [EvDeletePods (rmNamespace r) lo (Inr ())]"
  using assms
  by (auto simp: CleanupNode_def deletePods_def emitted_call result_call result_wrapf split: res.splits sum.splits if_splits)

text \<open>On containers the pod that removes the marker is bound to the node and runs as root.\<close>

lemma rebootRequiredRemovePod_shape:
  assumes "rebootRequiredPod E r n = Ok q"
  shows "pdNodeName (pSpec (rebootRequiredRemovePod q)) = n"
    and "map cCommand (pdContainers (pSpec (rebootRequiredRemovePod q))) = [[''rm'', ''-f'', ''/host/var/run/reboot-required'']]"
    and "psRunAsUser (pdSecurityContext (pSpec (rebootRequiredRemovePod q))) = Some 0"
  using assms by (auto simp: rebootRequiredPod_def rebootRequiredRemovePod_def Let_def)

end
