(* ===== verification/Plugins.thy ===== *)
theory Plugins
  imports Sample_Env
begin

text \<open>
  The client end of the plugin protocol, \<open>src/api/plugins/drain-client.go\<close>, with the data of the interface
  (\<open>drain.go\<close>). The connection to the plugin is the environment: the fields \<open>ePluginInfo\<close> to \<open>ePostDrain\<close> are the
  methods of the \<open>DrainServiceClient\<close> that the client holds. The other end is the theory \<open>Plugin_Server\<close>.
\<close>

section \<open>The interface\<close>

record DrainPluginInfo =
  ID :: string
  InfoConfigFormat :: ConfigFormat

text \<open>\<open>DrainPluginSettings\<close>, the argument of \<open>Init\<close>: the configuration bytes, nil or not.\<close>

record DrainPluginSettings =
  SettingsConfig :: "string option"

section \<open>The client\<close>

definition DrainClient_PluginInfo :: "env \<Rightarrow> conn \<Rightarrow> DrainPluginInfo op" where
  "DrainClient_PluginInfo E c =
     bind (invokePluginInfo E c) (\<lambda>info.
     ret \<lparr>ID = GetId (Some info), InfoConfigFormat = GetConfigFormat (Some info)\<rparr>)"

definition DrainClient_Init :: "env \<Rightarrow> conn \<Rightarrow> DrainPluginSettings \<Rightarrow> unit op" where
  "DrainClient_Init E c settings =
     bind (invokeInit E c (InitRequest_Build (SettingsConfig settings))) (\<lambda>_. ret ())"

definition DrainClient_IsSupported :: "env \<Rightarrow> conn \<Rightarrow> bool op" where
  "DrainClient_IsSupported E c =
     bind (invokeIsSupported E c) (\<lambda>resp. ret (GetSupported (Some resp)))"

definition DrainClient_IsHealthy :: "env \<Rightarrow> conn \<Rightarrow> bool op" where
  "DrainClient_IsHealthy E c =
     bind (invokeIsHealthy E c) (\<lambda>resp. ret (GetHealthy (Some resp)))"

definition DrainClient_IsDrainOk :: "env \<Rightarrow> conn \<Rightarrow> string \<Rightarrow> bool op" where
  "DrainClient_IsDrainOk E c nodeName =
     bind (invokeIsDrainOk E c (IsDrainOkRequest_Build (Some nodeName))) (\<lambda>resp.
     ret (GetOk (Some resp)))"

definition DrainClient_PreDrain :: "env \<Rightarrow> conn \<Rightarrow> string \<Rightarrow> unit op" where
  "DrainClient_PreDrain E c nodeName =
     bind (invokePreDrain E c (PreDrainRequest_Build (Some nodeName))) (\<lambda>_. ret ())"

definition DrainClient_PostDrain :: "env \<Rightarrow> conn \<Rightarrow> string \<Rightarrow> unit op" where
  "DrainClient_PostDrain E c nodeName =
     bind (invokePostDrain E c (PostDrainRequest_Build (Some nodeName))) (\<lambda>_. ret ())"

lemmas client_defs =
  DrainClient_PluginInfo_def DrainClient_Init_def DrainClient_IsSupported_def
  DrainClient_IsHealthy_def DrainClient_IsDrainOk_def DrainClient_PreDrain_def
  DrainClient_PostDrain_def

end
