(* ===== verification/Drain_Manager.thy ===== *)
theory Drain_Manager
  imports Plugins Sample_Env "HOL-Library.AList"
begin

text \<open>
  The drain manager, \<open>src/internal/utils/drain-manager.go\<close>: it starts the plugins found in
  \<open>/plugins\<close>, registers each under the identifier it reports, and consults all registered plugins
  before, around and after a drain. A Go map is its list of entries; \<open>range_map\<close> visits them in an
  order the environment picks.

  Two loops share one contract each, stated as the locales \<open>verdict_loop\<close> (consult every plugin,
  collect all objections) and \<open>hook_loop\<close> (run a hook on every plugin, stop at the first failure).
\<close>

section \<open>State\<close>

record drainClientInfo =
  dcClient :: conn
  dcInfo :: DrainPluginInfo

record DrainManager =
  drainClients :: "(string \<times> drainClientInfo) list"
  pluginFileId :: "(string \<times> string) list"
  pluginClients :: "(string \<times> string) list"

definition pluginNotSupported :: string where
  "pluginNotSupported = ''Plugin not supported''"

definition pluginEventError :: "string \<Rightarrow> gerror \<Rightarrow> string" where
  "pluginEventError pid err = pid @ '': Error: '' @ Error err"

section \<open>Loading\<close>

text \<open>The client of a plugin is made for the path of its executable; \<open>Client()\<close> starts the process.\<close>

definition initPlugin :: "env \<Rightarrow> string \<Rightarrow> string \<Rightarrow> (DrainPluginInfo \<times> conn) op" where
  "initPlugin E pluginBase client =
     bind (wrapf (''failed to get client for plugin '' @ pluginBase @ '': '') (pluginClient E client)) (\<lambda>c.
     bind (wrapf (''failed to ping plugin '' @ pluginBase @ '': '') (ping E c)) (\<lambda>_.
     bind (wrapf (''failed to dispense plugin '' @ pluginBase @ '': '') (dispense E c ''drain'')) (\<lambda>v.
     case v of
       DispensedOther ty \<Rightarrow> fail (ErrorString (''expected drain plugin '' @ pluginBase @ '': '' @ ty))
     | DispensedDrainClient drainClient \<Rightarrow>
         bind (wrapf (''failed to get plugin info for plugin '' @ pluginBase @ '': '')
                 (DrainClient_PluginInfo E drainClient)) (\<lambda>pluginInfo.
         if ID pluginInfo = '''' then fail (ErrorString (''drain plugin '' @ pluginBase @ '' has no ID''))
         else if InfoConfigFormat pluginInfo = CONFIG_FORMAT_UNSPECIFIED
         then fail (ErrorString (''drain plugin '' @ pluginBase @ '' has no ConfigFormat''))
         else
           bind (wrapf (''failed to get plugin config bytes '' @ pluginBase @ '': '')
                   (of_res (res_of (GetPluginConfig (eKoanf E) (eKoanfState E) (eFormatString E)
                      (InfoConfigFormat pluginInfo) (ID pluginInfo))))) (\<lambda>pluginConfigBytes.
           bind (wrapf (''failed to init plugin '' @ pluginBase @ '': '')
                   (DrainClient_Init E drainClient \<lparr>SettingsConfig = Some pluginConfigBytes\<rparr>)) (\<lambda>_.
           ret (pluginInfo, drainClient)))))))"

text \<open>The loop over the directory entries (a name, and whether it is a directory).\<close>

fun loadEntries ::
  "env \<Rightarrow> DrainManager \<Rightarrow> (string \<times> string) list \<Rightarrow> (string \<times> bool) list \<Rightarrow> DrainManager op" where
  "loadEntries E d foundClients [] = ret (d\<lparr>pluginClients := foundClients\<rparr>)"
| "loadEntries E d foundClients ((name, isDir) # entries) =
     (if isDir then loadEntries E d foundClients entries
      else if Ext name = ''.so'' then
        (let pluginPath = Join ''/plugins'' name;
             pluginBase = Base pluginPath;
             foundClients = AList.update pluginPath pluginPath foundClients
         in bind (wrapf (''failed to initialize plugin '' @ pluginBase @ '': '')
                    (initPlugin E pluginBase pluginPath)) (\<lambda>(info, drainClient).
            if map_of (drainClients d) (ID info) \<noteq> None
            then fail (ErrorString (''drain plugin '' @ pluginBase @ ''('' @ ID info @ '') already initialized''))
            else loadEntries E
                   (d\<lparr>drainClients := AList.update (ID info) \<lparr>dcClient = drainClient, dcInfo = info\<rparr> (drainClients d),
                      pluginFileId := AList.update pluginBase (ID info) (pluginFileId d)\<rparr>)
                   foundClients entries))
      else loadEntries E d foundClients entries)"

definition loadPluginsFromDir :: "env \<Rightarrow> DrainManager \<Rightarrow> DrainManager op" where
  "loadPluginsFromDir E d =
     bind (stat E ''/plugins'') (\<lambda>st.
     case st of
       StatNotExist \<Rightarrow> ret d
     | StatError e \<Rightarrow> fail e
     | _ \<Rightarrow> bind (wrapf ''failed to load plugins: '' (readDir E ''/plugins'')) (\<lambda>entries.
            loadEntries E d [] entries))"

section \<open>Cluster health\<close>

fun conditionsLoop :: "bool \<Rightarrow> NodeCondition list \<Rightarrow> bool" where
  "conditionsLoop allNodesAreReady [] = allNodesAreReady"
| "conditionsLoop allNodesAreReady (condition # cs) =
     conditionsLoop (if ncType condition = ''Ready'' then
                       (if ncStatus condition \<noteq> ''True'' then False else allNodesAreReady)
                     else allNodesAreReady) cs"

fun nodesLoop :: "bool \<Rightarrow> KubeNode list \<Rightarrow> bool" where
  "nodesLoop allNodesAreReady [] = allNodesAreReady"
| "nodesLoop allNodesAreReady (node # nodes) =
     nodesLoop (conditionsLoop allNodesAreReady (kConditions node)) nodes"

definition IsClusterNodesHealthy :: "env \<Rightarrow> bool op" where
  "IsClusterNodesHealthy E = bind (listKubeNodes E) (\<lambda>nodes. ret (nodesLoop True nodes))"

section \<open>Verdicts of the plugins\<close>

text \<open>The loop of \<open>IsHealthy\<close>, with its three variables.\<close>

fun healthyLoop ::
  "env \<Rightarrow> (string \<times> drainClientInfo) list \<Rightarrow> bool \<Rightarrow> gerror list \<Rightarrow> string list \<Rightarrow>
   (bool \<times> gerror list \<times> string list) op" where
  "healthyLoop E [] allModulesHealthy errs pluginStatus = ret (allModulesHealthy, errs, pluginStatus)"
| "healthyLoop E ((pid, client) # rest) allModulesHealthy errs pluginStatus =
     attempt (DrainClient_IsSupported E (dcClient client))
       (\<lambda>err. healthyLoop E rest False (errs @ [err]) (pluginStatus @ [pluginEventError pid err]))
       (\<lambda>isSupported.
          if \<not> isSupported
          then healthyLoop E rest allModulesHealthy errs (pluginStatus @ [pid @ '': '' @ pluginNotSupported])
          else attempt (DrainClient_IsHealthy E (dcClient client))
            (\<lambda>err. healthyLoop E rest False (errs @ [err]) (pluginStatus @ [pluginEventError pid err]))
            (\<lambda>isHealthy.
               if \<not> isHealthy then healthyLoop E rest False errs (pluginStatus @ [pid @ '': Not healthy''])
               else healthyLoop E rest allModulesHealthy errs (pluginStatus @ [pid @ '': OK''])))"

fun boolText :: "bool \<Rightarrow> string" where
  "boolText True = ''true''" | "boolText False = ''false''"

definition IsHealthy :: "env \<Rightarrow> DrainManager \<Rightarrow> Node \<Rightarrow> bool op" where
  "IsHealthy E d node =
     attempt (IsClusterNodesHealthy E)
       (\<lambda>err. bind (eventf (Name node) EventTypeWarning ''Healthy''
                      (''Cluster nodes is not healthy: '' @ boolText False @ '' err: '' @ Error err)) (\<lambda>_.
              fail err))
       (\<lambda>healthy.
          if \<not> healthy
          then bind (eventf (Name node) EventTypeWarning ''Healthy''
                       (''Cluster nodes is not healthy: '' @ boolText healthy @ '' err: <nil>'')) (\<lambda>_.
               ret False)
          else
            bind (range_map E (drainClients d)) (\<lambda>clients.
            bind (healthyLoop E clients True [] []) (\<lambda>(allModulesHealthy, errs, pluginStatus).
            bind (eventf (Name node)
                    (if \<not> allModulesHealthy \<or> errs \<noteq> [] then EventTypeWarning else EventTypeNormal)
                    ''Healthy'' (''IsHealthy:'' @ newline @ join_with newline pluginStatus)) (\<lambda>_.
            if errs \<noteq> [] then fail (Joined errs) else ret allModulesHealthy))))"

fun drainOkLoop ::
  "env \<Rightarrow> string \<Rightarrow> (string \<times> drainClientInfo) list \<Rightarrow> bool \<Rightarrow> gerror list \<Rightarrow> string list \<Rightarrow>
   (bool \<times> gerror list \<times> string list) op" where
  "drainOkLoop E nodeName [] allModulesReadyToDrain errs pluginStatus =
     ret (allModulesReadyToDrain, errs, pluginStatus)"
| "drainOkLoop E nodeName ((pid, client) # rest) allModulesReadyToDrain errs pluginStatus =
     attempt (DrainClient_IsSupported E (dcClient client))
       (\<lambda>err. drainOkLoop E nodeName rest False (errs @ [err]) (pluginStatus @ [pluginEventError pid err]))
       (\<lambda>isSupported.
          if \<not> isSupported
          then drainOkLoop E nodeName rest allModulesReadyToDrain errs
                 (pluginStatus @ [pid @ '': '' @ pluginNotSupported])
          else attempt (DrainClient_IsDrainOk E (dcClient client) nodeName)
            (\<lambda>err. drainOkLoop E nodeName rest False (errs @ [err]) (pluginStatus @ [pluginEventError pid err]))
            (\<lambda>isDrainOk.
               if \<not> isDrainOk
               then drainOkLoop E nodeName rest False errs (pluginStatus @ [pid @ '': Not ready to be drained''])
               else drainOkLoop E nodeName rest allModulesReadyToDrain errs (pluginStatus @ [pid @ '': OK''])))"

definition IsDrainOk :: "env \<Rightarrow> DrainManager \<Rightarrow> Node \<Rightarrow> bool op" where
  "IsDrainOk E d node =
     bind (range_map E (drainClients d)) (\<lambda>clients.
     bind (drainOkLoop E (Name node) clients True [] []) (\<lambda>(allModulesReadyToDrain, errs, pluginStatus).
     bind (eventf (Name node)
             (if \<not> allModulesReadyToDrain \<or> errs \<noteq> [] then EventTypeWarning else EventTypeNormal)
             ''DrainOK'' (''IsDrainOK:'' @ newline @ join_with newline pluginStatus)) (\<lambda>_.
     if errs \<noteq> [] then fail (Joined errs) else ret allModulesReadyToDrain)))"

section \<open>Hooks of the plugins\<close>

fun preDrainLoop :: "env \<Rightarrow> Node \<Rightarrow> (string \<times> drainClientInfo) list \<Rightarrow> unit op" where
  "preDrainLoop E node [] = ret ()"
| "preDrainLoop E node ((pid, client) # rest) =
     bind (DrainClient_IsSupported E (dcClient client)) (\<lambda>isSupported.
     if \<not> isSupported then preDrainLoop E node rest
     else attempt (DrainClient_PreDrain E (dcClient client) (Name node))
       (\<lambda>err. bind (eventf (Name node) EventTypeWarning ''PreDrain''
                      (''PreDrain failed for '' @ pid @ '': '' @ Error err)) (\<lambda>_.
              fail (Errorf (''failed PreDrain on plugin: '' @ pid @ '' '') err)))
       (\<lambda>_. preDrainLoop E node rest))"

definition RunPreDrain :: "env \<Rightarrow> DrainManager \<Rightarrow> Node \<Rightarrow> unit op" where
  "RunPreDrain E d node =
     bind (range_map E (drainClients d)) (\<lambda>clients.
     bind (preDrainLoop E node clients) (\<lambda>_.
     eventf (Name node) EventTypeNormal ''PreDrain'' ''Node PreDrain succeeded''))"

fun postDrainLoop :: "env \<Rightarrow> Node \<Rightarrow> (string \<times> drainClientInfo) list \<Rightarrow> unit op" where
  "postDrainLoop E node [] = ret ()"
| "postDrainLoop E node ((pid, client) # rest) =
     bind (DrainClient_IsSupported E (dcClient client)) (\<lambda>isSupported.
     if \<not> isSupported then postDrainLoop E node rest
     else attempt (DrainClient_PostDrain E (dcClient client) (Name node))
       (\<lambda>err. bind (eventf (Name node) EventTypeWarning ''PostDrain''
                      (''PostDrain failed for '' @ pid @ '': '' @ Error err)) (\<lambda>_.
              fail (Errorf (''failed PostDrain on plugin: '' @ pid @ '' '') err)))
       (\<lambda>_. postDrainLoop E node rest))"

definition RunPostDrain :: "env \<Rightarrow> DrainManager \<Rightarrow> Node \<Rightarrow> unit op" where
  "RunPostDrain E d node =
     bind (range_map E (drainClients d)) (\<lambda>clients.
     bind (postDrainLoop E node clients) (\<lambda>_.
     eventf (Name node) EventTypeNormal ''PostDrain'' ''Node PostDrain succeeded''))"

section \<open>Cluster health is the readiness of all nodes\<close>

lemma conditionsLoop_iff:
  "conditionsLoop b cs \<longleftrightarrow> b \<and> (\<forall>c \<in> set cs. ncType c = ''Ready'' \<longrightarrow> ncStatus c = ''True'')"
  by (induction cs arbitrary: b) auto

definition allReady :: "KubeNode list \<Rightarrow> bool" where
  "allReady ks \<longleftrightarrow> (\<forall>k \<in> set ks. \<forall>c \<in> set (kConditions k). ncType c = ''Ready'' \<longrightarrow> ncStatus c = ''True'')"

lemma nodesLoop_iff: "nodesLoop b ks \<longleftrightarrow> b \<and> allReady ks"
  by (induction ks arbitrary: b) (auto simp: conditionsLoop_iff allReady_def)

lemma run_IsClusterNodesHealthy:
  "result (IsClusterNodesHealthy E) h = res_of (map_sum id allReady (eListKubeNodes E h))"
  "emitted (IsClusterNodesHealthy E) h = [EvListKubeNodes (eListKubeNodes E h)]"
  by (cases "eListKubeNodes E h";
      simp add: IsClusterNodesHealthy_def listKubeNodes_def run_simps nodesLoop_iff)+

section \<open>Reading the plugin calls of a run\<close>

fun pluginError :: "event \<Rightarrow> gerror option" where
  "pluginError (EvIsSupported _ (Inl e)) = Some e"
| "pluginError (EvIsHealthy _ (Inl e)) = Some e"
| "pluginError (EvIsDrainOk _ _ (Inl e)) = Some e"
| "pluginError _ = None"

fun pluginObjects :: "event \<Rightarrow> bool" where
  "pluginObjects (EvIsHealthy _ (Inr r)) = (\<not> GetHealthy (Some r))"
| "pluginObjects (EvIsDrainOk _ _ (Inr r)) = (\<not> GetOk (Some r))"
| "pluginObjects _ = False"

text \<open>The errors the plugins answered with, in order.\<close>

fun pluginErrors :: "history \<Rightarrow> gerror list" where
  "pluginErrors [] = []"
| "pluginErrors (e # es) = (case pluginError e of Some x \<Rightarrow> x # pluginErrors es | None \<Rightarrow> pluginErrors es)"

lemma pluginErrors_append [simp]: "pluginErrors (s @ t) = pluginErrors s @ pluginErrors t"
  by (induction s) (auto split: option.split)

text \<open>
  The calls made to one plugin: whether it is supported and, when it says so, exactly one further
  call, which \<open>ballot\<close> describes.
\<close>

definition consulted :: "(conn \<Rightarrow> event \<Rightarrow> bool) \<Rightarrow> conn \<Rightarrow> history \<Rightarrow> bool" where
  "consulted ballot c t \<longleftrightarrow>
     (\<exists>e. t = [EvIsSupported c (Inl e)]) \<or>
     (\<exists>s. t = [EvIsSupported c (Inr s)] \<and> \<not> GetSupported (Some s)) \<or>
     (\<exists>s b. t = [EvIsSupported c (Inr s), b] \<and> GetSupported (Some s) \<and> ballot c b)"

lemma run_IsSupported:
  "result (DrainClient_IsSupported E c) h = res_of (map_sum id (\<lambda>s. GetSupported (Some s)) (eIsSupported E h c))"
  "emitted (DrainClient_IsSupported E c) h = [EvIsSupported c (eIsSupported E h c)]"
  by (simp_all add: DrainClient_IsSupported_def invokeIsSupported_def result_call_ret emitted_call_ret)

section \<open>The verdict loops\<close>

text \<open>A plugin with fixed answers does not stand in the way: it is not supported, or it says yes.\<close>

definition approves :: "(conn \<Rightarrow> gerror + IsSupportedResponse) \<Rightarrow> (conn \<Rightarrow> bool res) \<Rightarrow> conn \<Rightarrow> bool" where
  "approves supp ans c \<longleftrightarrow> (\<exists>s. supp c = Inr s \<and> (GetSupported (Some s) \<longrightarrow> ans c = Ok True))"

locale verdict_loop =
  fixes E :: env
    and check :: "conn \<Rightarrow> bool op"
    and loop :: "(string \<times> drainClientInfo) list \<Rightarrow> bool \<Rightarrow> gerror list \<Rightarrow> string list \<Rightarrow>
                 (bool \<times> gerror list \<times> string list) op"
    and refusal :: string
    and ballot :: "conn \<Rightarrow> event \<Rightarrow> bool"
  assumes loop_Nil: "loop [] ok errs st = ret (ok, errs, st)"
    and loop_Cons: "loop ((pid, client) # rest) ok errs st =
       attempt (DrainClient_IsSupported E (dcClient client))
         (\<lambda>e. loop rest False (errs @ [e]) (st @ [pluginEventError pid e]))
         (\<lambda>s. if \<not> s then loop rest ok errs (st @ [pid @ '': '' @ pluginNotSupported])
              else attempt (check (dcClient client))
                (\<lambda>e. loop rest False (errs @ [e]) (st @ [pluginEventError pid e]))
                (\<lambda>b. if \<not> b then loop rest False errs (st @ [pid @ refusal])
                     else loop rest ok errs (st @ [pid @ '': OK''])))"
    and run_check: "\<exists>b. emitted (check c) h = [b] \<and> ballot c b \<and>
       result (check c) h = (case pluginError b of Some e \<Rightarrow> Err e | None \<Rightarrow> Ok (\<not> pluginObjects b))"
    and failed_not_objects: "pluginError b = Some e \<Longrightarrow> \<not> pluginObjects b"
begin

text \<open>One round: what the plugin's consultation contributes to the three variables.\<close>

lemma loop_step:
  "\<exists>t st1. consulted ballot (dcClient client) t \<and>
     (let ok1 = (ok \<and> pluginErrors t = [] \<and> \<not> list_ex pluginObjects t); errs1 = errs @ pluginErrors t
      in result (loop ((pid, client) # rest) ok errs st) h = result (loop rest ok1 errs1 st1) (h @ t) \<and>
         emitted (loop ((pid, client) # rest) ok errs st) h = t @ emitted (loop rest ok1 errs1 st1) (h @ t))"
proof -
  let ?c = "dcClient client"
  let ?s = "eIsSupported E h ?c"
  let ?h = "h @ [EvIsSupported ?c ?s]"
  note step = loop_Cons result_attempt emitted_attempt run_IsSupported consulted_def
  obtain b where b: "emitted (check ?c) ?h = [b]" "ballot ?c b"
    "result (check ?c) ?h = (case pluginError b of Some e \<Rightarrow> Err e | None \<Rightarrow> Ok (\<not> pluginObjects b))"
    using run_check by blast
  consider e where "?s = Inl e" | s where "?s = Inr s" "\<not> GetSupported (Some s)" | s where "?s = Inr s" "GetSupported (Some s)"
    by (cases ?s) auto
  then show ?thesis
  proof cases
    case 1
    then show ?thesis
      by (intro exI [of _ "[EvIsSupported ?c ?s]"] exI [of _ "st @ [pluginEventError pid e]"]) (simp add: step)
  next
    case 2
    then show ?thesis
      by (intro exI [of _ "[EvIsSupported ?c ?s]"] exI [of _ "st @ [pid @ '': '' @ pluginNotSupported]"]) (simp add: step)
  next
    case 3
    let ?st = "case pluginError b of Some e \<Rightarrow> st @ [pluginEventError pid e]
      | None \<Rightarrow> if pluginObjects b then st @ [pid @ refusal] else st @ [pid @ '': OK'']"
    from 3 b failed_not_objects [of b] show ?thesis
      by (intro exI [of _ "[EvIsSupported ?c ?s, b]"] exI [of _ ?st]) (auto simp: step split: option.splits)
  qed
qed

text \<open>
  The loop always ends with its three variables, having consulted every plugin in turn; the flag is
  still set exactly when no call failed and none was answered negatively, and the errors are those of
  the failed calls.
\<close>

lemma loop_run:
  "\<exists>ts st'. emitted (loop cs ok errs st) h = concat ts \<and>
     list_all2 (\<lambda>c t. consulted ballot (dcClient (snd c)) t) cs ts \<and>
     result (loop cs ok errs st) h =
       Ok (ok \<and> pluginErrors (concat ts) = [] \<and> \<not> list_ex pluginObjects (concat ts),
           errs @ pluginErrors (concat ts), st')"
proof (induction cs arbitrary: ok errs st h)
  case Nil
  show ?case by (intro exI [of _ "[]"] exI [of _ st]) (simp add: loop_Nil)
next
  case (Cons pc rest)
  obtain pid client where pc: "pc = (pid, client)" by (cases pc)
  let ?ok = "\<lambda>t. ok \<and> pluginErrors t = [] \<and> \<not> list_ex pluginObjects t"
  from loop_step [of client ok errs pid rest st h] obtain t st1 where t: "consulted ballot (dcClient client) t"
    "result (loop (pc # rest) ok errs st) h =
       result (loop rest (?ok t) (errs @ pluginErrors t) st1) (h @ t)"
    "emitted (loop (pc # rest) ok errs st) h =
       t @ emitted (loop rest (?ok t) (errs @ pluginErrors t) st1) (h @ t)"
    unfolding Let_def pc by blast
  from Cons.IH [of "?ok t" "errs @ pluginErrors t" st1 "h @ t"]
  obtain ts st' where ts: "emitted (loop rest (?ok t) (errs @ pluginErrors t) st1) (h @ t) = concat ts"
    "list_all2 (\<lambda>c t. consulted ballot (dcClient (snd c)) t) rest ts"
    "result (loop rest (?ok t) (errs @ pluginErrors t) st1) (h @ t) =
       Ok (?ok t \<and> pluginErrors (concat ts) = [] \<and> \<not> list_ex pluginObjects (concat ts),
           (errs @ pluginErrors t) @ pluginErrors (concat ts), st')" by blast
  with t show ?case by (intro exI [of _ "t # ts"] exI [of _ st']) (auto simp: pc)
qed

text \<open>When every plugin answers the same at any time, the order of the visits does not matter.\<close>

lemma loop_stable:
  assumes "\<And>h c. eIsSupported E h c = supp c" and "\<And>h c. result (check c) h = ans c"
  shows "\<exists>errs' st'. result (loop cs ok errs st) h =
     Ok (ok \<and> (\<forall>c \<in> set cs. approves supp ans (dcClient (snd c))), errs', st') \<and>
     ((\<forall>c \<in> set cs. approves supp ans (dcClient (snd c))) \<longrightarrow> errs' = errs)"
proof (induction cs arbitrary: ok errs st h)
  case Nil
  show ?case by (simp add: loop_Nil)
next
  case (Cons pc rest)
  obtain pid client where pc: "pc = (pid, client)" by (cases pc)
  have np: "ans c \<noteq> Panic p" for c p
    using run_check [of c "[]"] assms(2) [of c "[]"] by (auto split: option.splits)
  note step = pc loop_Cons result_attempt run_IsSupported assms approves_def
  show ?case
  proof (cases "supp (dcClient client)")
    case (Inl e)
    show ?thesis
      using Cons.IH [of False "errs @ [e]" "st @ [pluginEventError pid e]" "h @ [EvIsSupported (dcClient client) (Inl e)]"]
      by (auto simp: step Inl)
  next
    case (Inr s)
    let ?h = "h @ [EvIsSupported (dcClient client) (Inr s)]"
    let ?h' = "?h @ emitted (check (dcClient client)) ?h"
    show ?thesis
    proof (cases "GetSupported (Some s)")
      case False
      then show ?thesis
        using Cons.IH [of ok errs "st @ [pid @ '': '' @ pluginNotSupported]" ?h] by (auto simp: step Inr)
    next
      case True
      show ?thesis
      proof (cases "ans (dcClient client)")
        case (Ok b)
        show ?thesis
          using True Ok Cons.IH [of ok errs "st @ [pid @ '': OK'']" ?h']
            Cons.IH [of False errs "st @ [pid @ refusal]" ?h'] by (cases b) (auto simp: step Inr)
      next
        case (Err e)
        show ?thesis
          using True Err Cons.IH [of False "errs @ [e]" "st @ [pluginEventError pid e]" ?h'] by (auto simp: step Inr)
      next
        case (Panic p)
        with np show ?thesis by simp
      qed
    qed
  qed
qed

end

definition healthBallot :: "conn \<Rightarrow> event \<Rightarrow> bool" where
  "healthBallot c e \<longleftrightarrow> (\<exists>x. e = EvIsHealthy c x)"

definition drainOkBallot :: "string \<Rightarrow> conn \<Rightarrow> event \<Rightarrow> bool" where
  "drainOkBallot n c e \<longleftrightarrow> (\<exists>x. e = EvIsDrainOk c (IsDrainOkRequest_Build (Some n)) x)"

lemma failed_not_objects: "pluginError b = Some e \<Longrightarrow> \<not> pluginObjects b"
  by (cases b rule: pluginError.cases) auto

lemma run_IsHealthy_call:
  "\<exists>b. emitted (DrainClient_IsHealthy E c) h = [b] \<and> healthBallot c b \<and>
     result (DrainClient_IsHealthy E c) h =
       (case pluginError b of Some e \<Rightarrow> Err e | None \<Rightarrow> Ok (\<not> pluginObjects b))"
  by (cases "eIsHealthy E h c")
    (auto simp: DrainClient_IsHealthy_def invokeIsHealthy_def result_call_ret emitted_call_ret healthBallot_def)

lemma run_IsDrainOk_call:
  "\<exists>b. emitted (DrainClient_IsDrainOk E c n) h = [b] \<and> drainOkBallot n c b \<and>
     result (DrainClient_IsDrainOk E c n) h =
       (case pluginError b of Some e \<Rightarrow> Err e | None \<Rightarrow> Ok (\<not> pluginObjects b))"
  by (cases "eIsDrainOk E h c (IsDrainOkRequest_Build (Some n))")
    (auto simp: DrainClient_IsDrainOk_def invokeIsDrainOk_def result_call_ret emitted_call_ret drainOkBallot_def)

interpretation health: verdict_loop E "DrainClient_IsHealthy E" "healthyLoop E" "'': Not healthy''" healthBallot
  for E
  by unfold_locales (auto simp: run_IsHealthy_call failed_not_objects)

interpretation drainOk: verdict_loop E "\<lambda>c. DrainClient_IsDrainOk E c n" "drainOkLoop E n"
    "'': Not ready to be drained''" "drainOkBallot n" for E n
  by unfold_locales (auto simp: run_IsDrainOk_call failed_not_objects)

text \<open>Every client was consulted, in some order, and \<open>t\<close> is the record of all these calls.\<close>

definition consultation :: "(conn \<Rightarrow> event \<Rightarrow> bool) \<Rightarrow> DrainManager \<Rightarrow> history \<Rightarrow> bool" where
  "consultation ballot d t \<longleftrightarrow> (\<exists>cs ts. mset cs = mset (drainClients d) \<and> t = concat ts \<and>
     list_all2 (\<lambda>c t. consulted ballot (dcClient (snd c)) t) cs ts)"

text \<open>The verdict that the record of a consultation stands for.\<close>

definition verdict :: "history \<Rightarrow> bool res" where
  "verdict t = (if pluginErrors t \<noteq> [] then Err (Joined (pluginErrors t))
                else Ok (\<not> list_ex pluginObjects t))"

lemma IsDrainOk_run:
  "\<exists>t ty msg. consultation (drainOkBallot (Name node)) d t \<and>
     emitted (IsDrainOk E d node) h = t @ [EvRecord (Name node) ty ''DrainOK'' msg] \<and>
     result (IsDrainOk E d node) h = verdict t \<and>
     (ty = EventTypeNormal \<longleftrightarrow> verdict t = Ok True)"
proof -
  let ?cs = "shuffle (eMapOrder E h) (drainClients d)"
  obtain ts st where l: "emitted (drainOkLoop E (Name node) ?cs True [] []) h = concat ts"
    "list_all2 (\<lambda>c t. consulted (drainOkBallot (Name node)) (dcClient (snd c)) t) ?cs ts"
    "result (drainOkLoop E (Name node) ?cs True [] []) h =
       Ok (pluginErrors (concat ts) = [] \<and> \<not> list_ex pluginObjects (concat ts), pluginErrors (concat ts), st)"
    using drainOk.loop_run [where cs = ?cs and ok = True and errs = "[]" and st = "[]"] by fastforce
  then have "consultation (drainOkBallot (Name node)) d (concat ts)"
    unfolding consultation_def by (metis mset_shuffle)
  with l show ?thesis
    by (intro exI [of _ "concat ts"]) (auto simp: IsDrainOk_def run_simps verdict_def)
qed

text \<open>C18. The verdict on a drain. \<open>IsDrainOk\<close> consults every registered plugin, whatever the others
  answered; it fails with all errors joined when any call failed, and otherwise returns true exactly
  when no supported plugin answered no. The recorded event is a warning exactly when the verdict is not
  a yes.\<close>

theorem drain_ok_verdict:
  "\<exists>t ty msg. consultation (drainOkBallot (Name node)) d t \<and>
     emitted (IsDrainOk E d node) h = t @ [EvRecord (Name node) ty ''DrainOK'' msg] \<and>
     result (IsDrainOk E d node) h = verdict t \<and>
     (ty = EventTypeNormal \<longleftrightarrow> verdict t = Ok True)"
  by (rule IsDrainOk_run)

lemma IsHealthy_run:
  "case eListKubeNodes E h of
     Inl e \<Rightarrow> result (IsHealthy E d node) h = Err e \<and>
       (\<exists>msg. emitted (IsHealthy E d node) h =
          [EvListKubeNodes (Inl e), EvRecord (Name node) EventTypeWarning ''Healthy'' msg])
   | Inr ks \<Rightarrow>
       if \<not> allReady ks then
         result (IsHealthy E d node) h = Ok False \<and>
         (\<exists>msg. emitted (IsHealthy E d node) h =
            [EvListKubeNodes (Inr ks), EvRecord (Name node) EventTypeWarning ''Healthy'' msg])
       else
         (\<exists>t ty msg. consultation healthBallot d t \<and>
            emitted (IsHealthy E d node) h =
              EvListKubeNodes (Inr ks) # t @ [EvRecord (Name node) ty ''Healthy'' msg] \<and>
            result (IsHealthy E d node) h = verdict t \<and> (ty = EventTypeNormal \<longleftrightarrow> verdict t = Ok True))"
proof (cases "eListKubeNodes E h")
  case (Inl e)
  then show ?thesis
    by (simp add: IsHealthy_def result_attempt emitted_attempt run_simps run_IsClusterNodesHealthy)
next
  case (Inr ks)
  show ?thesis
  proof (cases "allReady ks")
    case False
    with Inr show ?thesis
      by (simp add: IsHealthy_def result_attempt emitted_attempt run_simps run_IsClusterNodesHealthy)
  next
    case True
    let ?h = "h @ [EvListKubeNodes (Inr ks)]"
    let ?cs = "shuffle (eMapOrder E ?h) (drainClients d)"
    obtain ts st where l: "emitted (healthyLoop E ?cs True [] []) ?h = concat ts"
      "list_all2 (\<lambda>c t. consulted healthBallot (dcClient (snd c)) t) ?cs ts"
      "result (healthyLoop E ?cs True [] []) ?h =
         Ok (pluginErrors (concat ts) = [] \<and> \<not> list_ex pluginObjects (concat ts), pluginErrors (concat ts), st)"
      using health.loop_run [where cs = ?cs and ok = True and errs = "[]" and st = "[]"] by fastforce
    then have "consultation healthBallot d (concat ts)"
      unfolding consultation_def by (metis mset_shuffle)
    with l True Inr show ?thesis
      by (auto simp: IsHealthy_def result_attempt emitted_attempt run_simps run_IsClusterNodesHealthy verdict_def
          intro!: exI [of _ "concat ts"])
  qed
qed

text \<open>C19. The verdict on the health of the cluster. \<open>IsHealthy\<close> first lists the cluster nodes: a failed
  list is its error, and a node with a \<open>Ready\<close> condition that is not \<open>True\<close> makes the answer false, in
  both cases without any call to a plugin. Otherwise every registered plugin is consulted and the
  answer is the verdict of the consultation: all errors joined, or whether no supported plugin said it
  is unhealthy.\<close>

theorem health_verdict:
  "case eListKubeNodes E h of
     Inl e \<Rightarrow> result (IsHealthy E d node) h = Err e \<and>
       (\<exists>msg. emitted (IsHealthy E d node) h =
          [EvListKubeNodes (Inl e), EvRecord (Name node) EventTypeWarning ''Healthy'' msg])
   | Inr ks \<Rightarrow>
       if \<not> allReady ks then
         result (IsHealthy E d node) h = Ok False \<and>
         (\<exists>msg. emitted (IsHealthy E d node) h =
            [EvListKubeNodes (Inr ks), EvRecord (Name node) EventTypeWarning ''Healthy'' msg])
       else
         (\<exists>t ty msg. consultation healthBallot d t \<and>
            emitted (IsHealthy E d node) h =
              EvListKubeNodes (Inr ks) # t @ [EvRecord (Name node) ty ''Healthy'' msg] \<and>
            result (IsHealthy E d node) h = verdict t \<and> (ty = EventTypeNormal \<longleftrightarrow> verdict t = Ok True))"
  by (rule IsHealthy_run)

text \<open>The verdict does not depend on the iteration order. When each plugin answers the same at any
  time, \<open>IsDrainOk\<close> returns yes exactly when every registered plugin either says it is not supported or
  says the drain is ok, for every order in which the runtime visits the map.\<close>

lemma drain_ok_order_independent:
  assumes "\<And>h c. eIsSupported E h c = supp c"
    and "\<And>h c. eIsDrainOk E h c (IsDrainOkRequest_Build (Some (Name node))) = ans c"
  shows "result (IsDrainOk E d node) h = Ok True \<longleftrightarrow>
    (\<forall>c \<in> dcClient ` snd ` set (drainClients d). \<exists>s. supp c = Inr s \<and>
       (GetSupported (Some s) \<longrightarrow> (\<exists>r. ans c = Inr r \<and> GetOk (Some r))))"
proof -
  let ?cs = "shuffle (eMapOrder E h) (drainClients d)"
  let ?ans = "\<lambda>c. res_of (map_sum id (\<lambda>r. GetOk (Some r)) (ans c))"
  let ?ok = "\<forall>c \<in> set ?cs. approves supp ?ans (dcClient (snd c))"
  have "result (DrainClient_IsDrainOk E c (Name node)) h =
      res_of (map_sum id (\<lambda>r. GetOk (Some r)) (ans c))" for c h
    by (simp add: DrainClient_IsDrainOk_def invokeIsDrainOk_def result_call_ret assms(2))
  from drainOk.loop_stable [OF assms(1) this, where cs = ?cs and ok = True and errs = "[]" and st = "[]" and h = h]
  obtain errs st where l: "result (drainOkLoop E (Name node) ?cs True [] []) h = Ok (?ok, errs, st)"
    and e: "?ok \<longrightarrow> errs = []" by auto
  have "result (IsDrainOk E d node) h = Ok True \<longleftrightarrow> ?ok"
    using e by (cases ?ok) (simp_all add: IsDrainOk_def run_simps l del: set_shuffle)
  moreover have "(\<exists>r. ans c = Inr r \<and> GetOk (Some r)) \<longleftrightarrow> ?ans c = Ok True" for c
    by (cases "ans c") auto
  ultimately show ?thesis by (simp add: image_image approves_def)
qed

definition oneplugin :: DrainManager where
  "oneplugin = \<lparr>drainClients = [(''example-plugin'', \<lparr>dcClient = ''c1'',
     dcInfo = \<lparr>ID = ''example-plugin'', InfoConfigFormat = CONFIG_FORMAT_YAML\<rparr>\<rparr>)],
     pluginFileId = [], pluginClients = []\<rparr>"

lemma drain_ok_order_independent_witness:
  "result (IsDrainOk sampleEnv oneplugin sampleNode) [] = Ok True"
proof -
  have "eIsSupported sampleEnv h c = Inr (IsSupportedResponse_Build (Some True))"
    "eIsDrainOk sampleEnv h c rq = Inr (IsDrainOkResponse_Build (Some True))" for h c rq
    by (simp_all add: sampleEnv_def)
  from drain_ok_order_independent [where node = sampleNode and d = oneplugin, OF this]
  show ?thesis by (simp add: proto_simps)
qed

section \<open>The hook loops\<close>

text \<open>
  The calls made to a plugin whose hook is done: it is not supported, or the hook returned without an
  error. \<open>hookEv\<close> is the event of the hook.
\<close>

definition hooked :: "(conn \<Rightarrow> gerror + unit \<Rightarrow> event) \<Rightarrow> conn \<Rightarrow> history \<Rightarrow> bool" where
  "hooked hookEv c t \<longleftrightarrow>
     (\<exists>s. t = [EvIsSupported c (Inr s)] \<and> \<not> GetSupported (Some s)) \<or>
     (\<exists>s. t = [EvIsSupported c (Inr s), hookEv c (Inr ())] \<and> GetSupported (Some s))"

text \<open>The calls made to the plugin that stopped the loop, and the error the loop returns.\<close>

definition stopped ::
  "(conn \<Rightarrow> gerror + unit \<Rightarrow> event) \<Rightarrow> (string \<Rightarrow> gerror \<Rightarrow> event) \<Rightarrow> string \<Rightarrow>
   string \<Rightarrow> conn \<Rightarrow> history \<Rightarrow> gerror \<Rightarrow> bool" where
  "stopped hookEv warnEv msg pid c t e \<longleftrightarrow>
     t = [EvIsSupported c (Inl e)] \<or>
     (\<exists>s x. t = [EvIsSupported c (Inr s), hookEv c (Inl x), warnEv pid x] \<and> GetSupported (Some s) \<and>
        e = Errorf (msg @ pid @ '' '') x)"

text \<open>Every client's hook is done, in some order, and \<open>t\<close> is the record of all these calls.\<close>

definition allHooked :: "(conn \<Rightarrow> gerror + unit \<Rightarrow> event) \<Rightarrow> DrainManager \<Rightarrow> history \<Rightarrow> bool" where
  "allHooked hookEv d t \<longleftrightarrow> (\<exists>cs ts. mset cs = mset (drainClients d) \<and> t = concat ts \<and>
     list_all2 (\<lambda>c t. hooked hookEv (dcClient (snd c)) t) cs ts)"

text \<open>The hooks of some clients are done, then one client stopped the loop with error \<open>e\<close>.\<close>

definition hookFailed ::
  "(conn \<Rightarrow> gerror + unit \<Rightarrow> event) \<Rightarrow> (string \<Rightarrow> gerror \<Rightarrow> event) \<Rightarrow> string \<Rightarrow> DrainManager \<Rightarrow> history \<Rightarrow> gerror \<Rightarrow> bool" where
  "hookFailed hookEv warnEv msg d t e \<longleftrightarrow>
     (\<exists>pre pid client rest ts u. mset (pre @ (pid, client) # rest) = mset (drainClients d) \<and>
        t = concat ts @ u \<and> list_all2 (\<lambda>c t. hooked hookEv (dcClient (snd c)) t) pre ts \<and>
        stopped hookEv warnEv msg pid (dcClient client) u e)"

locale hook_loop =
  fixes E :: env
    and hook :: "conn \<Rightarrow> unit op"
    and loop :: "(string \<times> drainClientInfo) list \<Rightarrow> unit op"
    and hookEv :: "conn \<Rightarrow> gerror + unit \<Rightarrow> event"
    and warnEv :: "string \<Rightarrow> gerror \<Rightarrow> event"
    and msg :: string
  assumes loop_Nil: "loop [] = ret ()"
    and loop_Cons: "loop ((pid, client) # rest) =
       bind (DrainClient_IsSupported E (dcClient client)) (\<lambda>s.
       if \<not> s then loop rest
       else attempt (hook (dcClient client))
         (\<lambda>e. bind (emit (warnEv pid e)) (\<lambda>_. fail (Errorf (msg @ pid @ '' '') e)))
         (\<lambda>_. loop rest))"
    and run_hook: "\<exists>x. emitted (hook c) h = [hookEv c x] \<and> result (hook c) h = res_of x"
begin

text \<open>How a run over some clients ends.\<close>

definition outcome :: "(string \<times> drainClientInfo) list \<Rightarrow> history \<Rightarrow> bool" where
  "outcome cs h \<longleftrightarrow> (case result (loop cs) h of
     Ok _ \<Rightarrow> \<exists>ts. emitted (loop cs) h = concat ts \<and> list_all2 (\<lambda>c t. hooked hookEv (dcClient (snd c)) t) cs ts
   | Err e \<Rightarrow> \<exists>pre pid client rest ts t. cs = pre @ (pid, client) # rest \<and>
       emitted (loop cs) h = concat ts @ t \<and>
       list_all2 (\<lambda>c t. hooked hookEv (dcClient (snd c)) t) pre ts \<and>
       stopped hookEv warnEv msg pid (dcClient client) t e
   | Panic _ \<Rightarrow> False)"

lemma loop_done:
  assumes IH: "outcome rest (h @ t)"
    and go: "result (loop (pc # rest)) h = result (loop rest) (h @ t)" "emitted (loop (pc # rest)) h = t @ emitted (loop rest) (h @ t)"
    and t: "hooked hookEv (dcClient (snd pc)) t"
  shows "outcome (pc # rest) h"
proof (cases "result (loop rest) (h @ t)")
  case (Ok u)
  with IH obtain ts where "emitted (loop rest) (h @ t) = concat ts"
    "list_all2 (\<lambda>c t. hooked hookEv (dcClient (snd c)) t) rest ts" by (auto simp: outcome_def)
  with Ok go t show ?thesis by (simp add: outcome_def) (intro exI [of _ "t # ts"]; simp)
next
  case (Err e)
  with IH obtain pre pid' client' rest' ts t' where
    "rest = pre @ (pid', client') # rest'" "emitted (loop rest) (h @ t) = concat ts @ t'"
    "list_all2 (\<lambda>c t. hooked hookEv (dcClient (snd c)) t) pre ts"
    "stopped hookEv warnEv msg pid' (dcClient client') t' e" by (auto simp: outcome_def)
  with go t have "pc # rest = (pc # pre) @ (pid', client') # rest'"
    "emitted (loop (pc # rest)) h = concat (t # ts) @ t'"
    "list_all2 (\<lambda>c t. hooked hookEv (dcClient (snd c)) t) (pc # pre) (t # ts)"
    "stopped hookEv warnEv msg pid' (dcClient client') t' e"
    by simp_all
  with Err go(1) show ?thesis by (simp only: outcome_def res.case) blast
qed (use IH in \<open>simp add: outcome_def\<close>)

lemma loop_run:
  "outcome cs h"
proof (induction cs arbitrary: h)
  case Nil
  show ?case by (simp add: outcome_def loop_Nil)
next
  case (Cons pc rest)
  obtain pid client where pc: "pc = (pid, client)" by (cases pc)
  let ?c = "dcClient client"
  note step = pc loop_Cons run_simps result_attempt emitted_attempt run_IsSupported
  note cons = loop_done [OF Cons.IH, where h = h and pc = pc]
  show ?case
  proof (cases "eIsSupported E h ?c")
    case (Inl e)
    then show ?thesis
      by (simp add: step outcome_def) (intro exI [of _ "[]"] exI; simp add: stopped_def)
  next
    case (Inr s)
    let ?h = "h @ [EvIsSupported ?c (Inr s)]"
    obtain x where x: "emitted (hook ?c) ?h = [hookEv ?c x]" "result (hook ?c) ?h = res_of x"
      using run_hook by blast
    consider "\<not> GetSupported (Some s)" | "GetSupported (Some s)" "x = Inr ()" | e where "GetSupported (Some s)" "x = Inl e"
      by (cases x) auto
    then show ?thesis
    proof cases
      case 1
      with Inr show ?thesis
        by (intro cons [where t = "[EvIsSupported ?c (Inr s)]"]) (simp_all add: step hooked_def)
    next
      case 2
      with Inr x show ?thesis
        by (intro cons [where t = "[EvIsSupported ?c (Inr s), hookEv ?c (Inr ())]"]) (simp_all add: step hooked_def)
    next
      case 3
      with Inr x show ?thesis
        by (simp add: step outcome_def) (intro exI [of _ "[]"] exI; simp add: stopped_def)
    qed
  qed
qed

text \<open>A run over all registered clients, with an event at the end.\<close>

lemma run_hooks:
  fixes d okEv
  defines "m \<equiv> bind (range_map E (drainClients d)) (\<lambda>cs. bind (loop cs) (\<lambda>_. emit okEv))"
  shows "case result m h of
     Ok _ \<Rightarrow> \<exists>t. allHooked hookEv d t \<and> emitted m h = t @ [okEv]
   | Err e \<Rightarrow> hookFailed hookEv warnEv msg d (emitted m h) e
   | Panic _ \<Rightarrow> False"
proof -
  let ?cs = "shuffle (eMapOrder E h) (drainClients d)"
  note run = loop_run [of ?cs h, unfolded outcome_def]
  show ?thesis
  proof (cases "result (loop ?cs) h")
    case (Ok u)
    with run obtain ts where ts: "emitted (loop ?cs) h = concat ts"
      "list_all2 (\<lambda>c t. hooked hookEv (dcClient (snd c)) t) ?cs ts" by auto
    then have "allHooked hookEv d (concat ts)"
      unfolding allHooked_def by (metis mset_shuffle)
    with Ok ts show ?thesis by (auto simp: m_def run_simps)
  next
    case (Err e)
    with run have "hookFailed hookEv warnEv msg d (emitted (loop ?cs) h) e"
      by (simp only: res.case hookFailed_def) (metis mset_shuffle)
    with Err show ?thesis by (simp add: m_def run_simps)
  next
    case (Panic p)
    with run show ?thesis by simp
  qed
qed

end

definition preDrainEv :: "string \<Rightarrow> conn \<Rightarrow> gerror + unit \<Rightarrow> event" where
  "preDrainEv n c x = EvPreDrain c (PreDrainRequest_Build (Some n)) x"

definition postDrainEv :: "string \<Rightarrow> conn \<Rightarrow> gerror + unit \<Rightarrow> event" where
  "postDrainEv n c x = EvPostDrain c (PostDrainRequest_Build (Some n)) x"

definition preDrainWarn :: "string \<Rightarrow> string \<Rightarrow> gerror \<Rightarrow> event" where
  "preDrainWarn n pid e = EvRecord n EventTypeWarning ''PreDrain'' (''PreDrain failed for '' @ pid @ '': '' @ Error e)"

definition postDrainWarn :: "string \<Rightarrow> string \<Rightarrow> gerror \<Rightarrow> event" where
  "postDrainWarn n pid e = EvRecord n EventTypeWarning ''PostDrain'' (''PostDrain failed for '' @ pid @ '': '' @ Error e)"

lemma run_PreDrain_call:
  "\<exists>x. emitted (DrainClient_PreDrain E c n) h = [preDrainEv n c x] \<and> result (DrainClient_PreDrain E c n) h = res_of x"
  by (cases "ePreDrain E h c (PreDrainRequest_Build (Some n))")
    (simp_all add: DrainClient_PreDrain_def invokePreDrain_def preDrainEv_def run_simps)

lemma run_PostDrain_call:
  "\<exists>x. emitted (DrainClient_PostDrain E c n) h = [postDrainEv n c x] \<and> result (DrainClient_PostDrain E c n) h = res_of x"
  by (cases "ePostDrain E h c (PostDrainRequest_Build (Some n))")
    (simp_all add: DrainClient_PostDrain_def invokePostDrain_def postDrainEv_def run_simps)

interpretation preDrain: hook_loop E "\<lambda>c. DrainClient_PreDrain E c (Name node)" "preDrainLoop E node"
    "preDrainEv (Name node)" "preDrainWarn (Name node)" "''failed PreDrain on plugin: ''" for E node
  by unfold_locales (simp_all add: eventf_def preDrainWarn_def run_PreDrain_call cong: if_cong)

interpretation postDrain: hook_loop E "\<lambda>c. DrainClient_PostDrain E c (Name node)" "postDrainLoop E node"
    "postDrainEv (Name node)" "postDrainWarn (Name node)" "''failed PostDrain on plugin: ''" for E node
  by unfold_locales (simp_all add: eventf_def postDrainWarn_def run_PostDrain_call cong: if_cong)

lemma RunPreDrain_run:
  "case result (RunPreDrain E d node) h of
     Ok _ \<Rightarrow> \<exists>t. allHooked (preDrainEv (Name node)) d t \<and> emitted (RunPreDrain E d node) h =
        t @ [EvRecord (Name node) EventTypeNormal ''PreDrain'' ''Node PreDrain succeeded'']
   | Err e \<Rightarrow> hookFailed (preDrainEv (Name node)) (preDrainWarn (Name node)) ''failed PreDrain on plugin: '' d
        (emitted (RunPreDrain E d node) h) e
   | Panic _ \<Rightarrow> False"
  unfolding RunPreDrain_def eventf_def by (rule preDrain.run_hooks)

text \<open>C20. The PreDrain hooks. \<open>RunPreDrain\<close> succeeds only when every registered plugin either says it is
  not supported or ran its PreDrain hook for this node without an error; otherwise it stops at the
  first failing call, asks no further plugin and returns that error. It never panics.\<close>

theorem pre_drain_hooks:
  "case result (RunPreDrain E d node) h of
     Ok _ \<Rightarrow> \<exists>t. allHooked (preDrainEv (Name node)) d t \<and> emitted (RunPreDrain E d node) h =
        t @ [EvRecord (Name node) EventTypeNormal ''PreDrain'' ''Node PreDrain succeeded'']
   | Err e \<Rightarrow> hookFailed (preDrainEv (Name node)) (preDrainWarn (Name node)) ''failed PreDrain on plugin: '' d
        (emitted (RunPreDrain E d node) h) e
   | Panic _ \<Rightarrow> False"
  by (rule RunPreDrain_run)

lemma RunPostDrain_run:
  "case result (RunPostDrain E d node) h of
     Ok _ \<Rightarrow> \<exists>t. allHooked (postDrainEv (Name node)) d t \<and> emitted (RunPostDrain E d node) h =
        t @ [EvRecord (Name node) EventTypeNormal ''PostDrain'' ''Node PostDrain succeeded'']
   | Err e \<Rightarrow> hookFailed (postDrainEv (Name node)) (postDrainWarn (Name node)) ''failed PostDrain on plugin: '' d
        (emitted (RunPostDrain E d node) h) e
   | Panic _ \<Rightarrow> False"
  unfolding RunPostDrain_def eventf_def by (rule postDrain.run_hooks)

text \<open>The PostDrain hooks. \<open>RunPostDrain\<close> succeeds only when every registered plugin either says it
  is not supported or ran its PostDrain hook for this node without an error; otherwise it stops at the
  first failing call and returns that error.\<close>

lemma post_drain_hooks:
  "case result (RunPostDrain E d node) h of
     Ok _ \<Rightarrow> \<exists>t. allHooked (postDrainEv (Name node)) d t \<and> emitted (RunPostDrain E d node) h =
        t @ [EvRecord (Name node) EventTypeNormal ''PostDrain'' ''Node PostDrain succeeded'']
   | Err e \<Rightarrow> hookFailed (postDrainEv (Name node)) (postDrainWarn (Name node)) ''failed PostDrain on plugin: '' d
        (emitted (RunPostDrain E d node) h) e
   | Panic _ \<Rightarrow> False"
  by (rule RunPostDrain_run)

section \<open>Registration\<close>

text \<open>What the manager knows of a registered plugin after the calls in \<open>t\<close>.\<close>

definition registered :: "env \<Rightarrow> history \<Rightarrow> string \<times> drainClientInfo \<Rightarrow> bool" where
  "registered E t = (\<lambda>(pid, client).
     pid \<noteq> '''' \<and> ID (dcInfo client) = pid \<and> InfoConfigFormat (dcInfo client) \<noteq> CONFIG_FORMAT_UNSPECIFIED \<and>
     (\<exists>cfg. GetPluginConfig (eKoanf E) (eKoanfState E) (eFormatString E) (InfoConfigFormat (dcInfo client)) pid = Inr cfg \<and>
        EvInit (dcClient client) (InitRequest_Build (Some cfg)) (Inr ()) \<in> set t))"

lemma registered_mono: "registered E t x \<Longrightarrow> set t \<subseteq> set t' \<Longrightarrow> registered E t' x"
  by (cases x) (auto simp: registered_def)

lemma registered_append: "registered E s x \<or> registered E t x \<Longrightarrow> registered E (s @ t) x"
  by (auto intro: registered_mono)

definition isPluginFile :: "string \<times> bool \<Rightarrow> bool" where
  "isPluginFile = (\<lambda>(name, isDir). \<not> isDir \<and> Ext name = ''.so'')"

lemma initPlugin_Ok:
  assumes "result (initPlugin E b p) h = Ok (info, c)"
  shows "registered E (emitted (initPlugin E b p) h) (ID info, \<lparr>dcClient = c, dcInfo = info\<rparr>)"
  using assms
  by (auto simp: initPlugin_def run_simps result_wrapf DrainClient_Init_def invokeInit_def registered_def
      split: res.splits dispensed.splits if_splits)

lemma update_new: "map_of al k = None \<Longrightarrow> AList.update k v al = al @ [(k, v)]"
  by (induction al) (auto split: if_splits)

lemma loadEntries_Ok:
  assumes "result (loadEntries E d found es) h = Ok d'"
  shows "(distinct (map fst (drainClients d)) \<longrightarrow> distinct (map fst (drainClients d'))) \<and>
    length (drainClients d') = length (drainClients d) + length (filter isPluginFile es) \<and>
    (\<forall>x \<in> set (drainClients d'). x \<in> set (drainClients d) \<or> registered E (emitted (loadEntries E d found es) h) x)"
  using assms
proof (induction es arbitrary: d found h)
  case Nil
  then show ?case by auto
next
  case (Cons ent es)
  obtain name isDir where ent: "ent = (name, isDir)" by (cases ent)
  show ?case
  proof (cases "isPluginFile ent")
    case False
    with Cons show ?thesis by (auto simp: ent isPluginFile_def split: if_splits)
  next
    case True
    let ?p = "Join ''/plugins'' name"
    let ?init = "initPlugin E (Base ?p) ?p"
    from True Cons.prems obtain info c where ok: "result ?init h = Ok (info, c)"
      and new: "map_of (drainClients d) (ID info) = None"
      by (auto simp: ent isPluginFile_def Let_def run_simps result_wrapf split: res.splits prod.splits if_splits)
    let ?h = "h @ emitted ?init h"
    let ?d = "d\<lparr>drainClients := AList.update (ID info) \<lparr>dcClient = c, dcInfo = info\<rparr> (drainClients d),
                pluginFileId := AList.update (Base ?p) (ID info) (pluginFileId d)\<rparr>"
    let ?next = "loadEntries E ?d (AList.update ?p ?p found) es"
    have run: "result (loadEntries E d found (ent # es)) h = result ?next ?h"
      "emitted (loadEntries E d found (ent # es)) h = emitted ?init h @ emitted ?next ?h"
      using True ok new by (auto simp: ent isPluginFile_def Let_def run_simps result_wrapf)
    from new have upd: "drainClients ?d = drainClients d @ [(ID info, \<lparr>dcClient = c, dcInfo = info\<rparr>)]"
      by (simp add: update_new)
    from Cons.prems run have "result ?next ?h = Ok d'" by simp
    note IH = Cons.IH [OF this, unfolded upd]
    have 1: "distinct (map fst (drainClients d)) \<longrightarrow> distinct (map fst (drainClients d'))"
      using IH new by (auto simp: map_of_eq_None_iff)
    have 2: "length (drainClients d') = length (drainClients d) + length (filter isPluginFile (ent # es))"
      using IH True by simp
    have 3: "x \<in> set (drainClients d) \<or> registered E (emitted ?init h @ emitted ?next ?h) x"
      if "x \<in> set (drainClients d')" for x
      using that IH registered_append [of E _ x] initPlugin_Ok [OF ok] by fastforce
    show ?thesis unfolding run using 1 2 3 by blast
  qed
qed

lemma loadPluginsFromDir_Ok:
  assumes "result (loadPluginsFromDir E d0) h = Ok d" and "drainClients d0 = []"
    and "eStat E h ''/plugins'' \<noteq> StatNotExist"
  shows "\<exists>es. EvReadDir ''/plugins'' (Inr es) \<in> set (emitted (loadPluginsFromDir E d0) h) \<and>
      length (drainClients d) = length (filter isPluginFile es) \<and>
      distinct (map fst (drainClients d)) \<and>
      (\<forall>x \<in> set (drainClients d). registered E (emitted (loadPluginsFromDir E d0) h) x)"
proof -
  let ?t = "[EvStat ''/plugins'' (eStat E h ''/plugins'')]"
  have st: "result (stat E ''/plugins'') h = Ok (eStat E h ''/plugins'')" "emitted (stat E ''/plugins'') h = ?t"
    by (simp_all add: stat_def ask_def result_def emitted_def)
  from assms(1,3) obtain es where es: "eReadDir E (h @ ?t) ''/plugins'' = Inr es"
    by (cases "eReadDir E (h @ ?t) ''/plugins''")
      (auto simp: loadPluginsFromDir_def run_simps st result_wrapf readDir_def split: stat_result.splits)
  let ?h = "h @ ?t @ [EvReadDir ''/plugins'' (Inr es)]"
  from assms(1,3) es have "result (loadEntries E d0 [] es) ?h = Ok d"
    "emitted (loadPluginsFromDir E d0) h = ?t @ EvReadDir ''/plugins'' (Inr es) # emitted (loadEntries E d0 [] es) ?h"
    by (auto simp: loadPluginsFromDir_def run_simps st result_wrapf readDir_def split: stat_result.splits)
  with loadEntries_Ok [OF this(1)] assms(2) show ?thesis
    by (auto intro!: exI [of _ es] intro: registered_mono)
qed

lemma loaded_registered:
  assumes "result (loadPluginsFromDir E d0) h = Ok d" and "drainClients d0 = []" and "x \<in> set (drainClients d)"
  shows "registered E (emitted (loadPluginsFromDir E d0) h) x"
proof (cases "eStat E h ''/plugins'' = StatNotExist")
  case True
  then have "d = d0" using assms(1)
    by (simp add: loadPluginsFromDir_def result_bind stat_def ask_def result_def emitted_def bind_def ret_def)
  with assms(2,3) show ?thesis by simp
next
  case False
  with loadPluginsFromDir_Ok [OF assms(1,2)] assms(3) show ?thesis by blast
qed

text \<open>C21. Plugin registration. When the plugins of the directory are loaded into an empty manager
  without an error, there is exactly one registered plugin per \<open>.so\<close> file, no two share an identifier,
  and each is registered under the non-empty identifier it reported, with a configuration format, after
  its \<open>Init\<close> succeeded with the configuration section of that identifier. One plugin that fails any of
  these makes the whole load fail.\<close>

theorem plugin_registration:
  assumes "result (loadPluginsFromDir E d0) h = Ok d" and "drainClients d0 = []"
    and "eStat E h ''/plugins'' \<noteq> StatNotExist"
  shows "\<exists>es. EvReadDir ''/plugins'' (Inr es) \<in> set (emitted (loadPluginsFromDir E d0) h) \<and>
      length (drainClients d) = length (filter isPluginFile es) \<and>
      distinct (map fst (drainClients d)) \<and>
      (\<forall>x \<in> set (drainClients d). registered E (emitted (loadPluginsFromDir E d0) h) x)"
  using loadPluginsFromDir_Ok [OF assms] .

definition pluginDirEnv :: env where
  "pluginDirEnv = sampleEnv\<lparr>eReadDir := (\<lambda>h p. Inr [(''a.so'', False), (''notes.txt'', False), (''b.so'', False)])\<rparr>"

theorem plugin_registration_witness:
  "\<exists>d. result (loadPluginsFromDir pluginDirEnv \<lparr>drainClients = [], pluginFileId = [], pluginClients = []\<rparr>) [] = Ok d \<and>
     distinct (map fst (drainClients d)) \<and> map fst (drainClients d) = [''/plugins/a.so'', ''/plugins/b.so'']"
proof -
  let ?d0 = "\<lparr>drainClients = [], pluginFileId = [], pluginClients = []\<rparr>"
  define d where "d = (case result (loadPluginsFromDir pluginDirEnv ?d0) [] of Ok d \<Rightarrow> d | _ \<Rightarrow> ?d0)"
  have "result (loadPluginsFromDir pluginDirEnv ?d0) [] = Ok d" unfolding d_def by code_simp
  moreover have "eStat pluginDirEnv [] ''/plugins'' \<noteq> StatNotExist" by code_simp
  moreover have "map fst (drainClients d) = [''/plugins/a.so'', ''/plugins/b.so'']" unfolding d_def by code_simp
  ultimately show ?thesis using plugin_registration [of pluginDirEnv ?d0 "[]" d] by simp
qed

section \<open>Footprints\<close>

text \<open>Asking the plugins and the node list never writes an object of the cluster.\<close>

definition plugin_event :: "event \<Rightarrow> bool" where
  "plugin_event e = (case e of
       EvListKubeNodes _ \<Rightarrow> True | EvIsSupported _ _ \<Rightarrow> True | EvIsHealthy _ _ \<Rightarrow> True
     | EvIsDrainOk _ _ _ \<Rightarrow> True | EvPreDrain _ _ _ \<Rightarrow> True | EvPostDrain _ _ _ \<Rightarrow> True
     | EvRecord _ _ _ _ \<Rightarrow> True | _ \<Rightarrow> False)"

lemma plugin_event_simps [simp]:
  "plugin_event (EvListKubeNodes x)" "plugin_event (EvIsSupported c s)" "plugin_event (EvIsHealthy c y)"
  "plugin_event (EvIsDrainOk c rq z)" "plugin_event (EvPreDrain c p u)" "plugin_event (EvPostDrain c q u)"
  "plugin_event (EvRecord n ty r m)"
  by (simp_all add: plugin_event_def)

lemma only_client_calls:
  "only plugin_event (DrainClient_IsSupported E c)" "only plugin_event (DrainClient_IsHealthy E c)"
  "only plugin_event (DrainClient_IsDrainOk E c n)" "only plugin_event (DrainClient_PreDrain E c n)"
  "only plugin_event (DrainClient_PostDrain E c n)"
  unfolding client_defs primitive_defs by (intro only_rules only_call; simp)+

lemma only_eventf: "(P (EvRecord n ty r m)) \<Longrightarrow> only P (eventf n ty r m)"
  by (simp add: only_def)

lemma only_loops:
  "only plugin_event (healthyLoop E cs ok errs st)" "only plugin_event (drainOkLoop E n cs ok errs st)"
  "only plugin_event (preDrainLoop E node cs)" "only plugin_event (postDrainLoop E node cs)"
proof (induction cs arbitrary: ok errs st)
  case Nil
  show "only plugin_event (healthyLoop E [] ok errs st)" "only plugin_event (drainOkLoop E n [] ok errs st)"
    "only plugin_event (preDrainLoop E node [])" "only plugin_event (postDrainLoop E node [])" for ok errs st
    by (simp_all add: only_ret)
next
  case (Cons pc cs)
  obtain pid client where pc: "pc = (pid, client)" by (cases pc)
  { case 1 then show ?case unfolding pc healthyLoop.simps by (intro only_rules only_client_calls Cons) }
  { case 2 then show ?case unfolding pc drainOkLoop.simps by (intro only_rules only_client_calls Cons) }
  { case 3 then show ?case unfolding pc preDrainLoop.simps
      by (intro only_rules only_client_calls Cons only_eventf) simp }
  { case 4 then show ?case unfolding pc postDrainLoop.simps
      by (intro only_rules only_client_calls Cons only_eventf) simp }
qed

lemma only_IsClusterNodesHealthy: "only plugin_event (IsClusterNodesHealthy E)"
  by (simp add: only_def run_IsClusterNodesHealthy)

lemma only_drain_manager:
  "only plugin_event (IsHealthy E d node)" "only plugin_event (IsDrainOk E d node)"
  "only plugin_event (RunPreDrain E d node)" "only plugin_event (RunPostDrain E d node)"
  unfolding IsHealthy_def IsDrainOk_def RunPreDrain_def RunPostDrain_def
  by (intro only_rules only_loops only_eventf only_IsClusterNodesHealthy; simp)+

end
