(* ===== verification/Node_Controller.thy ===== *)
theory Node_Controller
  imports Reboot_Manager Drain_Manager
begin

text \<open>
  The node controller, \<open>src/internal/controller/node_controller.go\<close>: one reconciliation of one node.
  The objects \<open>node\<close> and \<open>kubeNode\<close> that the Go code mutates in place are passed along and returned; a
  patch that succeeds replaces the object in memory by the server's answer. \<open>Reconcile\<close> is split where
  the Go function has its blank lines: the switch over the requested state, the check of the reboot
  requirement, the reboot, the work, and the whole.
\<close>

section \<open>Data\<close>

record Result =
  RequeueAfter :: int

definition emptyResult :: Result where
  "emptyResult = \<lparr>RequeueAfter = 0\<rparr>"

record nodeReconciler =
  managerNamespace :: string
  nodeName :: string
  rebootManager :: RebootManager
  drainManager :: DrainManager

definition nodeDrainFinalizer :: string where
  "nodeDrainFinalizer = LabelPrefix @ ''/node''"

section \<open>Writing objects\<close>

definition zeroStatus :: NodeStatus where
  "zeroStatus = \<lparr>Conditions = [], RebootRequiredLastChecked = None, RebootRequired = None,
     Drained = False, CurrentState = '''', BootID = ''''\<rparr>"

definition freshNode :: "KubeNode \<Rightarrow> Node" where
  "freshNode kubeNode =
     (let state = (if kUnschedulable kubeNode then NodeStateCordoned else NodeStateActive)
      in \<lparr>Name = kName kubeNode, Finalizers = [], OwnerReferences = [], DeletionTimestamp = None,
          Spec = \<lparr>State = state\<rparr>, Status = zeroStatus\<rparr>)"

definition createNewNode :: "env \<Rightarrow> KubeNode \<Rightarrow> Result op" where
  "createNewNode E kubeNode =
     (case eSetOwnerReference E kubeNode (freshNode kubeNode) of
        Inl err \<Rightarrow> fail err
      | Inr node \<Rightarrow>
          bind (createNode E (eAddFinalizer E node nodeDrainFinalizer)) (\<lambda>_.
          ret \<lparr>RequeueAfter = 5 * Second\<rparr>))"

definition setDrained :: "env \<Rightarrow> Node \<Rightarrow> bool \<Rightarrow> Node op" where
  "setDrained E node drained =
     wrapf ''failed to update drained status on node: ''
       (patchStatus E node (node\<lparr>Status := (Status node)\<lparr>Drained := drained\<rparr>\<rparr>))"

definition setCurrentState :: "env \<Rightarrow> Node \<Rightarrow> NodeCurrentState \<Rightarrow> Node op" where
  "setCurrentState E node s =
     (if currentState node = s then ret node
      else wrapf ''failed to update current state on node: ''
             (patchStatus E node (node\<lparr>Status := (Status node)\<lparr>CurrentState := s\<rparr>\<rparr>)))"

definition setState :: "env \<Rightarrow> Node \<Rightarrow> NodeState \<Rightarrow> Node op" where
  "setState E node s =
     (if specState node = s then ret node
      else wrapf ''failed to update state on node: ''
             (patchNode E node (node\<lparr>Spec := (Spec node)\<lparr>State := s\<rparr>\<rparr>)))"

definition setUnschedulable :: "env \<Rightarrow> KubeNode \<Rightarrow> bool \<Rightarrow> KubeNode op" where
  "setUnschedulable E kubeNode unschedulable =
     (if kUnschedulable kubeNode \<noteq> unschedulable
      then wrapf ''failed to update unschedulable status on node: ''
             (patchKubeNode E kubeNode (kubeNode\<lparr>kUnschedulable := unschedulable\<rparr>))
      else ret kubeNode)"

definition setBootID :: "env \<Rightarrow> Node \<Rightarrow> KubeNode \<Rightarrow> Node op" where
  "setBootID E node kubeNode =
     (if kBootID kubeNode \<noteq> BootID (Status node)
      then wrapf ''failed to update bootID on node: ''
             (patchStatus E node (node\<lparr>Status := (Status node)\<lparr>BootID := kBootID kubeNode\<rparr>\<rparr>))
      else ret node)"

section \<open>The check for a required reboot\<close>

text \<open>
  Whether the last check is missing or older than the interval; the clock is read only when there was
  a check.
\<close>

definition lastCheckedBefore :: "env \<Rightarrow> Node \<Rightarrow> int \<Rightarrow> bool op" where
  "lastCheckedBefore E node interval =
     (case RebootRequiredLastChecked (Status node) of
        None \<Rightarrow> ret True
      | Some t \<Rightarrow> if t = 0 then ret True else bind (now E) (\<lambda>n. ret (t < n - interval)))"

definition isRebootRequired :: "env \<Rightarrow> nodeReconciler \<Rightarrow> Node \<Rightarrow> (bool \<times> Node) op" where
  "isRebootRequired E r node =
     bind (wrapf ''failed to check if reboot is required: ''
             (IsRebootRequired E (rebootManager r) (Name node))) (\<lambda>required.
     bind (now E) (\<lambda>t.
     bind (wrapf ''failed to update node reboot required last checked: ''
             (patchStatus E node (node\<lparr>Status := (Status node)\<lparr>RebootRequired := Some required,
                RebootRequiredLastChecked := Some t\<rparr>\<rparr>))) (\<lambda>node.
     if required
     then bind (eventf (Name node) EventTypeNormal ''RebootRequired'' ''Reboot is required'') (\<lambda>_. ret (required, node))
     else ret (required, node))))"

definition rebootCheckInterval :: "env \<Rightarrow> int" where
  "rebootCheckInterval E =
     (let i = kDuration (eKoanf E) (eKoanfState E) ''reboot.checkInterval''
      in if i < 5 * Minute then 24 * Hour else i)"

definition checkRebootRequired :: "env \<Rightarrow> nodeReconciler \<Rightarrow> Node \<Rightarrow> Node op" where
  "checkRebootRequired E r node =
     (if WorkState (currentState node) then ret node
      else bind (lastCheckedBefore E node (rebootCheckInterval E)) (\<lambda>due.
           if due then bind (isRebootRequired E r node) (\<lambda>(_, node). ret node) else ret node))"

section \<open>Draining\<close>

definition rescheduleController :: "env \<Rightarrow> nodeReconciler \<Rightarrow> unit op" where
  "rescheduleController E r =
     bind (wrapf ''failed to create clientset: '' (newClientset E)) (\<lambda>_.
     bind (wrapf ''failed to get hostname/podName: '' (hostname E)) (\<lambda>podName.
     deletePodForeground E (managerNamespace r) podName))"

text \<open>The checks before the first step of a drain, made in state \<open>Next\<close> only.\<close>

definition drainChecks :: "env \<Rightarrow> nodeReconciler \<Rightarrow> Node \<Rightarrow> Node op" where
  "drainChecks E r node =
     (if currentState node = NodeCurrentStateNext then
        bind (wrapf ''failed to check if cluster is healthy: '' (IsHealthy E (drainManager r) node)) (\<lambda>healthy.
        if \<not> healthy then fail (ErrorString ''cluster is not healthy'') else
        bind (wrapf (''failed to check if node('' @ Name node @ '') is ok to drain: '')
                (IsDrainOk E (drainManager r) node)) (\<lambda>drainOk.
        if \<not> drainOk then fail (ErrorString (''node('' @ Name node @ '') is not ok to drain'')) else
        setCurrentState E node NodeCurrentStateDraining))
      else ret node)"

definition drainHelper :: DrainHelper where
  "drainHelper = \<lparr>dhGracePeriodSeconds = -1, dhIgnoreAllDaemonSets = True, dhTimeout = 60 * Second,
     dhDeleteEmptyDirData = True\<rparr>"

text \<open>The rest of a drain, on a cordoned node that does not host the controller.\<close>

definition drainCordoned :: "env \<Rightarrow> nodeReconciler \<Rightarrow> Node \<Rightarrow> Node op" where
  "drainCordoned E r node =
     bind (wrapf (''failed to run plugin PreDrain for node('' @ Name node @ ''): '')
             (RunPreDrain E (drainManager r) node)) (\<lambda>_.
     bind (newClientset E) (\<lambda>_.
     bind (wrapf (''failed to cleanup node('' @ Name node @ '') for reboot manager pods: '')
             (CleanupNode E (rebootManager r) (Name node))) (\<lambda>_.
     attempt (runNodeDrain E drainHelper (Name node))
       (\<lambda>err. fail (Joined [ErrorString (''failed to drain node: '' @ Name node), err]))
       (\<lambda>_. bind (wrapf ''failed to update drained status on node: ''
                    (patchStatus E node (node\<lparr>Status := (Status node)\<lparr>Drained := True,
                       CurrentState := NodeCurrentStateDrained\<rparr>\<rparr>))) (\<lambda>node.
            bind (eventf (Name node) EventTypeNormal ''Drained'' ''Node drained successfully'') (\<lambda>_.
            ret node))))))"

text \<open>The result pointer is nil when the drain is over and reconciliation goes on.\<close>

definition drain :: "env \<Rightarrow> nodeReconciler \<Rightarrow> Node \<Rightarrow> KubeNode \<Rightarrow> (Result option \<times> Node \<times> KubeNode) op" where
  "drain E r node kubeNode =
     (if \<not> Drain (specState node) \<or> isDrained node then ret (None, node, kubeNode) else
      bind (drainChecks E r node) (\<lambda>node.
      bind (if \<not> kUnschedulable kubeNode then setUnschedulable E kubeNode True else ret kubeNode) (\<lambda>kubeNode.
      if nodeName r = Name node then
        bind (wrapf ''failed to reschedule controller: '' (rescheduleController E r)) (\<lambda>_.
        ret (Some \<lparr>RequeueAfter = 5 * Minute\<rparr>, node, kubeNode))
      else bind (drainCordoned E r node) (\<lambda>node. ret (None, node, kubeNode)))))"

section \<open>Undraining\<close>

text \<open>
  \<open>undrain\<close> returns whether reconciliation goes on. Its first branch, in state \<open>Undraining\<close>, turns
  every failure except the last write into a requeue. The first half gives back the schedulable node,
  or None when it has to wait.
\<close>

definition undrainUncordon :: "env \<Rightarrow> KubeNode \<Rightarrow> KubeNode option op" where
  "undrainUncordon E kubeNode =
     (if kUnschedulable kubeNode then
        attempt (IsClusterNodesHealthy E) (\<lambda>_. ret None) (\<lambda>healthy.
        if \<not> healthy then ret None else
        attempt (setUnschedulable E kubeNode False) (\<lambda>_. ret None) (\<lambda>kubeNode. ret (Some kubeNode)))
      else ret (Some kubeNode))"

definition requeue30 :: "Node \<Rightarrow> KubeNode \<Rightarrow> bool \<times> Result \<times> Node \<times> KubeNode" where
  "requeue30 node kubeNode = (False, \<lparr>RequeueAfter = 30 * Second\<rparr>, node, kubeNode)"

definition undrainFinish ::
  "env \<Rightarrow> nodeReconciler \<Rightarrow> Node \<Rightarrow> KubeNode \<Rightarrow> (bool \<times> Result \<times> Node \<times> KubeNode) op" where
  "undrainFinish E r node kubeNode =
     bind (undrainUncordon E kubeNode) (\<lambda>uncordoned.
     case uncordoned of
       None \<Rightarrow> ret (requeue30 node kubeNode)
     | Some kubeNode \<Rightarrow>
         attempt (RunPostDrain E (drainManager r) node)
           (\<lambda>_. ret (requeue30 node kubeNode))
           (\<lambda>_. attempt (if isDrained node then setDrained E node False else ret node)
              (\<lambda>_. ret (requeue30 node kubeNode))
              (\<lambda>node. bind (setCurrentState E node NodeCurrentStateOk) (\<lambda>node.
                      bind (eventf (Name node) EventTypeNormal ''Undrain'' ''Undrained successfully'') (\<lambda>_.
                      ret (True, emptyResult, node, kubeNode))))))"

text \<open>The second half: whether a drain that was begun has to be undone.\<close>

definition undrainNeeded :: "Node \<Rightarrow> bool res" where
  "undrainNeeded node =
     (if currentState node = NodeCurrentStateDrained \<or> currentState node = NodeCurrentStateDraining \<or>
         currentState node = NodeCurrentStateRebooting then
        (if specState node = NodeStateActive then Ok True
         else if specState node = NodeStateDrained \<or> specState node = NodeStateRebootIfRequired \<or>
                 specState node = NodeStateCordoned then Ok False
         else Err (ErrorString (''unhandled state for undrain: '' @ specState node)))
      else Ok False)"

definition undrain ::
  "env \<Rightarrow> nodeReconciler \<Rightarrow> Node \<Rightarrow> KubeNode \<Rightarrow> (bool \<times> Result \<times> Node \<times> KubeNode) op" where
  "undrain E r node kubeNode =
     (if currentState node = NodeCurrentStateUndraining then undrainFinish E r node kubeNode
      else bind (of_res (undrainNeeded node)) (\<lambda>needed.
           if needed
           then bind (setCurrentState E node NodeCurrentStateUndraining) (\<lambda>node.
                ret (False, \<lparr>RequeueAfter = 1\<rparr>, node, kubeNode))
           else ret (True, emptyResult, node, kubeNode)))"

section \<open>The queue\<close>

fun someWorks :: "Node list \<Rightarrow> bool" where
  "someWorks [] = False"
| "someWorks (n # ns) = (if WorkState (currentState n) then True else someWorks ns)"

definition isNextNode :: "env \<Rightarrow> Node \<Rightarrow> (bool \<times> Node) op" where
  "isNextNode E node =
     bind (listNodes E) (\<lambda>nodeList.
     if someWorks nodeList then ret (False, node)
     else if currentState node = NodeCurrentStateQueued
     then bind (setCurrentState E node NodeCurrentStateNext) (\<lambda>node. ret (True, node))
     else ret (False, node))"

section \<open>Who cordoned the node\<close>

text \<open>A chain of type assertions on a decoded value: \<open>f["f:spec"]["f:unschedulable"]\<close> is there.\<close>

definition ownsUnschedulable :: "json \<Rightarrow> bool" where
  "ownsUnschedulable f =
     (case f of
        JObject m \<Rightarrow>
          (case map_of m ''f:spec'' of
             Some (JObject s) \<Rightarrow> (case map_of s ''f:unschedulable'' of Some _ \<Rightarrow> True | None \<Rightarrow> False)
           | _ \<Rightarrow> False)
      | _ \<Rightarrow> False)"

fun managerLoop :: "env \<Rightarrow> ManagedFieldsEntry list \<Rightarrow> string" where
  "managerLoop E [] = ''''"
| "managerLoop E (field # rest) =
     (if mfSubresource field \<noteq> '''' then managerLoop E rest
      else case mfFieldsV1 field of
             None \<Rightarrow> managerLoop E rest
           | Some raw \<Rightarrow>
               (case eUnmarshal E raw of
                  Inl _ \<Rightarrow> managerLoop E rest
                | Inr f \<Rightarrow> if ownsUnschedulable f then mfManager field else managerLoop E rest))"

definition getManagerOfUnschedulable :: "env \<Rightarrow> KubeNode \<Rightarrow> string" where
  "getManagerOfUnschedulable E kubeNode = managerLoop E (kManagedFields kubeNode)"

section \<open>Reconciliation\<close>

text \<open>The switch over the requested state; Some result is an early return.\<close>

definition switchState ::
  "env \<Rightarrow> nodeReconciler \<Rightarrow> Node \<Rightarrow> KubeNode \<Rightarrow> (Result option \<times> Node \<times> KubeNode) op" where
  "switchState E r node kubeNode =
     (if specState node = NodeStateActive then
        (let managerOfUnschedulable = getManagerOfUnschedulable E kubeNode in
         if managerOfUnschedulable \<noteq> '''' \<and> managerOfUnschedulable \<noteq> GetFieldOwner (managerNamespace r) then
           bind (eventf (Name node) EventTypeWarning ''NodeNotSchedulable''
                   (''Node is current cordon by another manager: '' @ managerOfUnschedulable)) (\<lambda>_.
           ret (Some emptyResult, node, kubeNode))
         else
           bind (setUnschedulable E kubeNode False) (\<lambda>kubeNode.
           bind (setCurrentState E node NodeCurrentStateOk) (\<lambda>node.
           attempt (CleanupNode E (rebootManager r) (Name node))
             (\<lambda>_. ret (None, node, kubeNode)) (\<lambda>_. ret (None, node, kubeNode)))))
      else if specState node = NodeStateCordoned then
        bind (setUnschedulable E kubeNode True) (\<lambda>kubeNode.
        bind (setCurrentState E node NodeCurrentStateCordoned) (\<lambda>node.
        ret (None, node, kubeNode)))
      else if specState node = NodeStateDrained \<or> specState node = NodeStateRebootIfRequired then
        (if \<not> WorkState (currentState node) \<and> currentState node \<noteq> NodeCurrentStateQueued then
           bind (setCurrentState E node NodeCurrentStateQueued) (\<lambda>node.
           ret (Some \<lparr>RequeueAfter = 1 * Second\<rparr>, node, kubeNode))
         else ret (None, node, kubeNode))
      else ret (None, node, kubeNode))"

text \<open>Before the work of a reboot: a reboot that is not required makes the node active.\<close>

definition rebootStillRequired :: "env \<Rightarrow> nodeReconciler \<Rightarrow> Node \<Rightarrow> (Result option \<times> Node) op" where
  "rebootStillRequired E r node =
     (if specState node = NodeStateRebootIfRequired \<and>
         (currentState node = NodeCurrentStateNext \<or> currentState node = NodeCurrentStateDrained) then
        bind (lastCheckedBefore E node (2 * Minute)) (\<lambda>due.
        bind (if due then isRebootRequired E r node
              else ret (case RebootRequired (Status node) of Some b \<Rightarrow> b | None \<Rightarrow> False, node)) (\<lambda>(required, node).
        if \<not> required
        then bind (setState E node NodeStateActive) (\<lambda>node. ret (Some emptyResult, node))
        else ret (None, node)))
      else ret (None, node))"

text \<open>The reboot itself and the wait for its end.\<close>

definition reboot :: "env \<Rightarrow> nodeReconciler \<Rightarrow> Node \<Rightarrow> KubeNode \<Rightarrow> Result op" where
  "reboot E r node kubeNode =
     (if specState node = NodeStateRebootIfRequired then
        (if currentState node = NodeCurrentStateDrained \<and> isDrained node then
           bind (setBootID E node kubeNode) (\<lambda>node.
           bind (RebootNode E (rebootManager r) node) (\<lambda>_.
           bind (setCurrentState E node NodeCurrentStateRebooting) (\<lambda>_.
           ret \<lparr>RequeueAfter = Minute\<rparr>)))
         else if currentState node = NodeCurrentStateRebooting then
           bind (IsNodeRebooted E (rebootManager r) kubeNode (BootID (Status node))) (\<lambda>rebooted.
           if rebooted then
             bind (now E) (\<lambda>t.
             bind (wrapf ''failed to update node reboot required last checked: ''
                     (patchStatus E node (node\<lparr>Status := (Status node)\<lparr>BootID := '''',
                        RebootRequired := Some False, RebootRequiredLastChecked := Some t\<rparr>\<rparr>))) (\<lambda>node.
             bind (setState E node NodeStateActive) (\<lambda>node.
             bind (eventf (Name node) EventTypeNormal ''Reboot'' ''Node Rebooted'') (\<lambda>_.
             ret \<lparr>RequeueAfter = Second\<rparr>))))
           else ret \<lparr>RequeueAfter = Minute\<rparr>)
         else ret emptyResult)
      else ret emptyResult)"

definition work :: "env \<Rightarrow> nodeReconciler \<Rightarrow> Node \<Rightarrow> KubeNode \<Rightarrow> Result op" where
  "work E r node kubeNode =
     (if WorkState (currentState node) then
        bind (rebootStillRequired E r node) (\<lambda>(early, node).
        case early of
          Some res \<Rightarrow> ret res
        | None \<Rightarrow>
            bind (if Drain (specState node) \<and> \<not> isDrained node then drain E r node kubeNode
                  else ret (None, node, kubeNode)) (\<lambda>(early, node, kubeNode).
            case early of
              Some res \<Rightarrow> ret res
            | None \<Rightarrow> reboot E r node kubeNode))
      else if currentState node = NodeCurrentStateQueued then
        bind (isNextNode E node) (\<lambda>(next, _).
        if next then ret \<lparr>RequeueAfter = 1 * Second\<rparr> else ret \<lparr>RequeueAfter = 1 * Minute\<rparr>)
      else ret emptyResult)"

text \<open>Reconciliation of a node object that exists and is not being deleted.\<close>

definition reconcileNode :: "env \<Rightarrow> nodeReconciler \<Rightarrow> Node \<Rightarrow> KubeNode \<Rightarrow> Result op" where
  "reconcileNode E r node kubeNode =
     bind (undrain E r node kubeNode) (\<lambda>(goOn, res, node, kubeNode).
     if \<not> goOn then ret res else
     bind (if \<not> kUnschedulable kubeNode \<and> isDrained node then setDrained E node False else ret node) (\<lambda>node.
     bind (checkRebootRequired E r node) (\<lambda>node.
     bind (switchState E r node kubeNode) (\<lambda>(early, node, kubeNode).
     case early of Some res \<Rightarrow> ret res | None \<Rightarrow> work E r node kubeNode))))"

definition Reconcile :: "env \<Rightarrow> nodeReconciler \<Rightarrow> string \<Rightarrow> Result op" where
  "Reconcile E r reqName =
     bind (getKubeNode E reqName) (\<lambda>kubeNode.
     attempt (getNode E reqName)
       (\<lambda>err. if eIsNotFound E err then createNewNode E kubeNode else fail err)
       (\<lambda>node.
          if \<not> IsZero (DeletionTimestamp node) then
            (if eContainsFinalizer E node nodeDrainFinalizer
             then bind (updateNode E (eRemoveFinalizer E node nodeDrainFinalizer)) (\<lambda>_. ret emptyResult)
             else ret emptyResult)
          else reconcileNode E r node kubeNode))"

end
