(* ===== verification/Node_Gates.thy ===== *)
theory Node_Gates
  imports Node_Controller
begin

text \<open>
  What the controller does to the cluster, and only after what. \<open>allowed\<close> is the specification: for
  every kind of event that changes a node, evicts or deletes pods, or reboots, what must have happened
  before it in the same reconciliation. The main lemma says that \<open>Reconcile\<close> emits only allowed
  events, for every environment; the properties of the theory are its parts, one per kind of event.
\<close>

section \<open>What the events so far say\<close>

text \<open>The objects the controller received, and the last one of each kind.\<close>

fun nodeOf :: "event \<Rightarrow> Node option" where
  "nodeOf (EvGetNode _ (Inr x)) = Some x"
| "nodeOf (EvPatchNode _ _ (Inr x)) = Some x"
| "nodeOf (EvPatchStatus _ _ (Inr x)) = Some x"
| "nodeOf _ = None"

fun kubeOf :: "event \<Rightarrow> KubeNode option" where
  "kubeOf (EvGetKubeNode _ (Inr x)) = Some x"
| "kubeOf (EvPatchKubeNode _ _ (Inr x)) = Some x"
| "kubeOf _ = None"

definition latest :: "(event \<Rightarrow> 'a option) \<Rightarrow> history \<Rightarrow> 'a option" where
  "latest f t = fold (\<lambda>e a. case f e of Some x \<Rightarrow> Some x | None \<Rightarrow> a) t None"

abbreviation lastNode :: "history \<Rightarrow> Node option" where
  "lastNode \<equiv> latest nodeOf"

abbreviation lastKube :: "history \<Rightarrow> KubeNode option" where
  "lastKube \<equiv> latest kubeOf"

definition nodesSeen :: "history \<Rightarrow> Node set" where
  "nodesSeen t = {x. \<exists>e \<in> set t. nodeOf e = Some x}"

text \<open>The node is cordoned: the last read, or the last successful write, of the cluster node says so.\<close>

fun cordonOf :: "event \<Rightarrow> bool option" where
  "cordonOf (EvGetKubeNode _ (Inr k)) = Some (kUnschedulable k)"
| "cordonOf (EvPatchKubeNode _ new (Inr k)) = Some (kUnschedulable new \<or> kUnschedulable k)"
| "cordonOf _ = None"

definition cordoned :: "history \<Rightarrow> bool" where
  "cordoned t \<longleftrightarrow> latest cordonOf t = Some True"

lemma latest_snoc [simp]: "latest f (t @ [e]) = (case f e of Some x \<Rightarrow> Some x | None \<Rightarrow> latest f t)"
  by (simp add: latest_def split: option.split)

lemma latest_in: "latest f t = Some x \<Longrightarrow> \<exists>e \<in> set t. f e = Some x"
  by (induction t rule: rev_induct) (auto simp: latest_def split: option.splits)

lemma nodesSeen_snoc [simp]: "nodesSeen (t @ [e]) = nodesSeen t \<union> set_option (nodeOf e)"
  by (auto simp: nodesSeen_def)

lemma lastNode_seen: "lastNode t = Some x \<Longrightarrow> x \<in> nodesSeen t"
  using latest_in [of nodeOf] by (auto simp: nodesSeen_def)

text \<open>Every plugin that says it is supported has run its PreDrain hook for the node.\<close>

definition preDrained :: "DrainManager \<Rightarrow> string \<Rightarrow> history \<Rightarrow> bool" where
  "preDrained d n t \<longleftrightarrow> (\<forall>c \<in> dcClient ` snd ` set (drainClients d).
     \<exists>s. EvIsSupported c (Inr s) \<in> set t \<and> (GetSupported (Some s) \<longrightarrow> preDrainEv n c (Inr ()) \<in> set t))"

text \<open>The pods of the reboot manager on the node were deleted.\<close>

definition cleaned :: "RebootManager \<Rightarrow> string \<Rightarrow> history \<Rightarrow> bool" where
  "cleaned r n t \<longleftrightarrow> (\<exists>lo. loFieldSelector lo = ''spec.nodeName='' @ n \<and> EvDeletePods (rmNamespace r) lo (Inr ()) \<in> set t)"

text \<open>Health and the consent of all plugins were established, in this order.\<close>

definition healthChecked :: "DrainManager \<Rightarrow> history \<Rightarrow> bool" where
  "healthChecked d t \<longleftrightarrow> (\<exists>a ks u b. t = a @ EvListKubeNodes (Inr ks) # u @ b \<and> allReady ks \<and>
     consultation healthBallot d u \<and> verdict u = Ok True)"

definition drainApproved :: "DrainManager \<Rightarrow> string \<Rightarrow> history \<Rightarrow> bool" where
  "drainApproved d n t \<longleftrightarrow> (\<exists>a u b. t = a @ u @ b \<and> consultation (drainOkBallot n) d u \<and>
     verdict u = Ok True \<and> healthChecked d a)"

text \<open>The node was seen in a work state, and an object was received that asks for a drain not done yet.\<close>

definition workSeen :: "history \<Rightarrow> bool" where
  "workSeen t \<longleftrightarrow> (\<exists>node \<in> nodesSeen t. WorkState (currentState node))"

definition drainRequested :: "history \<Rightarrow> bool" where
  "drainRequested t \<longleftrightarrow> workSeen t \<and> (\<exists>node \<in> nodesSeen t. Drain (specState node) \<and> \<not> isDrained node)"

text \<open>A node object was received that is drained and asks for a reboot.\<close>

definition rebootRequested :: "history \<Rightarrow> bool" where
  "rebootRequested t \<longleftrightarrow> (\<exists>node \<in> nodesSeen t. specState node = NodeStateRebootIfRequired \<and>
     currentState node = NodeCurrentStateDrained \<and> isDrained node)"

text \<open>The boot id of the cluster node is on record in the status of the node object.\<close>

definition savedBootId :: "string \<Rightarrow> history \<Rightarrow> bool" where
  "savedBootId b t \<longleftrightarrow> (\<exists>node. BootID (Status node) = b \<and>
     (node \<in> nodesSeen t \<or> (\<exists>old x. EvPatchStatus old node (Inr x) \<in> set t)))"

definition bootIdSaved :: "history \<Rightarrow> bool" where
  "bootIdSaved t \<longleftrightarrow> (\<exists>kube. lastKube t = Some kube \<and> savedBootId (kBootID kube) t)"

text \<open>All nodes of the cluster were ready when they were listed.\<close>

definition nodesReady :: "history \<Rightarrow> bool" where
  "nodesReady t \<longleftrightarrow> (\<exists>ks. EvListKubeNodes (Inr ks) \<in> set t \<and> allReady ks)"

definition ownOrNoManager :: "env \<Rightarrow> nodeReconciler \<Rightarrow> KubeNode \<Rightarrow> bool" where
  "ownOrNoManager E r k \<longleftrightarrow>
     getManagerOfUnschedulable E k = '''' \<or> getManagerOfUnschedulable E k = GetFieldOwner (managerNamespace r)"

text \<open>The last event listed the node objects, and none of them was in a work state.\<close>

definition idleListed :: "history \<Rightarrow> bool" where
  "idleListed t \<longleftrightarrow> (\<exists>s l. t = s @ [EvListNodes (Inr l)] \<and> (\<forall>x \<in> set l. \<not> WorkState (currentState x)))"

lemma someWorks_iff: "someWorks l \<longleftrightarrow> (\<exists>x \<in> set l. WorkState (currentState x))"
  by (induction l) auto

lemmas evidence_defs =
  preDrained_def cleaned_def drainRequested_def rebootRequested_def nodesReady_def savedBootId_def workSeen_def

section \<open>The specification\<close>

definition allowed :: "env \<Rightarrow> nodeReconciler \<Rightarrow> string \<Rightarrow> history \<Rightarrow> event \<Rightarrow> bool" where
  "allowed E r n t e = (case e of
     EvGetNode m x \<Rightarrow> m = n
   | EvCreateNode node x \<Rightarrow>
       lastNode t = None \<and> (\<exists>kube y. lastKube t = Some kube \<and> kName kube = n \<and>
         eSetOwnerReference E kube (freshNode kube) = Inr y \<and> node = eAddFinalizer E y nodeDrainFinalizer)
   | EvUpdateNode node x \<Rightarrow>
       (\<exists>y. lastNode t = Some y \<and> \<not> IsZero (DeletionTimestamp y) \<and> eContainsFinalizer E y nodeDrainFinalizer \<and>
         node = eRemoveFinalizer E y nodeDrainFinalizer)
   | EvPatchNode old new x \<Rightarrow>
       lastNode t = Some old \<and> new = old\<lparr>Spec := (Spec old)\<lparr>State := NodeStateActive\<rparr>\<rparr>
   | EvRunNodeDrain dh m x \<Rightarrow>
       dh = drainHelper \<and> m = n \<and> n \<noteq> nodeName r \<and> drainRequested t \<and> cordoned t \<and>
       preDrained (drainManager r) n t \<and> cleaned (rebootManager r) n t
   | EvPatchStatus old new x \<Rightarrow>
       lastNode t = Some old \<and> new = old\<lparr>Status := Status new\<rparr> \<and>
       (currentState new = NodeCurrentStateDraining \<longrightarrow> currentState old \<noteq> NodeCurrentStateDraining \<longrightarrow>
          currentState old = NodeCurrentStateNext \<and> drainApproved (drainManager r) n t) \<and>
       (currentState new = NodeCurrentStateNext \<longrightarrow> currentState old \<noteq> NodeCurrentStateNext \<longrightarrow>
          currentState old = NodeCurrentStateQueued \<and> idleListed t)
   | EvPatchKubeNode old new x \<Rightarrow>
       lastKube t = Some old \<and> new = old\<lparr>kUnschedulable := \<not> kUnschedulable old\<rparr> \<and>
       (if kUnschedulable new
        then drainRequested t \<or> (\<exists>node. lastNode t = Some node \<and> specState node = NodeStateCordoned)
        else \<exists>node. lastNode t = Some node \<and>
          ((currentState node = NodeCurrentStateUndraining \<and> nodesReady t) \<or>
           (specState node = NodeStateActive \<and> ownOrNoManager E r old)))
   | EvCreatePod p x \<Rightarrow>
       pNamespace p = rmNamespace (rebootManager r) \<and> pdNodeName (pSpec p) = n \<and>
       (pdHostPID (pSpec p) \<longrightarrow> rebootRequested t \<and> bootIdSaved t \<and>
          (\<exists>k. EvGetClusterNode n (Inr k) \<in> set t \<and> kUnschedulable k))
   | EvDeletePodForeground ns p x \<Rightarrow>
       ns = managerNamespace r \<and> n = nodeName r \<and> drainRequested t \<and> cordoned t
   | EvDeletePods ns lo x \<Rightarrow>
       ns = rmNamespace (rebootManager r) \<and> loFieldSelector lo = ''spec.nodeName='' @ n
   | _ \<Rightarrow> True)"

lemma plugin_event_allowed: "plugin_event e \<Longrightarrow> allowed E r n t e"
  by (cases e) (simp_all add: allowed_def plugin_event_def)

lemma plugin_event_frame: "plugin_event e \<Longrightarrow> nodeOf e = None \<and> kubeOf e = None \<and> cordonOf e = None"
  by (cases e) (simp_all add: plugin_event_def)

lemma reboot_event_frame: "reboot_event r n e \<Longrightarrow> nodeOf e = None \<and> kubeOf e = None \<and> cordonOf e = None"
  by (cases e) (simp_all add: reboot_event_def)

section \<open>The state between two steps\<close>

text \<open>
  The controller holds the last objects it received, both of the node it reconciles, and \<open>M\<close> is what
  else is known to have happened. The law about the API server: an answer is about the object that was
  asked for or written.
\<close>

definition holding :: "bool \<Rightarrow> (history \<Rightarrow> bool) \<Rightarrow> string \<Rightarrow> Node \<Rightarrow> KubeNode \<Rightarrow> history \<Rightarrow> bool" where
  "holding crd M n node kube t \<longleftrightarrow> lastNode t = Some node \<and> lastKube t = Some kube \<and> Name node = n \<and>
     kName kube = n \<and> (kUnschedulable kube \<or> crd \<longrightarrow> cordoned t) \<and> M t"

definition keepsNames :: "env \<Rightarrow> bool" where
  "keepsNames E \<longleftrightarrow> (\<forall>h m x. eGetNode E h m = Inr x \<longrightarrow> Name x = m) \<and>
     (\<forall>h m x. eGetKubeNode E h m = Inr x \<longrightarrow> kName x = m) \<and>
     (\<forall>h old new x. ePatchStatus E h old new = Inr x \<longrightarrow> Name x = Name new) \<and>
     (\<forall>h old new x. ePatchNode E h old new = Inr x \<longrightarrow> Name x = Name new) \<and>
     (\<forall>h old new x. ePatchKubeNode E h old new = Inr x \<longrightarrow> kName x = kName new)"

lemma holding_frame:
  assumes "nodeOf e = None" "kubeOf e = None" "cordonOf e = None" and "stable M" and "holding crd M n node kube t"
  shows "holding crd M n node kube (t @ [e])"
  using assms by (simp add: holding_def cordoned_def stable_def)

lemma holding_mono: "holding crd M n node kube t \<Longrightarrow> (M t \<Longrightarrow> M' t) \<Longrightarrow> holding crd M' n node kube t"
  by (simp add: holding_def)

lemma stable_evidence:
  "stable (preDrained d n)" "stable (cleaned r n)" "stable drainRequested" "stable rebootRequested" "stable nodesReady"
  "stable (savedBootId b)" "stable workSeen"
  by (auto simp: stable_def evidence_defs)

lemma stable_healthChecked: "stable (healthChecked d)"
  unfolding stable_def healthChecked_def by (metis append_assoc append_Cons)

lemma stable_drainApproved: "stable (drainApproved d n)"
  unfolding stable_def drainApproved_def by (metis append_assoc)

text \<open>An operation on plugins or through the reboot manager leaves what the controller holds alone.\<close>

lemma plugin_triple:
  assumes "only plugin_event m" and "stable M"
  shows "triple (allowed E r n) (holding crd M n node kube) m (\<lambda>_. holding crd M n node kube) (\<lambda>_. True)"
  by (rule triple_post [OF triple_frame [OF assms(1)]])
    (use assms(2) in \<open>auto simp: plugin_event_allowed intro: holding_frame dest: plugin_event_frame\<close>)

lemma reboot_triple:
  assumes "only (\<lambda>e. reboot_event (rebootManager r) n e \<and> creates Q e) m" and "stable M"
    and "\<And>p. Q p \<Longrightarrow> pNamespace p = rmNamespace (rebootManager r) \<and> pdNodeName (pSpec p) = n \<and> \<not> pdHostPID (pSpec p)"
  shows "triple (allowed E r n) (holding crd M n node kube) m (\<lambda>_. holding crd M n node kube) (\<lambda>_. True)"
proof -
  have 1: "allowed E r n t e" if "reboot_event (rebootManager r) n e \<and> creates Q e" for t e
    using that assms(3) by (cases e) (auto simp: allowed_def reboot_event_def creates_def)
  show ?thesis
    by (rule triple_post [OF triple_frame [OF assms(1)]]) (use assms(2) 1 in \<open>auto intro: holding_frame dest: reboot_event_frame\<close>)
qed

lemma neutral_call_triple:
  assumes "\<And>x t. allowed E r n t (mk x)" and "\<And>x. nodeOf (mk x) = None" "\<And>x. kubeOf (mk x) = None"
    "\<And>x. cordonOf (mk x) = None" and "stable M"
  shows "triple (allowed E r n) (holding crd M n node kube) (call f mk) (\<lambda>_. holding crd M n node kube) (\<lambda>_. True)"
  by (rule triple_call) (use assms in \<open>auto intro: holding_frame\<close>)

lemma event_triple:
  assumes "stable M"
  shows "triple (allowed E r n) (holding crd M n node kube) (eventf m ty a b) (\<lambda>_. holding crd M n node kube) (\<lambda>_. True)"
  by (rule plugin_triple) (use assms in \<open>simp_all add: only_eventf\<close>)

lemma now_triple:
  assumes "stable M"
  shows "triple (allowed E r n) (holding crd M n node kube) (now E) (\<lambda>_. holding crd M n node kube) (\<lambda>_. True)"
  using assms by (auto simp: triple_def now_def ask_def result_def emitted_def allowed_def intro: holding_frame)

section \<open>Writes\<close>

lemma patchStatus_triple:
  assumes "keepsNames E" and "stable M" and "Name new = n"
    and "\<And>t x. holding crd M n node kube t \<Longrightarrow> allowed E r n t (EvPatchStatus node new x)"
  shows "triple (allowed E r n) (holding crd M n node kube) (patchStatus E node new)
    (\<lambda>node'. holding crd (\<lambda>t. M t \<and> EvPatchStatus node new (Inr node') \<in> set t) n node' kube) (\<lambda>_. True)"
  unfolding patchStatus_def
  by (rule triple_call) (use assms in \<open>auto simp: holding_def cordoned_def stable_def keepsNames_def\<close>)

lemma triple_given: "(\<And>t. P t \<Longrightarrow> c) \<Longrightarrow> (c \<Longrightarrow> triple I P m Q R) \<Longrightarrow> triple I P m Q R"
  by (cases c) (auto simp: triple_def)

text \<open>A status write that neither begins a drain nor picks a queued node.\<close>

lemma writeStatus_triple:
  assumes "keepsNames E" and "stable M" and "new = node\<lparr>Status := Status new\<rparr>"
    and "currentState new = NodeCurrentStateDraining \<Longrightarrow> currentState node = NodeCurrentStateDraining"
    and "currentState new = NodeCurrentStateNext \<Longrightarrow> currentState node = NodeCurrentStateNext"
  shows "triple (allowed E r n) (holding crd M n node kube) (patchStatus E node new)
    (\<lambda>node'. holding crd (\<lambda>t. M t \<and> EvPatchStatus node new (Inr node') \<in> set t) n node' kube) (\<lambda>_. True)"
proof (rule triple_given [where c = "Name node = n"])
  assume "Name node = n"
  with assms(3) have "Name new = n" by (metis Node.ext_inject Node.surjective Node.update_convs(6))
  then show ?thesis
    by (rule patchStatus_triple [OF assms(1,2)]) (use assms(3-5) in \<open>auto simp: holding_def allowed_def\<close>)
qed (simp add: holding_def)

lemmas writeStatus = triple_wrapf [OF triple_post [OF writeStatus_triple]]

lemma setCurrentState_triple:
  assumes "keepsNames E" and "stable M" and "s \<noteq> NodeCurrentStateDraining" and "s \<noteq> NodeCurrentStateNext"
  shows "triple (allowed E r n) (holding crd M n node kube) (setCurrentState E node s)
    (\<lambda>node'. holding crd M n node' kube) (\<lambda>_. True)"
  unfolding setCurrentState_def
  by (intro triple_if triple_ret writeStatus [OF assms(1,2)]) (use assms in \<open>auto elim: holding_mono\<close>)

lemma setDrained_triple:
  assumes "keepsNames E" and "stable M"
  shows "triple (allowed E r n) (holding crd M n node kube) (setDrained E node b)
    (\<lambda>node'. holding crd M n node' kube) (\<lambda>_. True)"
  unfolding setDrained_def by (intro writeStatus [OF assms(1,2)]) (auto elim: holding_mono)

lemma savedBootId_written:
  "EvPatchStatus node (node\<lparr>Status := Status node\<lparr>BootID := b\<rparr>\<rparr>) (Inr x) \<in> set t \<Longrightarrow> savedBootId b t"
  unfolding savedBootId_def by (intro exI [of _ "node\<lparr>Status := Status node\<lparr>BootID := b\<rparr>\<rparr>"]) auto

lemma savedBootId_seen: "lastNode t = Some node \<Longrightarrow> b = BootID (Status node) \<Longrightarrow> savedBootId b t"
  unfolding savedBootId_def by (metis lastNode_seen)

lemma setBootID_triple:
  assumes "keepsNames E" and "stable M"
  shows "triple (allowed E r n) (holding crd M n node kube) (setBootID E node kube)
    (\<lambda>node'. holding crd (\<lambda>t. M t \<and> savedBootId (kBootID kube) t) n node' kube) (\<lambda>_. True)"
  unfolding setBootID_def
  by (intro triple_if triple_ret writeStatus [OF assms(1,2)])
    (auto simp: holding_def intro: savedBootId_written savedBootId_seen)

lemma setState_triple:
  assumes "keepsNames E" and "stable M"
  shows "triple (allowed E r n) (holding crd M n node kube) (setState E node NodeStateActive)
    (\<lambda>node'. holding crd M n node' kube) (\<lambda>_. True)"
  unfolding setState_def patchNode_def
  by (intro triple_if triple_ret triple_wrapf triple_call)
    (use assms in \<open>auto simp: holding_def allowed_def cordoned_def stable_def keepsNames_def\<close>)

lemma setUnschedulable_triple:
  assumes "keepsNames E" and "stable M"
    and cordon: "\<And>t. b \<Longrightarrow> holding crd M n node kube t \<Longrightarrow> drainRequested t \<or> specState node = NodeStateCordoned"
    and uncordon: "\<And>t. \<not> b \<Longrightarrow> holding crd M n node kube t \<Longrightarrow>
      (currentState node = NodeCurrentStateUndraining \<and> nodesReady t) \<or>
      (specState node = NodeStateActive \<and> ownOrNoManager E r kube)"
  shows "triple (allowed E r n) (holding crd M n node kube) (setUnschedulable E kube b)
    (\<lambda>kube'. holding b M n node kube') (\<lambda>_. True)"
proof -
  let ?new = "kube\<lparr>kUnschedulable := b\<rparr>"
  have "allowed E r n t (EvPatchKubeNode kube ?new x)"
    if "holding crd M n node kube t" "kUnschedulable kube \<noteq> b" for t x
    using that cordon [of t] uncordon [of t] by (cases b) (auto simp: allowed_def holding_def)
  then show ?thesis
    unfolding setUnschedulable_def patchKubeNode_def
    by (intro triple_if triple_ret triple_wrapf triple_call)
      (use assms(1,2) in \<open>auto simp: holding_def cordoned_def stable_def keepsNames_def\<close>)
qed

section \<open>Reading the reboot requirement\<close>

lemma lastCheckedBefore_triple:
  assumes "stable M"
  shows "triple (allowed E r n) (holding crd M n node kube) (lastCheckedBefore E x i) (\<lambda>_. holding crd M n node kube) (\<lambda>_. True)"
  unfolding lastCheckedBefore_def
  by (intro triple_option triple_if triple_ret triple_bind [OF now_triple [OF assms]])

lemma isRebootRequired_triple:
  assumes "keepsNames E" and "polls_only E" and "stable M"
  shows "triple (allowed E r n) (holding crd M n node kube) (isRebootRequired E r node)
    (\<lambda>(_, node'). holding crd M n node' kube) (\<lambda>_. True)"
proof (rule triple_given [where c = "Name node = n"])
  assume n: "Name node = n"
  have req: "triple (allowed E r n) (holding crd M n node kube) (IsRebootRequired E (rebootManager r) n)
      (\<lambda>_. holding crd M n node kube) (\<lambda>_. True)"
    by (rule reboot_triple [OF only_IsRebootRequired [OF assms(2)] assms(3)]) (auto dest: rebootRequiredPod_Ok)
  have last: "triple (allowed E r n) (holding crd M n node' kube)
      (if b then bind (eventf m EventTypeNormal x y) (\<lambda>_. ret (b, node')) else ret (b, node'))
      (\<lambda>(_, node'). holding crd M n node' kube) (\<lambda>_. True)" for b node' m x y
    by (intro triple_if triple_bind [OF event_triple [OF assms(3)]] triple_ret) auto
  show ?thesis
    unfolding isRebootRequired_def n
    by (intro triple_bind [OF triple_wrapf [OF req]] triple_bind [OF now_triple [OF assms(3)]]
        triple_bind [OF writeStatus [OF assms(1,3)] last]) (auto elim: holding_mono)
qed (simp add: holding_def)

lemma checkRebootRequired_triple:
  assumes "keepsNames E" and "polls_only E" and "stable M"
  shows "triple (allowed E r n) (holding crd M n node kube) (checkRebootRequired E r node)
    (\<lambda>node'. holding crd M n node' kube) (\<lambda>_. True)"
  unfolding checkRebootRequired_def
  by (intro triple_if triple_ret triple_bind [OF lastCheckedBefore_triple [OF assms(3)]]
      triple_bind [OF isRebootRequired_triple [OF assms]]) (auto intro: triple_ret)

section \<open>Draining\<close>

lemma consult_triple:
  assumes "only plugin_event m" and "stable M"
    and "\<And>h a. result m h = Ok a \<Longrightarrow> X a (emitted m h)"
    and "\<And>a s u. M s \<Longrightarrow> X a u \<Longrightarrow> Y a (s @ u)"
  shows "triple (allowed E r n) (holding crd M n node kube) m
    (\<lambda>a. holding crd (\<lambda>t. M t \<and> Y a t) n node kube) (\<lambda>_. True)"
proof -
  have frame: "triple (allowed E r n) (holding crd M n node kube) m
      (\<lambda>a t. holding crd M n node kube t \<and> (\<exists>s u. holding crd M n node kube s \<and> t = s @ u \<and> X a u)) (holding crd M n node kube)"
    by (rule triple_frame_result [OF assms(1)])
      (use assms(2,3) in \<open>auto simp: plugin_event_allowed intro: holding_frame dest: plugin_event_frame\<close>)
  show ?thesis by (rule triple_post [OF frame]) (use assms(4) in \<open>auto simp: holding_def\<close>)
qed

lemma IsHealthy_true:
  assumes "result (IsHealthy E d node) h = Ok True"
  shows "\<exists>ks u b. emitted (IsHealthy E d node) h = EvListKubeNodes (Inr ks) # u @ b \<and> allReady ks \<and>
    consultation healthBallot d u \<and> verdict u = Ok True"
  using IsHealthy_run [where E = E and h = h and d = d and node = node] assms by (cases "eListKubeNodes E h") (auto split: if_splits)

lemma IsHealthy_triple:
  assumes "stable M"
  shows "triple (allowed E r n) (holding crd M n node kube) (IsHealthy E d node)
    (\<lambda>b. holding crd (\<lambda>t. M t \<and> (b \<longrightarrow> healthChecked d t)) n node kube) (\<lambda>_. True)"
  by (rule consult_triple [OF only_drain_manager(1) assms, where X = "\<lambda>b t. b \<longrightarrow> (\<exists>ks u v.
      t = EvListKubeNodes (Inr ks) # u @ v \<and> allReady ks \<and> consultation healthBallot d u \<and> verdict u = Ok True)"])
    (use IsHealthy_true in \<open>auto simp: healthChecked_def\<close>)

lemma IsDrainOk_triple:
  assumes "stable M" and "\<And>t. M t \<Longrightarrow> healthChecked d t" and "Name node = n"
  shows "triple (allowed E r n) (holding crd M n node kube) (IsDrainOk E d node)
    (\<lambda>b. holding crd (\<lambda>t. M t \<and> (b \<longrightarrow> drainApproved d n t)) n node kube) (\<lambda>_. True)"
  by (rule consult_triple [OF only_drain_manager(2) assms(1), where X = "\<lambda>b t. b \<longrightarrow> (\<exists>u v.
      t = u @ v \<and> consultation (drainOkBallot n) d u \<and> verdict u = Ok True)"])
    (use assms(2,3) IsDrainOk_run [where node = node and d = d and E = E] in \<open>auto simp: drainApproved_def, metis+\<close>)

lemma allHooked_preDrained: "allHooked (preDrainEv n) d t \<Longrightarrow> preDrained d n t"
proof -
  assume "allHooked (preDrainEv n) d t"
  then obtain cs ts where cs: "mset cs = mset (drainClients d)" "t = concat ts"
    "list_all2 (\<lambda>c t. hooked (preDrainEv n) (dcClient (snd c)) t) cs ts"
    by (auto simp: allHooked_def)
  have "\<exists>u. set u \<subseteq> set t \<and> hooked (preDrainEv n) (dcClient (snd c)) u" if "c \<in> set (drainClients d)" for c
  proof -
    from that cs(1) have "c \<in> set cs" by (metis set_mset_mset)
    with cs(3) obtain u where "u \<in> set ts" "hooked (preDrainEv n) (dcClient (snd c)) u"
      by (auto simp: list_all2_conv_all_nth in_set_conv_nth) metis
    then show ?thesis using cs(2) by auto
  qed
  then show ?thesis unfolding preDrained_def hooked_def by fastforce
qed

lemma preDrained_append: "preDrained d n u \<Longrightarrow> preDrained d n (s @ u)"
  by (fastforce simp: preDrained_def)

lemma RunPreDrain_triple:
  assumes "stable M" and "Name node = n"
  shows "triple (allowed E r n) (holding crd M n node kube) (RunPreDrain E d node)
    (\<lambda>_. holding crd (\<lambda>t. M t \<and> preDrained d n t) n node kube) (\<lambda>_. True)"
proof (rule consult_triple [OF only_drain_manager(3) assms(1), where X = "\<lambda>_ t. preDrained d n t"])
  fix h a assume "result (RunPreDrain E d node) h = Ok a"
  with RunPreDrain_run [where E = E and d = d and node = node and h = h] obtain t
    where "allHooked (preDrainEv n) d t" "emitted (RunPreDrain E d node) h =
      t @ [EvRecord (Name node) EventTypeNormal ''PreDrain'' ''Node PreDrain succeeded'']"
    using assms(2) by auto
  then show "preDrained d n (emitted (RunPreDrain E d node) h)"
    using stableD [OF stable_evidence(1)] allHooked_preDrained by metis
qed (simp add: preDrained_append)

lemma startDraining_triple:
  assumes "keepsNames E" and "stable M" and "currentState node = NodeCurrentStateNext"
    and "\<And>t. M t \<Longrightarrow> drainApproved (drainManager r) n t"
  shows "triple (allowed E r n) (holding crd M n node kube) (setCurrentState E node NodeCurrentStateDraining)
    (\<lambda>node'. holding crd M n node' kube) (\<lambda>_. True)"
proof (rule triple_given [where c = "Name node = n"])
  assume "Name node = n"
  then show ?thesis
    unfolding setCurrentState_def
    by (intro triple_if triple_ret triple_wrapf triple_post [OF patchStatus_triple [OF assms(1,2)]])
      (use assms(3,4) in \<open>auto simp: holding_def allowed_def\<close>)
qed (simp add: holding_def)

lemma drainChecks_triple:
  assumes "keepsNames E" and "stable M"
  shows "triple (allowed E r n) (holding crd M n node kube) (drainChecks E r node)
    (\<lambda>node'. holding crd M n node' kube) (\<lambda>_. True)"
proof (rule triple_given [where c = "Name node = n"])
  let ?d = "drainManager r"
  let ?H = "\<lambda>t. M t \<and> healthChecked ?d t" and ?A = "\<lambda>t. (M t \<and> healthChecked ?d t) \<and> drainApproved ?d n t"
  assume n: "Name node = n"
  have sH: "stable ?H" and sA: "stable ?A"
    by (intro stable_conj assms(2) stable_healthChecked stable_drainApproved)+
  show ?thesis
  proof (cases "currentState node = NodeCurrentStateNext")
    case True
    have start: "triple (allowed E r n) (holding crd ?A n node kube) (setCurrentState E node NodeCurrentStateDraining)
        (\<lambda>node'. holding crd M n node' kube) (\<lambda>_. True)"
      by (rule triple_post [OF startDraining_triple [OF assms(1) sA True]]) (auto elim: holding_mono)
    have ok: "triple (allowed E r n) (holding crd (\<lambda>t. ?H t \<and> (b \<longrightarrow> drainApproved ?d n t)) n node kube)
        (if \<not> b then fail e else setCurrentState E node NodeCurrentStateDraining)
        (\<lambda>node'. holding crd M n node' kube) (\<lambda>_. True)" for b e
      using start by (intro triple_if triple_fail) auto
    have consent: "triple (allowed E r n) (holding crd ?H n node kube)
        (bind (wrapf msg (IsDrainOk E ?d node)) (\<lambda>b. if \<not> b then fail e else setCurrentState E node NodeCurrentStateDraining))
        (\<lambda>node'. holding crd M n node' kube) (\<lambda>_. True)" for msg e
      by (rule triple_bind [OF triple_wrapf [OF IsDrainOk_triple [OF sH _ n]] ok]) simp
    have "triple (allowed E r n) (holding crd (\<lambda>t. M t \<and> (b \<longrightarrow> healthChecked ?d t)) n node kube)
        (if \<not> b then fail e else bind (wrapf msg (IsDrainOk E ?d node))
           (\<lambda>b. if \<not> b then fail e' else setCurrentState E node NodeCurrentStateDraining))
        (\<lambda>node'. holding crd M n node' kube) (\<lambda>_. True)" for b e msg e'
      using consent by (intro triple_if triple_fail) auto
    from triple_bind [OF triple_wrapf [OF IsHealthy_triple [OF assms(2)]] this] show ?thesis
      unfolding drainChecks_def using True by simp
  qed (simp add: drainChecks_def triple_ret)
qed (simp add: holding_def)

lemma CleanupNode_triple:
  assumes "stable M"
  shows "triple (allowed E r n) (holding crd M n node kube) (CleanupNode E (rebootManager r) n)
    (\<lambda>_. holding crd (\<lambda>t. M t \<and> cleaned (rebootManager r) n t) n node kube) (\<lambda>_. True)"
proof -
  let ?m = "CleanupNode E (rebootManager r) n" and ?ev = "\<lambda>e. reboot_event (rebootManager r) n e \<and> creates (\<lambda>_. False) e"
  have "triple (allowed E r n) (holding crd M n node kube) ?m (\<lambda>a t. holding crd M n node kube t \<and>
      (\<exists>s u. holding crd M n node kube s \<and> t = s @ u \<and> cleaned (rebootManager r) n u)) (holding crd M n node kube)"
  proof (rule triple_frame_result [OF only_CleanupNode])
    show "allowed E r n t e" if "?ev e" for t e
      using that by (cases e) (auto simp: allowed_def reboot_event_def creates_def)
    show "cleaned (rebootManager r) n (emitted ?m h)" if "result ?m h = Ok a" for h a
      using that CleanupNode_Ok [of E "rebootManager r" n h] by (auto simp: cleaned_def)
  qed (use assms in \<open>auto intro: holding_frame dest: reboot_event_frame\<close>)
  then show ?thesis
    by (rule triple_post) (auto simp: holding_def cleaned_def)
qed

lemma newClientset_triple:
  assumes "stable M"
  shows "triple (allowed E r n) (holding crd M n node kube) (newClientset E) (\<lambda>_. holding crd M n node kube) (\<lambda>_. True)"
  unfolding newClientset_def by (rule neutral_call_triple) (use assms in \<open>simp_all add: allowed_def\<close>)

lemma runNodeDrain_triple:
  assumes "stable M" and "n \<noteq> nodeName r"
    and "\<And>t. M t \<Longrightarrow> drainRequested t \<and> preDrained (drainManager r) n t \<and> cleaned (rebootManager r) n t"
  shows "triple (allowed E r n) (holding True M n node kube) (runNodeDrain E drainHelper n)
    (\<lambda>_. holding True M n node kube) (\<lambda>_. True)"
  unfolding runNodeDrain_def
  by (rule triple_call) (use assms in \<open>auto simp: holding_def allowed_def cordoned_def stable_def\<close>)

lemma drainCordoned_triple:
  assumes "keepsNames E" and "stable M" and "\<And>t. M t \<Longrightarrow> drainRequested t" and "n \<noteq> nodeName r"
  shows "triple (allowed E r n) (holding True M n node kube) (drainCordoned E r node)
    (\<lambda>node'. holding True M n node' kube) (\<lambda>_. True)"
proof (rule triple_given [where c = "Name node = n"])
  assume n: "Name node = n"
  let ?P = "\<lambda>t. M t \<and> preDrained (drainManager r) n t"
  let ?C = "\<lambda>t. ?P t \<and> cleaned (rebootManager r) n t"
  have sP: "stable ?P" and sC: "stable ?C" by (intro stable_conj assms(2) stable_evidence)+
  let ?new = "node\<lparr>Status := Status node\<lparr>Drained := True, CurrentState := NodeCurrentStateDrained\<rparr>\<rparr>"
  have fin: "triple (allowed E r n) (holding True M n node' kube)
      (bind (eventf (Name node') EventTypeNormal x y) (\<lambda>_. ret node')) (\<lambda>node'. holding True M n node' kube) (\<lambda>_. True)"
    for node' x y by (intro triple_bind [OF event_triple [OF assms(2)]] triple_ret)
  have patch: "triple (allowed E r n) (holding True ?C n node kube)
      (bind (wrapf msg (patchStatus E node ?new)) (\<lambda>node'. bind (eventf (Name node') EventTypeNormal x y) (\<lambda>_. ret node')))
      (\<lambda>node'. holding True M n node' kube) (\<lambda>_. True)" for msg x y
    by (rule triple_bind [OF writeStatus [OF assms(1) sC] fin]) (auto elim: holding_mono)
  have "triple (allowed E r n) (holding True ?C n node kube)
      (attempt (runNodeDrain E drainHelper n) (\<lambda>err. fail (f err))
         (\<lambda>_. bind (wrapf msg (patchStatus E node ?new)) (\<lambda>node'. bind (eventf (Name node') EventTypeNormal x y) (\<lambda>_. ret node'))))
      (\<lambda>node'. holding True M n node' kube) (\<lambda>_. True)" for msg x y f
    by (rule triple_attempt [OF runNodeDrain_triple [OF sC assms(4)] patch]) (use assms(3) in \<open>auto intro: triple_fail\<close>)
  then show ?thesis
    unfolding drainCordoned_def n
    by (intro triple_bind [OF triple_wrapf [OF RunPreDrain_triple [OF assms(2) n]]]
        triple_bind [OF newClientset_triple [OF sP]] triple_bind [OF triple_wrapf [OF CleanupNode_triple [OF sP]]])
qed (simp add: holding_def)

lemma rescheduleController_triple:
  assumes "stable M" and "\<And>t. M t \<Longrightarrow> drainRequested t" and "n = nodeName r"
  shows "triple (allowed E r n) (holding True M n node kube) (rescheduleController E r)
    (\<lambda>_. holding True M n node kube) (\<lambda>_. True)"
proof -
  have host: "triple (allowed E r n) (holding True M n node kube) (hostname E) (\<lambda>_. holding True M n node kube) (\<lambda>_. True)"
    unfolding hostname_def by (rule neutral_call_triple) (use assms(1) in \<open>simp_all add: allowed_def\<close>)
  have "triple (allowed E r n) (holding True M n node kube) (deletePodForeground E (managerNamespace r) p)
      (\<lambda>_. holding True M n node kube) (\<lambda>_. True)" for p
    unfolding deletePodForeground_def
    by (rule triple_call) (use assms in \<open>auto simp: holding_def allowed_def cordoned_def stable_def\<close>)
  then show ?thesis
    unfolding rescheduleController_def
    by (intro triple_bind [OF triple_wrapf [OF newClientset_triple [OF assms(1)]]] triple_bind [OF triple_wrapf [OF host]])
qed

lemma drain_triple:
  assumes "keepsNames E" and "stable M" and "\<And>t. M t \<Longrightarrow> drainRequested t"
  shows "triple (allowed E r n) (holding crd M n node kube) (drain E r node kube)
    (\<lambda>(_, node', kube'). holding False M n node' kube') (\<lambda>_. True)"
proof -
  have cordon: "triple (allowed E r n) (holding crd M n node' kube)
      (if \<not> kUnschedulable kube then setUnschedulable E kube True else ret kube)
      (\<lambda>kube'. holding True M n node' kube') (\<lambda>_. True)" for node'
  proof (intro triple_if triple_ret)
    show "triple (allowed E r n) (holding crd M n node' kube) (setUnschedulable E kube True)
        (\<lambda>kube'. holding True M n node' kube') (\<lambda>_. True)"
      by (rule setUnschedulable_triple [OF assms(1,2)]) (use assms(3) in \<open>auto simp: holding_def\<close>)
  qed (simp add: holding_def)
  have away: "triple (allowed E r n) (holding True M n node' kube')
      (if nodeName r = Name node' then bind (wrapf msg (rescheduleController E r)) (\<lambda>_. ret (Some res, node', kube'))
       else bind (drainCordoned E r node') (\<lambda>node''. ret (None, node'', kube')))
      (\<lambda>(_, node', kube'). holding False M n node' kube') (\<lambda>_. True)" for node' kube' msg res
  proof (rule triple_given [where c = "Name node' = n"])
    assume n: "Name node' = n"
    show ?thesis
      unfolding n
      by (intro triple_if triple_bind [OF triple_wrapf [OF rescheduleController_triple [OF assms(2)]]] triple_ret
          triple_bind [OF drainCordoned_triple [OF assms(1,2)]]) (use assms(3) in \<open>auto simp: holding_def\<close>)
  qed (simp add: holding_def)
  show ?thesis
    unfolding drain_def
    by (intro triple_if triple_ret triple_bind [OF drainChecks_triple [OF assms(1,2)]] triple_bind [OF cordon away])
      (auto simp: holding_def)
qed

section \<open>Undraining\<close>

lemma map_sum_Inr: "map_sum id f x = Inr y \<Longrightarrow> \<exists>z. x = Inr z \<and> f z = y"
  by (cases x) auto

lemma IsClusterNodesHealthy_triple:
  assumes "stable M"
  shows "triple (allowed E r n) (holding crd M n node kube) (IsClusterNodesHealthy E)
    (\<lambda>b. holding crd (\<lambda>t. M t \<and> (b \<longrightarrow> nodesReady t)) n node kube) (\<lambda>_. True)"
  by (rule consult_triple [OF only_IsClusterNodesHealthy assms, where X = "\<lambda>b t. b \<longrightarrow> nodesReady t"])
    (auto simp: run_IsClusterNodesHealthy nodesReady_def dest!: map_sum_Inr)

lemma requeue_triple: "triple (allowed E r n) P (ret x) (\<lambda>_ _. True) (\<lambda>_. True)"
  by (rule triple_ret) simp

lemma undrainUncordon_triple:
  assumes "keepsNames E" and "stable M" and "currentState node = NodeCurrentStateUndraining"
  shows "triple (allowed E r n) (holding crd M n node kube) (undrainUncordon E kube)
    (\<lambda>k t. case k of None \<Rightarrow> True | Some kube' \<Rightarrow> holding False M n node kube' t) (\<lambda>_. True)"
proof -
  let ?R = "\<lambda>t. M t \<and> nodesReady t"
  let ?Q = "\<lambda>k t. case k of None \<Rightarrow> True | Some kube' \<Rightarrow> holding False M n node kube' t"
  have sR: "stable ?R" by (intro stable_conj assms(2) stable_evidence)
  have "triple (allowed E r n) (holding crd ?R n node kube) (setUnschedulable E kube False)
      (\<lambda>kube'. holding False ?R n node kube') (\<lambda>_. True)"
    by (rule setUnschedulable_triple [OF assms(1) sR]) (use assms(3) in \<open>auto simp: holding_def\<close>)
  then have "triple (allowed E r n) (holding crd ?R n node kube)
      (attempt (setUnschedulable E kube False) (\<lambda>_. ret None) (\<lambda>kube'. ret (Some kube'))) ?Q (\<lambda>_. True)"
    by (rule triple_attempt) (auto intro!: triple_ret elim: holding_mono)
  then have "triple (allowed E r n) (holding crd (\<lambda>t. M t \<and> (b \<longrightarrow> nodesReady t)) n node kube)
      (if \<not> b then ret None else attempt (setUnschedulable E kube False) (\<lambda>_. ret None) (\<lambda>kube'. ret (Some kube')))
      ?Q (\<lambda>_. True)" for b
    by (intro triple_if triple_ret) auto
  from triple_attempt [OF IsClusterNodesHealthy_triple [OF assms(2)] this, of "\<lambda>_. ret None"]
  have "triple (allowed E r n) (holding crd M n node kube) (attempt (IsClusterNodesHealthy E) (\<lambda>_. ret None)
      (\<lambda>b. if \<not> b then ret None
           else attempt (setUnschedulable E kube False) (\<lambda>_. ret None) (\<lambda>kube'. ret (Some kube')))) ?Q (\<lambda>_. True)"
    by (simp add: triple_ret)
  then show ?thesis
    unfolding undrainUncordon_def by (intro triple_if triple_ret) (auto simp: holding_def)
qed

text \<open>What is held when \<open>undrain\<close> says that reconciliation goes on.\<close>

definition goesOn :: "(history \<Rightarrow> bool) \<Rightarrow> string \<Rightarrow> bool \<times> Result \<times> Node \<times> KubeNode \<Rightarrow> history \<Rightarrow> bool" where
  "goesOn M n = (\<lambda>(ok, _, node, kube) t. ok \<longrightarrow> holding False M n node kube t)"

lemma undrainFinish_triple:
  assumes "keepsNames E" and "stable M" and "currentState node = NodeCurrentStateUndraining"
  shows "triple (allowed E r n) (holding crd M n node kube) (undrainFinish E r node kube) (goesOn M n) (\<lambda>_. True)"
proof -
  have wait: "triple (allowed E r n) P (ret (requeue30 x k)) (goesOn M n) (\<lambda>_. True)" for P x k
    by (rule triple_ret) (simp add: goesOn_def requeue30_def)
  have fin: "triple (allowed E r n) (holding False M n node' k)
      (bind (setCurrentState E node' NodeCurrentStateOk) (\<lambda>node''.
       bind (eventf (Name node'') EventTypeNormal x y) (\<lambda>_. ret (True, emptyResult, node'', k)))) (goesOn M n) (\<lambda>_. True)"
    for node' k x y
    by (intro triple_bind [OF setCurrentState_triple [OF assms(1,2)]] triple_bind [OF event_triple [OF assms(2)]] triple_ret)
      (auto simp: goesOn_def current_defs)
  have clear: "triple (allowed E r n) (holding False M n node k)
      (if isDrained node then setDrained E node False else ret node) (\<lambda>node'. holding False M n node' k) (\<lambda>_. True)" for k
    by (intro triple_if setDrained_triple [OF assms(1,2)] triple_ret)
  have post: "triple (allowed E r n) (holding False M n node k) (RunPostDrain E (drainManager r) node)
      (\<lambda>_. holding False M n node k) (\<lambda>_. True)" for k
    by (rule plugin_triple [OF only_drain_manager(4) assms(2)])
  have some: "triple (allowed E r n) (holding False M n node k)
      (attempt (RunPostDrain E (drainManager r) node) (\<lambda>_. ret (requeue30 node k))
         (\<lambda>_. attempt (if isDrained node then setDrained E node False else ret node) (\<lambda>_. ret (requeue30 node k))
            (\<lambda>node'. bind (setCurrentState E node' NodeCurrentStateOk) (\<lambda>node''.
               bind (eventf (Name node'') EventTypeNormal x y) (\<lambda>_. ret (True, emptyResult, node'', k))))))
      (goesOn M n) (\<lambda>_. True)" for k x y
    by (intro triple_attempt [OF post] triple_attempt [OF clear] fin wait)
  show ?thesis
    unfolding undrainFinish_def
    by (intro triple_bind [OF undrainUncordon_triple [OF assms]] triple_option)
      (simp_all add: wait some split del: if_split)
qed

lemma undrain_triple:
  assumes "keepsNames E" and "stable M"
  shows "triple (allowed E r n) (holding crd M n node kube) (undrain E r node kube) (goesOn M n) (\<lambda>_. True)"
proof -
  have begin_undrain: "triple (allowed E r n) (holding crd M n node kube)
      (bind (setCurrentState E node NodeCurrentStateUndraining) (\<lambda>node'. ret (False, res, node', kube))) (goesOn M n) (\<lambda>_. True)"
    for res
    by (intro triple_bind [OF setCurrentState_triple [OF assms]] triple_ret) (auto simp: goesOn_def current_defs)
  have needed: "triple (allowed E r n) (holding crd M n node kube) (of_res (undrainNeeded node))
      (\<lambda>_. holding crd M n node kube) (\<lambda>_. True)"
    by (rule triple_of_res) simp_all
  show ?thesis
    unfolding undrain_def
    by (intro triple_if undrainFinish_triple [OF assms] triple_bind [OF needed] begin_undrain triple_ret)
      (auto simp: goesOn_def holding_def)
qed

section \<open>The switch, the queue and the reboot\<close>

lemma holding_forget: "holding crd M n node kube t \<Longrightarrow> holding False M n node kube t"
  by (auto simp: holding_def)

text \<open>What is held after a step that may end the reconciliation early.\<close>

abbreviation heldAfter :: "(history \<Rightarrow> bool) \<Rightarrow> string \<Rightarrow> Result option \<times> Node \<times> KubeNode \<Rightarrow> history \<Rightarrow> bool" where
  "heldAfter M n \<equiv> (\<lambda>(_, node, kube). holding False M n node kube)"

lemma switchState_triple:
  assumes "keepsNames E" and "stable M"
  shows "triple (allowed E r n) (holding False M n node kube) (switchState E r node kube) (heldAfter M n) (\<lambda>_. True)"
proof -
  have clean: "triple (allowed E r n) (holding False M n node' kube')
      (attempt (CleanupNode E (rebootManager r) (Name node')) (\<lambda>_. ret (None, node', kube')) (\<lambda>_. ret (None, node', kube')))
      (heldAfter M n) (\<lambda>_. True)" for node' kube'
  proof (rule triple_given [where c = "Name node' = n"])
    assume n: "Name node' = n"
    have "triple (allowed E r n) (holding False M n node' kube') (CleanupNode E (rebootManager r) n)
        (\<lambda>_. holding False M n node' kube') (holding False M n node' kube')"
      by (rule triple_frame [OF only_CleanupNode])
        (use assms(2) in \<open>auto simp: allowed_def reboot_event_def creates_def intro: holding_frame
          dest: reboot_event_frame split: event.splits\<close>)
    then show ?thesis unfolding n by (rule triple_attempt) (auto intro: triple_ret)
  qed (simp add: holding_def)
  have active: "triple (allowed E r n) (holding False M n node kube) (setUnschedulable E kube False)
      (\<lambda>kube'. holding False M n node kube') (\<lambda>_. True)"
    if "specState node = NodeStateActive" "ownOrNoManager E r kube"
    by (rule setUnschedulable_triple [OF assms]) (use that in \<open>auto simp: holding_def\<close>)
  have cordon: "triple (allowed E r n) (holding False M n node kube) (setUnschedulable E kube True)
      (\<lambda>kube'. holding True M n node kube') (\<lambda>_. True)" if "specState node = NodeStateCordoned"
    by (rule setUnschedulable_triple [OF assms]) (use that in \<open>auto simp: holding_def\<close>)
  show ?thesis
    unfolding switchState_def Let_def
    by (intro triple_if triple_bind [OF event_triple [OF assms(2)]] triple_bind [OF active] triple_bind [OF cordon]
        triple_bind [OF setCurrentState_triple [OF assms]] clean triple_ret)
      (auto simp: ownOrNoManager_def current_defs dest: holding_forget)
qed

lemma isNextNode_triple:
  assumes "keepsNames E" and "stable M"
  shows "triple (allowed E r n) (holding crd M n node kube) (isNextNode E node) (\<lambda>_ _. True) (\<lambda>_. True)"
proof -
  let ?L = "\<lambda>l t. holding crd M n node kube t \<and> (\<exists>s. t = s @ [EvListNodes (Inr l)])"
  have list: "triple (allowed E r n) (holding crd M n node kube) (listNodes E) ?L (\<lambda>_. True)"
    unfolding listNodes_def
    by (rule triple_call) (use assms(2) in \<open>auto simp: allowed_def intro: holding_frame\<close>)
  have pick: "triple (allowed E r n) (?L l) (setCurrentState E node NodeCurrentStateNext) (\<lambda>_ _. True) (\<lambda>_. True)"
    if "\<not> someWorks l" "currentState node = NodeCurrentStateQueued" for l
    unfolding setCurrentState_def patchStatus_def
    by (intro triple_if triple_ret triple_wrapf triple_call)
      (use that in \<open>auto simp: holding_def allowed_def idleListed_def someWorks_iff\<close>)
  show ?thesis
    unfolding isNextNode_def by (intro triple_bind [OF list] triple_if triple_ret triple_bind [OF pick]) simp_all
qed

lemma rebootStillRequired_triple:
  assumes "keepsNames E" and "polls_only E" and "stable M"
  shows "triple (allowed E r n) (holding crd M n node kube) (rebootStillRequired E r node)
    (\<lambda>(_, node'). holding crd M n node' kube) (\<lambda>_. True)"
proof -
  let ?Q = "\<lambda>(_, node'). holding crd M n node' kube"
  have required: "triple (allowed E r n) (holding crd M n node kube)
      (if due then isRebootRequired E r node else ret (b, node)) ?Q (\<lambda>_. True)" for due b
    by (intro triple_if isRebootRequired_triple [OF assms] triple_ret) simp
  have stop: "triple (allowed E r n) (?Q x)
      (case x of (required, node) \<Rightarrow>
         if \<not> required then bind (setState E node NodeStateActive) (\<lambda>node. ret (Some emptyResult, node)) else ret (None, node))
      ?Q (\<lambda>_. True)" for x
    by (cases x, simp only: prod.case)
      (intro triple_if triple_ret triple_bind [OF setState_triple [OF assms(1,3)]], auto)
  show ?thesis
    unfolding rebootStillRequired_def
    by (intro triple_if triple_ret triple_bind [OF lastCheckedBefore_triple [OF assms(3)]] triple_bind [OF required stop]) simp
qed

lemma bind_of_res: "bind (of_res (Ok a)) f = f a"
  by (simp add: bind_def of_res_def fun_eq_iff split: prod.split)

lemma RebootNode_triple:
  assumes "stable M" and "\<And>t. M t \<Longrightarrow> rebootRequested t \<and> savedBootId (kBootID kube) t"
  shows "triple (allowed E r n) (holding crd M n node kube) (RebootNode E (rebootManager r) node)
    (\<lambda>_. holding crd M n node kube) (\<lambda>_. True)"
proof (rule triple_given [where c = "Name node = n"])
  assume n: "Name node = n"
  let ?read = "\<lambda>ko t. M t \<and> (\<forall>k. ko = Some k \<longrightarrow> EvGetClusterNode n (Inr k) \<in> set t)"
  have get: "triple (allowed E r n) (holding crd M n node kube) (GetNode E n) (\<lambda>ko. holding crd (?read ko) n node kube) (\<lambda>_. True)"
    using assms(1) by (auto simp: triple_def run_GetNode allowed_def holding_def cordoned_def stable_def split: sum.splits)
  have create: "triple (allowed E r n) (holding crd (?read (Some k)) n node kube) (createPod E p)
      (\<lambda>_. holding crd M n node kube) (holding crd M n node kube)"
    if "kUnschedulable k" "rebootNodePod E (rebootManager r) n = Ok p" for k p
    unfolding createPod_def using rebootNodePod_Ok [OF that(2)] that(1) assms
    by (intro triple_call) (auto simp: holding_def allowed_def bootIdSaved_def cordoned_def stable_def)
  have stR: "stable (?read ko)" for ko using assms(1) by (auto simp: stable_def)
  have pod: "triple (allowed E r n) (holding crd (?read (Some k)) n node kube)
      (bind (of_res (rebootNodePod E (rebootManager r) n)) (\<lambda>spec. attempt (createPod E spec)
         (\<lambda>e. bind (eventf m EventTypeWarning x (y e)) (\<lambda>_. fail (z e))) (\<lambda>_. ret ())))
      (\<lambda>_. holding crd M n node kube) (\<lambda>_. True)" if "kUnschedulable k" for k m x y z
  proof (cases "rebootNodePod E (rebootManager r) n")
    case (Ok p)
    have "triple (allowed E r n) (holding crd (?read (Some k)) n node kube) (attempt (createPod E p)
         (\<lambda>e. bind (eventf m EventTypeWarning x (y e)) (\<lambda>_. fail (z e))) (\<lambda>_. ret ()))
         (\<lambda>_. holding crd M n node kube) (\<lambda>_. True)"
      by (intro triple_attempt [OF create [OF that Ok]] triple_ret triple_bind [OF event_triple [OF assms(1)]] triple_fail) simp_all
    then show ?thesis unfolding Ok by (simp add: bind_of_res)
  qed (auto simp: triple_def run_simps)
  have skip: "triple (allowed E r n) (holding crd (?read (Some k)) n node kube) (eventf m ty x y)
      (\<lambda>_. holding crd M n node kube) (\<lambda>_. True)" for k m ty x y
    by (rule triple_post [OF event_triple [OF stR]]) (auto elim: holding_mono)
  have some: "triple (allowed E r n) (holding crd (?read (Some k)) n node kube)
      (if \<not> kUnschedulable k then fail e else if b then eventf m ty x y else
       bind (eventf m ty x' y') (\<lambda>_. bind (of_res (rebootNodePod E (rebootManager r) n)) (\<lambda>spec.
         attempt (createPod E spec) (\<lambda>e. bind (eventf m EventTypeWarning v (w e)) (\<lambda>_. fail (z e))) (\<lambda>_. ret ()))))
      (\<lambda>_. holding crd M n node kube) (\<lambda>_. True)" for k e b m ty x y x' y' v w z
    by (intro triple_if triple_fail skip triple_bind [OF event_triple [OF stR]] pod) simp_all
  show ?thesis
    unfolding RebootNode_def n
  proof (rule triple_bind [OF get], goal_cases)
    case (1 ko)
    show ?case by (cases ko, simp only: option.case, rule triple_fail, simp, simp only: option.case, rule some)
  qed
qed (simp add: holding_def)

lemma IsNodeRebooted_triple:
  assumes "polls_only E" and "stable M"
  shows "triple (allowed E r n) (holding crd M n node kube) (IsNodeRebooted E (rebootManager r) kube b)
    (\<lambda>_. holding crd M n node kube) (\<lambda>_. True)"
proof (rule triple_given [where c = "kName kube = n"])
  assume n: "kName kube = n"
  show ?thesis
  proof (rule reboot_triple [OF only_IsNodeRebooted [OF assms(1), of "rebootManager r" kube, unfolded n] assms(2)], elim exE conjE)
    fix p q assume "rebootRequiredPod E (rebootManager r) n = Ok q" "p = rebootRequiredRemovePod q"
    then show "pNamespace p = rmNamespace (rebootManager r) \<and> pdNodeName (pSpec p) = n \<and> \<not> pdHostPID (pSpec p)"
      using rebootRequiredPod_Ok [of E "rebootManager r" n q] by (simp add: rebootRequiredRemovePod_def Let_def)
  qed
qed (simp add: holding_def)

lemma reboot_step_triple:
  assumes "keepsNames E" and "polls_only E" and "stable M"
  shows "triple (allowed E r n) (holding crd M n node kube) (reboot E r node kube) (\<lambda>_ _. True) (\<lambda>_. True)"
proof -
  let ?now = "\<lambda>t. node\<lparr>Status := Status node\<lparr>BootID := '''', RebootRequired := Some False, RebootRequiredLastChecked := Some t\<rparr>\<rparr>"
  have start: "triple (allowed E r n) (holding crd M n node kube)
      (bind (setBootID E node kube) (\<lambda>node'. bind (RebootNode E (rebootManager r) node') (\<lambda>_.
       bind (setCurrentState E node' NodeCurrentStateRebooting) (\<lambda>_. ret res)))) (\<lambda>_ _. True) (\<lambda>_. True)"
    if now: "specState node = NodeStateRebootIfRequired" "currentState node = NodeCurrentStateDrained" "isDrained node" for res
  proof -
    let ?N = "\<lambda>t. M t \<and> rebootRequested t" and ?S = "\<lambda>t. (M t \<and> rebootRequested t) \<and> savedBootId (kBootID kube) t"
    have sN: "stable ?N" and sS: "stable ?S" by (intro stable_conj assms(3) stable_evidence)+
    have "triple (allowed E r n) (holding crd ?N n node kube)
      (bind (setBootID E node kube) (\<lambda>node'. bind (RebootNode E (rebootManager r) node') (\<lambda>_.
       bind (setCurrentState E node' NodeCurrentStateRebooting) (\<lambda>_. ret res)))) (\<lambda>_ _. True) (\<lambda>_. True)"
      by (intro triple_bind [OF setBootID_triple [OF assms(1) sN]] triple_bind [OF RebootNode_triple [OF sS]]
          triple_bind [OF setCurrentState_triple [OF assms(1) sS]] triple_ret) (auto simp: current_defs)
    then show ?thesis
      by (rule triple_pre) (use now in \<open>auto simp: holding_def rebootRequested_def dest: lastNode_seen\<close>)
  qed
  have tail: "triple (allowed E r n) (holding crd M n node' kube)
      (bind (setState E node' NodeStateActive) (\<lambda>node'. bind (eventf (Name node') EventTypeNormal x y) (\<lambda>_. ret res)))
      (\<lambda>_ _. True) (\<lambda>_. True)" for node' x y res
    by (intro triple_bind [OF setState_triple [OF assms(1,3)]] triple_bind [OF event_triple [OF assms(3)]] triple_ret) simp
  have fin: "triple (allowed E r n) (holding crd M n node kube)
      (bind (now E) (\<lambda>t. bind (wrapf msg (patchStatus E node (?now t))) (\<lambda>node'.
       bind (setState E node' NodeStateActive) (\<lambda>node'. bind (eventf (Name node') EventTypeNormal x y) (\<lambda>_. ret res)))))
      (\<lambda>_ _. True) (\<lambda>_. True)" for msg x y res
    by (intro triple_bind [OF now_triple [OF assms(3)]] triple_bind [OF writeStatus [OF assms(1,3)] tail])
      (auto elim: holding_mono)
  show ?thesis
    unfolding reboot_def
    by (intro triple_if start triple_ret triple_bind [OF IsNodeRebooted_triple [OF assms(2,3)]] fin) auto
qed

section \<open>Reconciliation\<close>

lemma finish_triple:
  assumes "keepsNames E" and "polls_only E" and "stable M"
  shows "triple (allowed E r n) (heldAfter M n x)
      (case x of (early, node, kube) \<Rightarrow> case early of Some res \<Rightarrow> ret res | None \<Rightarrow> reboot E r node kube)
      (\<lambda>_ _. True) (\<lambda>_. True)"
  by (cases x; cases "fst x") (auto intro: triple_ret reboot_step_triple [OF assms])

lemma drainPhase_triple:
  assumes "keepsNames E" and "polls_only E" and "stable M" and "\<And>t. M t \<Longrightarrow> workSeen t"
  shows "triple (allowed E r n) (holding False M n node kube)
      (bind (if Drain (specState node) \<and> \<not> isDrained node then drain E r node kube else ret (None, node, kube))
         (\<lambda>(early, node, kube). case early of Some res \<Rightarrow> ret res | None \<Rightarrow> reboot E r node kube))
      (\<lambda>_ _. True) (\<lambda>_. True)"
proof -
  have "triple (allowed E r n) (holding False M n node kube) (drain E r node kube) (heldAfter M n) (\<lambda>_. True)"
    if "Drain (specState node) \<and> \<not> isDrained node"
  proof -
    let ?N = "\<lambda>t. M t \<and> drainRequested t"
    have "stable ?N" by (intro stable_conj assms(3) stable_evidence)
    then have "triple (allowed E r n) (holding False ?N n node kube) (drain E r node kube) (heldAfter ?N n) (\<lambda>_. True)"
      by (rule drain_triple [OF assms(1)]) simp
    then have "triple (allowed E r n) (holding False ?N n node kube) (drain E r node kube) (heldAfter M n) (\<lambda>_. True)"
      by (rule triple_post) (auto elim: holding_mono)
    then show ?thesis
      by (rule triple_pre) (use that assms(4) in \<open>auto simp: holding_def drainRequested_def dest: lastNode_seen\<close>)
  qed
  then have "triple (allowed E r n) (holding False M n node kube)
      (if Drain (specState node) \<and> \<not> isDrained node then drain E r node kube else ret (None, node, kube))
      (heldAfter M n) (\<lambda>_. True)"
    by (intro triple_if triple_ret) auto
  then show ?thesis by (rule triple_bind) (rule finish_triple [OF assms(1-3)])
qed

lemma work_triple:
  assumes "keepsNames E" and "polls_only E" and "stable M"
  shows "triple (allowed E r n) (holding False M n node kube) (work E r node kube) (\<lambda>_ _. True) (\<lambda>_. True)"
proof -
  let ?W = "\<lambda>t. M t \<and> workSeen t"
  have sW: "stable ?W" by (intro stable_conj assms(3) stable_evidence)
  have busy: "triple (allowed E r n) (case x of (_, node) \<Rightarrow> holding False ?W n node kube)
      (case x of (early, node) \<Rightarrow> case early of Some res \<Rightarrow> ret res | None \<Rightarrow>
         bind (if Drain (specState node) \<and> \<not> isDrained node then drain E r node kube else ret (None, node, kube))
           (\<lambda>(early, node, kube). case early of Some res \<Rightarrow> ret res | None \<Rightarrow> reboot E r node kube))
      (\<lambda>_ _. True) (\<lambda>_. True)" for x
  proof (cases x)
    case (Pair early node)
    have "triple (allowed E r n) (holding False ?W n node kube)
      (bind (if Drain (specState node) \<and> \<not> isDrained node then drain E r node kube else ret (None, node, kube))
         (\<lambda>(early, node, kube). case early of Some res \<Rightarrow> ret res | None \<Rightarrow> reboot E r node kube)) (\<lambda>_ _. True) (\<lambda>_. True)"
      by (rule drainPhase_triple [OF assms(1,2) sW]) simp
    then show ?thesis
      unfolding Pair prod.case by (cases early) (simp_all only: option.case triple_ret)
  qed
  have "triple (allowed E r n) (holding False ?W n node kube) (bind (rebootStillRequired E r node)
      (\<lambda>(early, node). case early of Some res \<Rightarrow> ret res | None \<Rightarrow>
         bind (if Drain (specState node) \<and> \<not> isDrained node then drain E r node kube else ret (None, node, kube))
           (\<lambda>(early, node, kube). case early of Some res \<Rightarrow> ret res | None \<Rightarrow> reboot E r node kube)))
      (\<lambda>_ _. True) (\<lambda>_. True)"
    by (rule triple_bind [OF rebootStillRequired_triple [OF assms(1,2) sW]])
      (use busy in \<open>simp add: case_prod_unfold\<close>)
  then have working: "triple (allowed E r n) (holding False M n node kube) (bind (rebootStillRequired E r node)
      (\<lambda>(early, node). case early of Some res \<Rightarrow> ret res | None \<Rightarrow>
         bind (if Drain (specState node) \<and> \<not> isDrained node then drain E r node kube else ret (None, node, kube))
           (\<lambda>(early, node, kube). case early of Some res \<Rightarrow> ret res | None \<Rightarrow> reboot E r node kube)))
      (\<lambda>_ _. True) (\<lambda>_. True)" if "WorkState (currentState node)"
    by (rule triple_pre) (use that in \<open>auto simp: holding_def workSeen_def dest: lastNode_seen\<close>)
  have queued: "triple (allowed E r n) (holding False M n node kube)
      (bind (isNextNode E node) (\<lambda>(next, _). if next then ret a else ret b)) (\<lambda>_ _. True) (\<lambda>_. True)" for a b
    by (rule triple_bind [OF isNextNode_triple [OF assms(1,3)]]) (simp add: triple_def split: prod.split)
  show ?thesis
    unfolding work_def by (intro triple_if working queued triple_ret) simp_all
qed

lemma reconcileNode_triple:
  assumes "keepsNames E" and "polls_only E"
  shows "triple (allowed E r n) (holding False (\<lambda>_. True) n node kube) (reconcileNode E r node kube) (\<lambda>_ _. True) (\<lambda>_. True)"
proof -
  let ?M = "\<lambda>_::history. True"
  note sM = stable_True
  have last: "triple (allowed E r n) (heldAfter ?M n x)
      (case x of (early, node, kube) \<Rightarrow> case early of Some res \<Rightarrow> ret res | None \<Rightarrow> work E r node kube)
      (\<lambda>_ _. True) (\<lambda>_. True)" for x
    by (cases x; cases "fst x") (auto intro: triple_ret work_triple [OF assms sM])
  have cleared: "triple (allowed E r n) (holding False ?M n node' kube')
      (if \<not> kUnschedulable kube' \<and> isDrained node' then setDrained E node' False else ret node')
      (\<lambda>node'. holding False ?M n node' kube') (\<lambda>_. True)" for node' kube'
    by (intro triple_if setDrained_triple [OF assms(1) sM] triple_ret)
  have rest: "triple (allowed E r n) (holding False ?M n node' kube')
     (bind (if \<not> kUnschedulable kube' \<and> isDrained node' then setDrained E node' False else ret node') (\<lambda>node.
      bind (checkRebootRequired E r node) (\<lambda>node.
      bind (switchState E r node kube') (\<lambda>(early, node, kube).
      case early of Some res \<Rightarrow> ret res | None \<Rightarrow> work E r node kube)))) (\<lambda>_ _. True) (\<lambda>_. True)" for node' kube'
    by (intro triple_bind [OF cleared] triple_bind [OF checkRebootRequired_triple [OF assms sM]]
        triple_bind [OF switchState_triple [OF assms(1) sM] last])
  show ?thesis
    unfolding reconcileNode_def
  proof (rule triple_bind [OF undrain_triple [OF assms(1) sM]], goal_cases)
    case (1 x)
    obtain ok res node' kube' where x: "x = (ok, res, node', kube')" by (cases x)
    show ?case
      unfolding x prod.case
      by (cases ok) (simp_all add: goesOn_def rest triple_ret del: if_split cong: if_cong)
  qed
qed

lemma Reconcile_triple:
  assumes "keepsNames E" and "polls_only E"
  shows "triple (allowed E r n) (\<lambda>t. t = []) (Reconcile E r n) (\<lambda>_ _. True) (\<lambda>_. True)"
proof -
  let ?K = "\<lambda>kube t. lastKube t = Some kube \<and> kName kube = n \<and> (kUnschedulable kube \<longrightarrow> cordoned t) \<and> lastNode t = None"
  have kube: "triple (allowed E r n) (\<lambda>t. t = []) (getKubeNode E n) ?K (\<lambda>_. True)"
    unfolding getKubeNode_def
    by (rule triple_call) (use assms(1) in \<open>auto simp: allowed_def latest_def cordoned_def keepsNames_def\<close>)
  have node: "triple (allowed E r n) (?K kube) (getNode E n) (\<lambda>node. holding False (\<lambda>_. True) n node kube) (?K kube)" for kube
    unfolding getNode_def
    by (rule triple_call) (use assms(1) in \<open>auto simp: allowed_def holding_def cordoned_def keepsNames_def\<close>)
  have create: "triple (allowed E r n) (?K kube) (createNode E (eAddFinalizer E y nodeDrainFinalizer)) (\<lambda>_ _. True) (\<lambda>_. True)"
    if "eSetOwnerReference E kube (freshNode kube) = Inr y" for kube y
    unfolding createNode_def by (rule triple_call) (use that in \<open>auto simp: allowed_def\<close>)
  have missing: "triple (allowed E r n) (?K kube) (createNewNode E kube) (\<lambda>_ _. True) (\<lambda>_. True)" for kube
    unfolding createNewNode_def by (intro triple_sum triple_fail triple_bind [OF create] triple_ret) simp_all
  have update: "triple (allowed E r n) (holding False (\<lambda>_. True) n y kube)
      (updateNode E (eRemoveFinalizer E y nodeDrainFinalizer)) (\<lambda>_ _. True) (\<lambda>_. True)"
    if "\<not> IsZero (DeletionTimestamp y)" "eContainsFinalizer E y nodeDrainFinalizer" for y kube
    unfolding updateNode_def by (rule triple_call) (use that in \<open>auto simp: allowed_def holding_def\<close>)
  show ?thesis
    unfolding Reconcile_def
    by (intro triple_bind [OF kube] triple_attempt [OF node] triple_if triple_fail missing triple_bind [OF update]
        triple_ret reconcileNode_triple [OF assms]) simp_all
qed

text \<open>The main lemma: every event of a reconciliation is allowed after the events before it.\<close>

lemma Reconcile_allowed:
  assumes "keepsNames E" and "polls_only E" and "emitted (Reconcile E r n) h = pre @ e # post"
  shows "allowed E r n pre e"
  using tripleD(1) [OF Reconcile_triple [OF assms(1,2)], of r n h] assms(3) by simp

section \<open>Properties\<close>

text \<open>Concrete runs: a controller with one plugin on another node, and a node in a given state.\<close>

definition sampleReconciler :: nodeReconciler where
  "sampleReconciler = \<lparr>managerNamespace = ''ns'', nodeName = ''n9'', rebootManager = \<lparr>rmNamespace = ''ns''\<rparr>,
     drainManager = oneplugin\<rparr>"

definition nodeIn :: "NodeState \<Rightarrow> NodeCurrentState \<Rightarrow> bool \<Rightarrow> Node" where
  "nodeIn s c d = sampleNode\<lparr>Spec := \<lparr>State = s\<rparr>, Status := sampleStatus\<lparr>CurrentState := c, Drained := d,
     RebootRequired := Some True, RebootRequiredLastChecked := Some (1000 * Hour)\<rparr>\<rparr>"

definition envIn :: "NodeState \<Rightarrow> NodeCurrentState \<Rightarrow> bool \<Rightarrow> bool \<Rightarrow> env" where
  "envIn s c d u = sampleEnv\<lparr>
     eGetNode := (\<lambda>h n. Inr ((nodeIn s c d)\<lparr>Name := n\<rparr>)),
     eGetKubeNode := (\<lambda>h n. Inr (sampleKube\<lparr>kName := n, kUnschedulable := u\<rparr>)),
     eGetClusterNode := (\<lambda>h n. Inr (sampleKube\<lparr>kName := n, kUnschedulable := True\<rparr>))\<rparr>"

lemma envIn_laws: "keepsNames (envIn s c d u)" "polls_only (envIn s c d u)"
proof -
  show "keepsNames (envIn s c d u)" by (auto simp: keepsNames_def envIn_def sampleEnv_def)
  show "polls_only (envIn s c d u)" by (rule pollOnce_only) (simp add: envIn_def)
qed

text \<open>C2. The gate of the drain. Whenever a reconciliation evicts the pods of a node, then before it in
  the same reconciliation: the node was seen in a work state with a drain requested and not done; the
  cluster node was cordoned; every registered plugin that says it is supported ran its PreDrain hook
  for this node without an error; the pods of the reboot manager on the node were deleted. The node is
  the reconciled one and not the one the controller runs on, and the options are those of the source
  (graceful periods respected, daemon sets ignored, one minute).\<close>

theorem drain_gate:
  assumes "keepsNames E" and "polls_only E"
    and "emitted (Reconcile E r n) h = pre @ EvRunNodeDrain dh m x # post"
  shows "m = n \<and> dh = drainHelper \<and> n \<noteq> nodeName r \<and> drainRequested pre \<and> cordoned pre \<and>
    preDrained (drainManager r) n pre \<and> cleaned (rebootManager r) n pre"
  using Reconcile_allowed [OF assms] by (simp add: allowed_def)

theorem drain_gate_witness:
  "\<exists>pre x post. emitted (Reconcile (envIn ''Drained'' ''Next'' False False) sampleReconciler ''n1'') [] =
       pre @ EvRunNodeDrain drainHelper ''n1'' x # post \<and> cordoned pre \<and> preDrained oneplugin ''n1'' pre"
proof -
  have "EvRunNodeDrain drainHelper ''n1'' (Inr ()) \<in>
      set (emitted (Reconcile (envIn ''Drained'' ''Next'' False False) sampleReconciler ''n1'') [])"
    by code_simp
  from split_list [OF this] obtain pre post where
    s: "emitted (Reconcile (envIn ''Drained'' ''Next'' False False) sampleReconciler ''n1'') [] =
      pre @ EvRunNodeDrain drainHelper ''n1'' (Inr ()) # post" by blast
  from drain_gate [OF envIn_laws s] s show ?thesis by (auto simp: sampleReconciler_def)
qed

text \<open>C3. The gate of starting a drain. The only way a reconciliation moves a node into state Draining is
  from state Next, in the object it last received, and only after all nodes of the cluster were listed as
  ready, every plugin was consulted on its health and then on this drain, and both verdicts were yes.\<close>

theorem start_gate:
  assumes "keepsNames E" and "polls_only E"
    and "emitted (Reconcile E r n) h = pre @ EvPatchStatus old new x # post"
    and "currentState new = NodeCurrentStateDraining" and "currentState old \<noteq> NodeCurrentStateDraining"
  shows "lastNode pre = Some old \<and> currentState old = NodeCurrentStateNext \<and> drainApproved (drainManager r) n pre"
  using Reconcile_allowed [OF assms(1-3)] assms(4,5) by (simp add: allowed_def)

theorem start_gate_witness:
  "\<exists>pre old new x post. emitted (Reconcile (envIn ''Drained'' ''Next'' False False) sampleReconciler ''n1'') [] =
       pre @ EvPatchStatus old new x # post \<and> currentState new = ''Draining'' \<and> drainApproved oneplugin ''n1'' pre"
proof -
  let ?old = "(nodeIn ''Drained'' ''Next'' False)\<lparr>Name := ''n1''\<rparr>"
  let ?new = "(nodeIn ''Drained'' ''Draining'' False)\<lparr>Name := ''n1''\<rparr>"
  have "EvPatchStatus ?old ?new (Inr ?new) \<in>
      set (emitted (Reconcile (envIn ''Drained'' ''Next'' False False) sampleReconciler ''n1'') [])"
    by code_simp
  from split_list [OF this] obtain pre post where
    s: "emitted (Reconcile (envIn ''Drained'' ''Next'' False False) sampleReconciler ''n1'') [] =
      pre @ EvPatchStatus ?old ?new (Inr ?new) # post" by blast
  have "currentState ?new = NodeCurrentStateDraining" "currentState ?old \<noteq> NodeCurrentStateDraining"
    by (simp_all add: nodeIn_def current_defs)
  from start_gate [OF envIn_laws s this] have "drainApproved oneplugin ''n1'' pre" by (simp add: sampleReconciler_def)
  moreover have "currentState ?new = ''Draining''" by (simp add: nodeIn_def)
  ultimately show ?thesis using s by blast
qed

text \<open>C4. The gate of the queue. A reconciliation makes a node the next one to be drained only when the
  object it last received says the node is queued, and immediately after a list of all node objects in
  which no node is in a work state.\<close>

theorem queue_gate:
  assumes "keepsNames E" and "polls_only E"
    and "emitted (Reconcile E r n) h = pre @ EvPatchStatus old new x # post"
    and "currentState new = NodeCurrentStateNext" and "currentState old \<noteq> NodeCurrentStateNext"
  shows "lastNode pre = Some old \<and> currentState old = NodeCurrentStateQueued \<and> idleListed pre"
  using Reconcile_allowed [OF assms(1-3)] assms(4,5) by (simp add: allowed_def)

theorem queue_gate_witness:
  "\<exists>pre old new x post. emitted (Reconcile (envIn ''Drained'' ''Queued'' False False) sampleReconciler ''n1'') [] =
       pre @ EvPatchStatus old new x # post \<and> currentState new = ''Next'' \<and> idleListed pre"
proof -
  let ?m = "Reconcile (envIn ''Drained'' ''Queued'' False False) sampleReconciler ''n1''"
  let ?old = "nodeIn ''Drained'' ''Queued'' False" and ?new = "nodeIn ''Drained'' ''Next'' False"
  have "EvPatchStatus ?old ?new (Inr ?new) \<in> set (emitted ?m [])" by code_simp
  from split_list [OF this] obtain pre post where s: "emitted ?m [] = pre @ EvPatchStatus ?old ?new (Inr ?new) # post"
    by blast
  have "currentState ?new = NodeCurrentStateNext" "currentState ?old \<noteq> NodeCurrentStateNext"
    by (simp_all add: nodeIn_def current_defs)
  from queue_gate [OF envIn_laws s this] have "idleListed pre" by simp
  moreover have "currentState ?new = ''Next''" by (simp add: nodeIn_def)
  ultimately show ?thesis using s by blast
qed

text \<open>C11. The gate of the reboot. A reconciliation creates a pod with access to the host's processes only
  when, before it: a node object was received that requests a reboot and is in state Drained with the
  drained flag set; the boot id of the cluster node is on record in the status; and a read of the
  cluster node showed it cordoned. Every pod it creates is in the manager's namespace and bound to the
  reconciled node.\<close>

theorem reboot_gate:
  assumes "keepsNames E" and "polls_only E"
    and "emitted (Reconcile E r n) h = pre @ EvCreatePod p x # post"
  shows "pNamespace p = rmNamespace (rebootManager r) \<and> pdNodeName (pSpec p) = n \<and>
    (pdHostPID (pSpec p) \<longrightarrow> rebootRequested pre \<and> bootIdSaved pre \<and>
       (\<exists>k. EvGetClusterNode n (Inr k) \<in> set pre \<and> kUnschedulable k))"
  using Reconcile_allowed [OF assms] by (simp add: allowed_def)

theorem reboot_gate_witness:
  "\<exists>pre p x post. emitted (Reconcile (envIn ''RebootIfRequired'' ''Drained'' True True) sampleReconciler ''n1'') [] =
       pre @ EvCreatePod p x # post \<and> pdHostPID (pSpec p) \<and> rebootRequested pre \<and> bootIdSaved pre"
proof -
  let ?E = "envIn ''RebootIfRequired'' ''Drained'' True True"
  define p where "p = (case rebootNodePod ?E \<lparr>rmNamespace = ''ns''\<rparr> ''n1'' of Ok p \<Rightarrow> p | _ \<Rightarrow> emptyPod)"
  have "EvCreatePod p (Inr (samplePod p)) \<in> set (emitted (Reconcile ?E sampleReconciler ''n1'') [])"
    unfolding p_def by code_simp
  from split_list [OF this] obtain pre post where
    s: "emitted (Reconcile ?E sampleReconciler ''n1'') [] = pre @ EvCreatePod p (Inr (samplePod p)) # post" by blast
  have "pdHostPID (pSpec p)" unfolding p_def by code_simp
  with reboot_gate [OF envIn_laws s] s show ?thesis by auto
qed

text \<open>C12. The gate of the cordon. A reconciliation writes the cluster node only to flip its unschedulable
  flag, in the object it last received. It sets the flag only for a requested cordon or a requested
  drain. It clears the flag only for a node in state Undraining after all nodes were listed as ready, or
  for a node requested to be active whose flag is owned by nobody or by this controller: a node that
  somebody else cordoned stays cordoned unless the controller is undoing a drain of its own.\<close>

theorem cordon_gate:
  assumes "keepsNames E" and "polls_only E"
    and "emitted (Reconcile E r n) h = pre @ EvPatchKubeNode old new x # post"
  shows "lastKube pre = Some old \<and> new = old\<lparr>kUnschedulable := \<not> kUnschedulable old\<rparr> \<and>
    (kUnschedulable new \<longrightarrow> drainRequested pre \<or> (\<exists>node. lastNode pre = Some node \<and> specState node = NodeStateCordoned)) \<and>
    (\<not> kUnschedulable new \<longrightarrow> (\<exists>node. lastNode pre = Some node \<and>
       ((currentState node = NodeCurrentStateUndraining \<and> nodesReady pre) \<or>
        (specState node = NodeStateActive \<and> ownOrNoManager E r old))))"
  using Reconcile_allowed [OF assms] by (auto simp: allowed_def split: if_splits)

theorem cordon_gate_witness:
  "\<exists>pre old new x post. emitted (Reconcile (envIn ''Active'' ''Undraining'' True True) sampleReconciler ''n1'') [] =
       pre @ EvPatchKubeNode old new x # post \<and> \<not> kUnschedulable new \<and>
     (\<exists>node. lastNode pre = Some node \<and> ((currentState node = NodeCurrentStateUndraining \<and> nodesReady pre) \<or>
        (specState node = NodeStateActive \<and> ownOrNoManager (envIn ''Active'' ''Undraining'' True True) sampleReconciler old)))"
proof -
  let ?E = "envIn ''Active'' ''Undraining'' True True"
  let ?old = "sampleKube\<lparr>kUnschedulable := True\<rparr>"
  have "EvPatchKubeNode ?old sampleKube (Inr sampleKube) \<in> set (emitted (Reconcile ?E sampleReconciler ''n1'') [])"
    by code_simp
  from split_list [OF this] obtain pre post where
    s: "emitted (Reconcile ?E sampleReconciler ''n1'') [] = pre @ EvPatchKubeNode ?old sampleKube (Inr sampleKube) # post" by blast
  have "\<not> kUnschedulable sampleKube" by (simp add: sampleKube_def)
  with cordon_gate [OF envIn_laws s] s show ?thesis by blast
qed

text \<open>C14. The controller gives up its own pod, with a foreground deletion in its own namespace, only when the
  reconciled node is the one it runs on, a drain of that node is requested and not done, and the node is
  already cordoned, so that the replacement starts elsewhere.\<close>

theorem reschedule_gate:
  assumes "keepsNames E" and "polls_only E"
    and "emitted (Reconcile E r n) h = pre @ EvDeletePodForeground ns p x # post"
  shows "ns = managerNamespace r \<and> n = nodeName r \<and> drainRequested pre \<and> cordoned pre"
  using Reconcile_allowed [OF assms] by (simp add: allowed_def)

theorem reschedule_gate_witness:
  "\<exists>pre x post. emitted (Reconcile (envIn ''Drained'' ''Draining'' False False) (sampleReconciler\<lparr>nodeName := ''n1''\<rparr>) ''n1'') [] =
       pre @ EvDeletePodForeground ''ns'' ''manager-0'' x # post \<and> cordoned pre"
proof -
  let ?m = "Reconcile (envIn ''Drained'' ''Draining'' False False) (sampleReconciler\<lparr>nodeName := ''n1''\<rparr>) ''n1''"
  have "EvDeletePodForeground ''ns'' ''manager-0'' (Inr ()) \<in> set (emitted ?m [])" by code_simp
  from split_list [OF this] obtain pre post where
    s: "emitted ?m [] = pre @ EvDeletePodForeground ''ns'' ''manager-0'' (Inr ()) # post" by blast
  from reschedule_gate [OF envIn_laws s] s show ?thesis by blast
qed

text \<open>Collections of pods are deleted by a reconciliation only in the manager's namespace and only on
  the reconciled node.\<close>

lemma delete_pods_gate:
  assumes "keepsNames E" and "polls_only E"
    and "EvDeletePods ns lo x \<in> set (emitted (Reconcile E r n) h)"
  shows "ns = rmNamespace (rebootManager r) \<and> loFieldSelector lo = ''spec.nodeName='' @ n"
  using split_list [OF assms(3)] Reconcile_allowed [OF assms(1,2)] by (fastforce simp: allowed_def)

lemma delete_pods_gate_witness:
  "\<exists>lo. EvDeletePods ''ns'' lo (Inr ()) \<in>
       set (emitted (Reconcile (envIn ''Active'' ''Next'' False False) sampleReconciler ''n1'') []) \<and>
     loFieldSelector lo = ''spec.nodeName=n1''"
proof -
  let ?t = "emitted (Reconcile (envIn ''Active'' ''Next'' False False) sampleReconciler ''n1'') []"
  let ?lo = "\<lparr>loLabelSelector = LabelComponent @ '' in (reboot,reboot-required)'', loFieldSelector = ''spec.nodeName=n1''\<rparr>"
  have e: "EvDeletePods ''ns'' ?lo (Inr ()) \<in> set ?t" by code_simp
  from delete_pods_gate [OF envIn_laws e] have "loFieldSelector ?lo = ''spec.nodeName=n1''" by simp
  with e show ?thesis by blast
qed

end
