(* ===== verification/Node_Lifecycle.thy ===== *)
theory Node_Lifecycle
  imports Node_Gates
begin

text \<open>
  The life cycle of a node as an abstract machine, and the refinement: every status write of a
  reconciliation is one of its edges, for any server and any concurrent changes of the requested state.
  An abstract state is the current state with the drained flag; an edge may depend on the requested state.
  A second footprint gives the type of the status, with no hypothesis on the answers.
\<close>

section \<open>The abstract machine\<close>

type_synonym stage = "NodeCurrentState \<times> bool"

definition stage :: "Node \<Rightarrow> stage" where
  "stage node = (currentState node, isDrained node)"

text \<open>The states in which pods may have been evicted and the node may be rebooting.\<close>

definition disrupting :: "NodeCurrentState \<Rightarrow> bool" where
  "disrupting c \<longleftrightarrow> c = NodeCurrentStateDraining \<or> c = NodeCurrentStateDrained \<or> c = NodeCurrentStateRebooting"

lemma disrupting_works: "disrupting c \<Longrightarrow> WorkState c"
  by (auto simp: disrupting_def)

text \<open>
  The edges under the requested state \<open>s\<close> of the object held. A user may change the request while the node is
  reconciled; the controller learns of it from the answer to its next write and goes on with what it has begun. The
  flag \<open>b\<close> says that this did not happen; without it three edges are possible under any request.
\<close>

inductive edge :: "bool \<Rightarrow> NodeState \<Rightarrow> stage \<Rightarrow> stage \<Rightarrow> bool" for b where
  keep: "edge b s p p"
| begin_undrain: "disrupting c \<Longrightarrow> edge b NodeStateActive (c, d) (NodeCurrentStateUndraining, d)"
| clear: "edge b s (c, True) (c, False)"
| undrained: "edge b s (NodeCurrentStateUndraining, False) (NodeCurrentStateOk, False)"
| activate: "\<not> disrupting c \<or> \<not> b \<and> \<not> d \<Longrightarrow> c \<noteq> NodeCurrentStateUndraining \<Longrightarrow>
    edge b NodeStateActive (c, d) (NodeCurrentStateOk, d)"
| cordon: "c \<noteq> NodeCurrentStateUndraining \<Longrightarrow> edge b NodeStateCordoned (c, d) (NodeCurrentStateCordoned, d)"
| enqueue: "Drain s \<Longrightarrow> c = NodeCurrentStateOk \<or> c = NodeCurrentStateCordoned \<Longrightarrow> edge b s (c, d) (NodeCurrentStateQueued, d)"
| pick: "s \<noteq> NodeStateActive \<Longrightarrow> s \<noteq> NodeStateCordoned \<Longrightarrow> edge b s (NodeCurrentStateQueued, d) (NodeCurrentStateNext, d)"
| start: "Drain s \<Longrightarrow> edge b s (NodeCurrentStateNext, False) (NodeCurrentStateDraining, False)"
| drained: "Drain s \<or> \<not> b \<and> c = NodeCurrentStateDraining \<Longrightarrow> WorkState c \<Longrightarrow> c \<noteq> NodeCurrentStateNext \<Longrightarrow> c \<noteq> NodeCurrentStateUndraining \<Longrightarrow>
    edge b s (c, False) (NodeCurrentStateDrained, True)"
| rebooting: "b \<longrightarrow> s = NodeStateRebootIfRequired \<Longrightarrow>
    edge b s (NodeCurrentStateDrained, True) (NodeCurrentStateRebooting, True)"

inductive_cases edgeE: "edge b s (c, d) (c', d')"

text \<open>
  The answers to the status writes so far: current state and drained flag as they were sent, and with \<open>b\<close> the
  requested state too. Only the controller writes these two fields, and a merge patch stores what it sends; the
  drained flag, or a current state that the patch does not contain, comes back otherwise only when the object was
  read from a cache that was behind.
\<close>

definition agrees :: "bool \<Rightarrow> Node \<Rightarrow> Node \<Rightarrow> bool" where
  "agrees b x y \<longleftrightarrow> stage x = stage y \<and> (b \<longrightarrow> specState x = specState y)"

definition answered :: "bool \<Rightarrow> history \<Rightarrow> bool" where
  "answered b t \<longleftrightarrow> list_all (\<lambda>e. case e of EvPatchStatus old new (Inr x) \<Rightarrow> agrees b new x | _ \<Rightarrow> True) t"

lemma answered_simps [simp]: "answered b []" "answered b (s @ t) \<longleftrightarrow> answered b s \<and> answered b t"
  "answered b (EvPatchStatus old new (Inr x) # t) \<longleftrightarrow> agrees b new x \<and> answered b t"
  by (simp_all add: answered_def)

text \<open>
  The one change of a requested state that the controller makes itself: a requested reboot is over or not
  needed, and the node becomes active.
\<close>

definition rebootOver :: "bool \<Rightarrow> Node \<Rightarrow> bool" where
  "rebootOver b node \<longleftrightarrow> (b \<longrightarrow> specState node = NodeStateRebootIfRequired) \<and>
     currentState node \<in> {NodeCurrentStateNext, NodeCurrentStateDrained, NodeCurrentStateRebooting}"

definition legalWrite :: "bool \<Rightarrow> event \<Rightarrow> bool" where
  "legalWrite b e = (case e of
     EvPatchStatus old new x \<Rightarrow> edge b (specState old) (stage old) (stage new)
   | EvPatchNode old new x \<Rightarrow> rebootOver b old \<and> specState new = NodeStateActive \<and> Status new = Status old
   | _ \<Rightarrow> True)"

definition legal :: "bool \<Rightarrow> history \<Rightarrow> event \<Rightarrow> bool" where
  "legal b t e \<longleftrightarrow> (answered b t \<longrightarrow> legalWrite b e)"

section \<open>Every operation takes edges only\<close>

text \<open>The assertions here are about the objects held, as long as the answers are those expected.\<close>

abbreviation run :: "bool \<Rightarrow> bool \<Rightarrow> 'a op \<Rightarrow> ('a \<Rightarrow> bool) \<Rightarrow> bool" where
  "run b P m Q \<equiv> triple (legal b) (\<lambda>t. answered b t \<longrightarrow> P) m (\<lambda>a t. answered b t \<longrightarrow> Q a) (\<lambda>_. True)"

lemma guarded_unanswered: "\<not> answered b s \<Longrightarrow> guarded (legal b) s t"
  by (induction t arbitrary: s) (auto simp: legal_def)

lemma run_given: "(P \<Longrightarrow> run b True m Q) \<Longrightarrow> run b P m Q"
  by (cases P) (auto simp: triple_def guarded_unanswered)

lemma run_weaken: "run b P m Q \<Longrightarrow> (\<And>a. Q a \<Longrightarrow> Q' a) \<Longrightarrow> run b P m Q'"
  by (auto simp: triple_def)

lemma run_frame: "only ev m \<Longrightarrow> (\<And>e. ev e \<Longrightarrow> legalWrite b e) \<Longrightarrow> run b P m (\<lambda>_. True)"
  unfolding triple_def by (auto simp: only_def legal_def intro!: guarded_all)

lemma run_plugins: "only plugin_event m \<Longrightarrow> run b P m (\<lambda>_. True)"
proof (erule run_frame)
  show "legalWrite b e" if "plugin_event e" for e using that by (cases e) (simp_all add: legalWrite_def plugin_event_def)
qed

lemma run_reboot: "only (\<lambda>e. reboot_event r n e \<and> creates Q e) m \<Longrightarrow> run b P m (\<lambda>_. True)"
proof (erule run_frame)
  show "legalWrite b e" if "reboot_event r n e \<and> creates Q e" for e
    using that by (cases e) (simp_all add: legalWrite_def reboot_event_def)
qed

lemma run_call:
  "(\<And>x. legalWrite b (mk x)) \<Longrightarrow> (\<And>a. answered b [mk (Inr a)] \<Longrightarrow> Q a) \<Longrightarrow> run b P (call f mk) Q"
  by (rule triple_call) (auto simp: legal_def)

lemma run_ret: "Q a \<Longrightarrow> run b P (ret a) Q"
  by (rule triple_ret) simp

lemma run_fail: "run b P (fail e) Q"
  by (rule triple_fail) simp

lemma run_now: "run b P (now E) (\<lambda>_. True)"
  by (auto simp: triple_def now_def ask_def emitted_def legal_def legalWrite_def)

lemma legal_eventf: "run b P (eventf n ty u v) (\<lambda>_. True)"
  by (rule run_plugins) (simp add: only_eventf)

lemma run_patchStatus:
  assumes "edge b (specState old) (stage old) (stage new)"
  shows "run b P (patchStatus E old new) (agrees b new)"
  unfolding patchStatus_def
  by (rule run_call) (use assms in \<open>auto simp: legalWrite_def\<close>)

lemmas run_writeStatus = triple_wrapf [OF run_weaken [OF run_patchStatus]]

text \<open>The object after a write: the stage written, under the same request as far as nobody else changed it.\<close>

definition after :: "bool \<Rightarrow> Node \<Rightarrow> stage \<Rightarrow> Node \<Rightarrow> bool" where
  "after b node p x \<longleftrightarrow> stage x = p \<and> (b \<longrightarrow> specState x = specState node)"

lemma after_refl [simp]: "after b x (stage x) x"
  by (simp add: after_def)

lemma run_setCurrentState:
  assumes "edge b (specState node) (stage node) (s, isDrained node)"
  shows "run b P (setCurrentState E node s) (after b node (s, isDrained node))"
  unfolding setCurrentState_def
  by (intro triple_if run_ret run_writeStatus) (use assms in \<open>auto simp: stage_def after_def agrees_def\<close>)

lemma run_setDrained:
  assumes "isDrained node"
  shows "run b P (setDrained E node False) (after b node (currentState node, False))"
  unfolding setDrained_def
  by (intro run_writeStatus) (use assms in \<open>auto simp: stage_def after_def agrees_def intro: edge.clear\<close>)

lemma run_setState:
  assumes "rebootOver b node"
  shows "run b P (setState E node NodeStateActive) (\<lambda>_. True)"
  unfolding setState_def patchNode_def
  by (intro triple_if run_ret triple_wrapf run_call) (use assms in \<open>auto simp: legalWrite_def\<close>)

text \<open>Status writes that leave the stage alone.\<close>

lemma run_writeStage:
  assumes "specState new = specState node" and "stage new = stage node"
  shows "run b P (wrapf msg (patchStatus E node new)) (after b node (stage node))"
  by (rule run_writeStatus) (use assms in \<open>auto simp: after_def agrees_def intro: edge.keep\<close>)

lemma run_setBootID: "run b P (setBootID E node kube) (after b node (stage node))"
  unfolding setBootID_def
  by (intro triple_if run_ret after_refl run_writeStage) (simp_all add: stage_def)

lemma run_setUnschedulable: "run b P (setUnschedulable E kube u) (\<lambda>_. True)"
  unfolding setUnschedulable_def patchKubeNode_def
  by (intro triple_if run_ret triple_wrapf run_call) (simp_all add: legalWrite_def)

lemma run_lastCheckedBefore: "run b P (lastCheckedBefore E node i) (\<lambda>_. True)"
  unfolding lastCheckedBefore_def by (intro triple_option triple_if run_ret triple_bind [OF run_now]) simp_all

lemma run_isRebootRequired:
  assumes "polls_only E"
  shows "run b P (isRebootRequired E r node) (\<lambda>(_, x). after b node (stage node) x)"
proof -
  let ?Q = "after b node (stage node)"
  have last: "run b (?Q x) (if c then bind (eventf n ty u v) (\<lambda>_. ret (c, x)) else ret (c, x)) (\<lambda>(_, x). ?Q x)" for c x n ty u v
    by (rule run_given) (intro triple_if triple_bind [OF legal_eventf] run_ret; simp)
  show ?thesis
    unfolding isRebootRequired_def
    by (intro triple_bind [OF triple_wrapf [OF run_reboot [OF only_IsRebootRequired [OF assms]]]] triple_bind [OF run_now]
        triple_bind [OF run_writeStage last]) (simp_all add: stage_def)
qed

text \<open>Outside work states the check may write; in a work state it leaves the object alone.\<close>

lemma run_checkRebootRequired:
  assumes "polls_only E"
  shows "run b P (checkRebootRequired E r node) (\<lambda>x. x = node \<or> \<not> WorkState (currentState node) \<and> after b node (stage node) x)"
proof (cases "WorkState (currentState node)")
  case False
  let ?Q = "\<lambda>x. after b node (stage node) x"
  have read: "run b (case a of (_, x) \<Rightarrow> ?Q x) (case a of (_, x) \<Rightarrow> ret x) ?Q" for a :: "bool \<times> Node"
    by (rule run_given) (cases a, simp add: triple_ret)
  have "run b P (bind (lastCheckedBefore E node i) (\<lambda>due. if due then bind (isRebootRequired E r node) (\<lambda>(_, x). ret x) else ret node)) ?Q" for i
    by (intro triple_bind [OF run_lastCheckedBefore] triple_if run_ret after_refl
        triple_bind [OF run_isRebootRequired [OF assms] read])
  from run_weaken [OF this] False show ?thesis by (simp add: checkRebootRequired_def)
qed (simp add: checkRebootRequired_def triple_ret)

lemma run_rebootStillRequired:
  assumes "polls_only E"
  shows "run b P (rebootStillRequired E r node) (\<lambda>(early, x). early = None \<longrightarrow> after b node (stage node) x)"
proof -
  let ?Q = "after b node (stage node)"
  have required: "run b P (if due then isRebootRequired E r node else ret (c, node)) (\<lambda>(_, x). ?Q x)" for P due c
    by (intro triple_if run_isRebootRequired [OF assms] run_ret) simp
  have stop: "run b (case a of (_, x) \<Rightarrow> ?Q x)
      (case a of (required, x) \<Rightarrow>
         if \<not> required then bind (setState E x NodeStateActive) (\<lambda>x. ret (Some emptyResult, x)) else ret (None, x))
      (\<lambda>(early, x). early = None \<longrightarrow> ?Q x)" if "rebootOver b node" for a
    by (rule run_given, cases a, simp only: prod.case)
      (intro triple_if run_ret triple_bind [OF run_setState], use that in \<open>auto simp: rebootOver_def stage_def after_def\<close>)
  show ?thesis
    unfolding rebootStillRequired_def
    by (intro triple_if run_ret triple_bind [OF run_lastCheckedBefore] triple_bind [OF required stop])
      (auto simp: rebootOver_def)
qed

text \<open>A drain that has passed its checks.\<close>

definition checked :: "bool \<Rightarrow> Node \<Rightarrow> Node \<Rightarrow> bool" where
  "checked b node x \<longleftrightarrow> \<not> isDrained x \<and> currentState x \<noteq> NodeCurrentStateNext \<and>
     (x = node \<or> currentState x = NodeCurrentStateDraining \<and> (b \<longrightarrow> specState x = specState node))"

lemma run_drainChecks:
  assumes "Drain (specState node)" and "\<not> isDrained node"
  shows "run b P (drainChecks E r node) (checked b node)"
proof (cases "currentState node = NodeCurrentStateNext")
  case True
  with assms have "edge b (specState node) (stage node) (NodeCurrentStateDraining, isDrained node)"
    by (simp add: stage_def edge.start)
  from run_setCurrentState [OF this] have chk: "run b P (setCurrentState E node NodeCurrentStateDraining) (checked b node)" for P
    by (rule run_weaken) (use assms(2) in \<open>auto simp: after_def checked_def stage_def\<close>)
  with True show ?thesis
    unfolding drainChecks_def
    by (intro triple_if triple_bind [OF triple_wrapf [OF run_plugins]] only_drain_manager run_fail chk) simp_all
qed (use assms in \<open>simp add: drainChecks_def triple_ret checked_def\<close>)

lemma run_drainCordoned:
  assumes "edge b (specState node) (stage node) (NodeCurrentStateDrained, True)"
  shows "run b P (drainCordoned E r node) (after b node (NodeCurrentStateDrained, True))"
proof -
  let ?new = "node\<lparr>Status := Status node\<lparr>Drained := True, CurrentState := NodeCurrentStateDrained\<rparr>\<rparr>"
  let ?Q = "after b node (NodeCurrentStateDrained, True)"
  have patched: "run b P (wrapf msg (patchStatus E node ?new)) ?Q" for P msg
    by (rule run_writeStatus) (use assms in \<open>auto simp: stage_def after_def agrees_def\<close>)
  have last: "run b (?Q x) (bind (eventf n ty u v) (\<lambda>_. ret x)) ?Q" for x n ty u v
    by (rule run_given) (intro triple_bind [OF legal_eventf] run_ret; simp)
  have set: "run b P (newClientset E) (\<lambda>_. True)" for P
    unfolding newClientset_def by (rule run_call) (simp_all add: legalWrite_def)
  have evict: "run b P (runNodeDrain E dh n) (\<lambda>_. True)" for P dh n
    unfolding runNodeDrain_def by (rule run_call) (simp_all add: legalWrite_def)
  show ?thesis
    unfolding drainCordoned_def
    by (intro triple_bind [OF triple_wrapf [OF run_plugins [OF only_drain_manager(3)]]] triple_bind [OF set]
        triple_bind [OF triple_wrapf [OF run_reboot [OF only_CleanupNode]]]
        triple_attempt [OF evict triple_bind [OF patched last]] triple_fail) simp
qed

lemma run_rescheduleController: "run b P (rescheduleController E r) (\<lambda>_. True)"
  unfolding rescheduleController_def primitive_defs
  by (intro triple_bind [OF triple_wrapf [OF run_call]] run_call) (simp_all add: legalWrite_def)

lemma run_drain:
  assumes "WorkState (currentState node)" and "currentState node \<noteq> NodeCurrentStateUndraining"
  shows "run b P (drain E r node kube) (\<lambda>_. True)"
proof -
  let ?C = "checked b node"
  have cordon: "run b (?C x) (if c then setUnschedulable E kube True else ret kube) (\<lambda>_. ?C x)" for x c
    by (rule run_given) (intro triple_if run_ret run_weaken [OF run_setUnschedulable]; simp)
  have away: "run b (?C x) (if c then bind (wrapf msg (rescheduleController E r)) (\<lambda>_. ret (Some res, x, k))
      else bind (drainCordoned E r x) (\<lambda>x. ret (None, x, k))) (\<lambda>_. True)"
    if "Drain (specState node)" for x c msg res k
  proof (rule run_given)
    assume C: "?C x"
    with that assms have "edge b (specState x) (stage x) (NodeCurrentStateDrained, True)"
      by (auto simp: stage_def checked_def intro!: edge.drained)
    with C show "run b True (if c then bind (wrapf msg (rescheduleController E r)) (\<lambda>_. ret (Some res, x, k))
      else bind (drainCordoned E r x) (\<lambda>x. ret (None, x, k))) (\<lambda>_. True)"
      by (intro triple_if triple_bind [OF triple_wrapf [OF run_rescheduleController]]
          triple_bind [OF run_drainCordoned] run_ret) auto
  qed
  show ?thesis
    unfolding drain_def
    by (intro triple_if run_ret triple_bind [OF run_drainChecks] triple_bind [OF cordon away]) auto
qed

text \<open>What \<open>undrain\<close> establishes when it lets reconciliation go on.\<close>

definition settled :: "bool \<Rightarrow> Node \<Rightarrow> bool" where
  "settled b node \<longleftrightarrow> currentState node \<noteq> NodeCurrentStateUndraining \<and>
     (specState node = NodeStateActive \<longrightarrow> \<not> disrupting (currentState node) \<or> \<not> b \<and> \<not> isDrained node)"

lemma run_undrainUncordon: "run b P (undrainUncordon E kube) (\<lambda>_. True)"
  unfolding undrainUncordon_def
  by (intro triple_if triple_attempt [OF run_plugins [OF only_IsClusterNodesHealthy]] triple_attempt [OF run_setUnschedulable]
      triple_ret) simp_all

lemma run_undrainFinish:
  assumes "currentState node = NodeCurrentStateUndraining"
  shows "run b P (undrainFinish E r node kube) (\<lambda>(ok, _, x, _). ok \<longrightarrow> settled b x)"
proof -
  let ?Q = "\<lambda>(ok, _, x, _). ok \<longrightarrow> settled b x"
  let ?C = "\<lambda>x. stage x = (NodeCurrentStateUndraining, False)"
  have wait: "triple (legal b) P (ret (requeue30 x k)) (\<lambda>a t. answered b t \<longrightarrow> ?Q a) (\<lambda>_. True)" for P x k
    by (rule triple_ret) (simp add: requeue30_def)
  have clear: "run b P (if isDrained node then setDrained E node False else ret node) ?C" for P
    by (intro triple_if run_ret run_weaken [OF run_setDrained]) (use assms in \<open>auto simp: stage_def after_def\<close>)
  have told: "run b (after b x (NodeCurrentStateOk, d) y) (bind (eventf (Name y) ty u v) (\<lambda>_. ret (True, emptyResult, y, k))) ?Q"
    for x d y ty u v k
    by (rule run_given) (intro triple_bind [OF legal_eventf] run_ret;
      auto simp: settled_def disrupting_def current_defs stage_def after_def)
  have fin: "run b (?C x) (bind (setCurrentState E x NodeCurrentStateOk) (\<lambda>x.
      bind (eventf (Name x) ty u v) (\<lambda>_. ret (True, emptyResult, x, k)))) ?Q" for x ty u v k
    by (rule run_given, rule triple_bind [OF run_setCurrentState told]) (auto simp: stage_def intro: edge.undrained)
  show ?thesis
    unfolding undrainFinish_def
    by (intro triple_bind [OF run_undrainUncordon] triple_option wait
        triple_attempt [OF run_plugins [OF only_drain_manager(4)]] triple_attempt [OF clear fin])
qed

lemma run_undrain: "run b P (undrain E r node kube) (\<lambda>(ok, _, x, _). ok \<longrightarrow> settled b x)"
proof (cases "currentState node = NodeCurrentStateUndraining")
  case True
  then show ?thesis by (simp add: undrain_def run_undrainFinish)
next
  case False
  let ?Q = "\<lambda>(ok, _, x, _). ok \<longrightarrow> settled b x"
  have needed: "run b P (of_res (undrainNeeded node)) (\<lambda>c. undrainNeeded node = Ok c)" for P
    by (rule triple_of_res) simp_all
  have "run b (undrainNeeded node = Ok c)
      (if c then bind (setCurrentState E node NodeCurrentStateUndraining) (\<lambda>x. ret (False, \<lparr>RequeueAfter = 1\<rparr>, x, kube))
       else ret (True, emptyResult, node, kube)) ?Q" for c
  proof (rule run_given)
    assume c: "undrainNeeded node = Ok c"
    have "edge b (specState node) (stage node) (NodeCurrentStateUndraining, isDrained node)" if c
      using c that by (auto simp: undrainNeeded_def stage_def disrupting_def intro!: edge.begin_undrain split: if_splits)
    moreover have "settled b node" if "\<not> c"
      using c that False by (auto simp: undrainNeeded_def settled_def disrupting_def split: if_splits)
    ultimately show "run b True (if c then bind (setCurrentState E node NodeCurrentStateUndraining)
        (\<lambda>x. ret (False, \<lparr>RequeueAfter = 1\<rparr>, x, kube)) else ret (True, emptyResult, node, kube)) ?Q"
      by (intro triple_if run_ret triple_bind [OF run_setCurrentState]) auto
  qed
  from triple_bind [OF needed this] False show ?thesis by (simp add: undrain_def)
qed

lemma notnotI: "P \<Longrightarrow> \<not> \<not> P"
  by simp

text \<open>What the switch establishes when it lets reconciliation go on.\<close>

definition dispatched :: "Node \<Rightarrow> bool" where
  "dispatched node \<longleftrightarrow> currentState node \<noteq> NodeCurrentStateUndraining \<and>
     (WorkState (currentState node) \<or> currentState node = NodeCurrentStateQueued \<longrightarrow>
        specState node \<noteq> NodeStateActive \<and> specState node \<noteq> NodeStateCordoned)"

lemma run_switchState:
  assumes "settled b node"
  shows "run b P (switchState E r node kube) (\<lambda>(early, x, _). early = None \<longrightarrow> dispatched x)"
proof -
  let ?Q = "\<lambda>(early, x, _). early = None \<longrightarrow> dispatched x"
  have to: "run b P (setCurrentState E node s) (\<lambda>x. currentState x = s)"
    if "edge b (specState node) (stage node) (s, isDrained node)" for P s
    by (rule run_weaken [OF run_setCurrentState [OF that]]) (simp add: after_def stage_def)
  have clean: "run b (currentState x = NodeCurrentStateOk)
      (attempt (CleanupNode E (rebootManager r) (Name x)) (\<lambda>_. ret (None, x, k)) (\<lambda>_. ret (None, x, k))) ?Q" for x k
    by (rule run_given) (intro triple_attempt [OF run_reboot [OF only_CleanupNode]] triple_ret;
      simp add: dispatched_def WorkState_def current_defs)
  have cordoned: "run b (currentState x = NodeCurrentStateCordoned) (ret (None, x, k)) ?Q" for x k
    by (rule run_given) (intro run_ret; simp add: dispatched_def WorkState_def current_defs)
  have e: "specState node = NodeStateActive \<Longrightarrow> edge b (specState node) (stage node) (NodeCurrentStateOk, isDrained node)"
    "specState node = NodeStateCordoned \<Longrightarrow> edge b (specState node) (stage node) (NodeCurrentStateCordoned, isDrained node)"
    "specState node = NodeStateDrained \<or> specState node = NodeStateRebootIfRequired \<Longrightarrow> \<not> WorkState (currentState node) \<and> currentState node \<noteq> NodeCurrentStateQueued \<Longrightarrow>
      edge b (specState node) (stage node) (NodeCurrentStateQueued, isDrained node)"
    using assms by (auto simp: settled_def stage_def WorkState_def intro: edge.activate edge.cordon edge.enqueue split: if_splits)
  show ?thesis
    unfolding switchState_def Let_def
    by (intro triple_if triple_bind [OF legal_eventf] triple_bind [OF run_setUnschedulable] triple_bind [OF to clean]
        triple_bind [OF to cordoned] triple_bind [OF to] run_ret e)
      (use assms in \<open>auto simp: settled_def dispatched_def\<close>)
qed

lemma run_isNextNode:
  assumes "dispatched node"
  shows "run b P (isNextNode E node) (\<lambda>_. True)"
proof -
  have l: "run b P (listNodes E) (\<lambda>_. True)" for P
    unfolding listNodes_def by (rule run_call) (simp_all add: legalWrite_def)
  have "edge b (specState node) (stage node) (NodeCurrentStateNext, isDrained node)" if "currentState node = NodeCurrentStateQueued"
    using that assms by (auto simp: stage_def dispatched_def intro: edge.pick)
  then show ?thesis
    unfolding isNextNode_def
    by (intro triple_bind [OF l] triple_if run_ret triple_bind [OF run_setCurrentState]) simp_all
qed

lemma run_reboot_step:
  assumes "polls_only E"
  shows "run b P (reboot E r node kube) (\<lambda>_. True)"
proof -
  let ?Q = "after b node (stage node)"
  have start: "run b (?Q x)
      (bind (RebootNode E (rebootManager r) x) (\<lambda>_. bind (setCurrentState E x NodeCurrentStateRebooting) (\<lambda>_. ret res))) (\<lambda>_. True)"
    if "specState node = NodeStateRebootIfRequired" "currentState node = NodeCurrentStateDrained \<and> isDrained node" for x res
  proof (rule run_given)
    assume x: "?Q x"
    with that have "edge b (specState x) (stage x) (NodeCurrentStateRebooting, isDrained x)"
      by (auto simp: stage_def after_def intro: edge.rebooting)
    then show "run b True (bind (RebootNode E (rebootManager r) x)
        (\<lambda>_. bind (setCurrentState E x NodeCurrentStateRebooting) (\<lambda>_. ret res))) (\<lambda>_. True)"
      by (intro triple_bind [OF run_reboot [OF only_RebootNode]] triple_bind [OF run_setCurrentState] run_ret) simp_all
  qed
  have finish: "run b (?Q x) (bind (setState E x NodeStateActive)
      (\<lambda>x. bind (eventf (Name x) ty u v) (\<lambda>_. ret res))) (\<lambda>_. True)"
    if "specState node = NodeStateRebootIfRequired" "currentState node = NodeCurrentStateRebooting" for x ty u v res
    by (rule run_given, intro triple_bind [OF run_setState] triple_bind [OF legal_eventf] run_ret)
      (use that in \<open>auto simp: rebootOver_def stage_def after_def\<close>)
  show ?thesis
    unfolding reboot_def
    by (intro triple_if run_ret triple_bind [OF run_setBootID start]
        triple_bind [OF run_reboot [OF only_IsNodeRebooted [OF assms]]] triple_bind [OF run_now]
        triple_bind [OF run_writeStage finish])
      (simp_all add: stage_def)
qed

lemma run_work:
  assumes "polls_only E" and "dispatched node"
  shows "run b P (work E r node kube) (\<lambda>_. True)"
proof (cases "WorkState (currentState node)")
  case True
  let ?fin = "\<lambda>(early, x, k). case early of Some res \<Rightarrow> ret res | None \<Rightarrow> reboot E r x k"
  have fin: "run b (Q a) (?fin a) (\<lambda>_. True)" for Q a
    by (cases a; cases "fst a") (use run_reboot_step [OF assms(1)] in \<open>auto intro: triple_ret\<close>)
  have drained: "run b (after b node (stage node) x)
      (bind (if Drain (specState x) \<and> \<not> isDrained x then drain E r x kube else ret (None, x, kube)) ?fin) (\<lambda>_. True)" for x
  proof (rule run_given)
    assume "after b node (stage node) x"
    with True assms(2) have "WorkState (currentState x)" "currentState x \<noteq> NodeCurrentStateUndraining"
      by (auto simp: stage_def after_def dispatched_def)
    then have "run b True (if Drain (specState x) \<and> \<not> isDrained x then drain E r x kube else ret (None, x, kube)) (\<lambda>_. True)"
      by (intro triple_if run_ret run_drain) simp_all
    then show "run b True (bind (if Drain (specState x) \<and> \<not> isDrained x then drain E r x kube else ret (None, x, kube)) ?fin) (\<lambda>_. True)"
      by (rule triple_bind) (rule fin)
  qed
  have "run b P (bind (rebootStillRequired E r node) (\<lambda>(early, x). case early of Some res \<Rightarrow> ret res | None \<Rightarrow>
      bind (if Drain (specState x) \<and> \<not> isDrained x then drain E r x kube else ret (None, x, kube)) ?fin)) (\<lambda>_. True)"
  proof (rule triple_bind [OF run_rebootStillRequired [OF assms(1)]], goal_cases)
    case (1 a)
    show ?case using drained by (cases a; cases "fst a") (auto intro: triple_ret)
  qed
  with True show ?thesis by (simp add: work_def)
next
  case False
  have "run b P (bind (isNextNode E node) (\<lambda>(next, _). if next then ret u else ret v)) (\<lambda>_. True)" for u v
    by (rule triple_bind [OF run_isNextNode [OF assms(2)]]) (auto simp: triple_ret split: prod.split)
  with False show ?thesis by (auto simp: work_def triple_ret)
qed

lemma run_reconcileNode:
  assumes "polls_only E"
  shows "run b P (reconcileNode E r node kube) (\<lambda>_. True)"
proof -
  let ?last = "\<lambda>(early, x, k). case early of Some res \<Rightarrow> ret res | None \<Rightarrow> work E r x k"
  have last: "run b (case a of (early, x, _) \<Rightarrow> early = None \<longrightarrow> dispatched x) (?last a) (\<lambda>_. True)" for a
    by (rule run_given, cases a; cases "fst a") (use run_work [OF assms, where P = True] in \<open>auto intro: triple_ret\<close>)
  have switch: "run b (y = x \<or> \<not> WorkState (currentState x) \<and> after b x (stage x) y)
      (bind (switchState E r y k) ?last) (\<lambda>_. True)" if "settled b x" for x y k
    by (rule run_given, rule triple_bind [OF run_switchState last])
      (use that in \<open>auto simp: settled_def stage_def after_def dest: disrupting_works\<close>)
  have check: "run b (settled b x) (bind (checkRebootRequired E r x) (\<lambda>x. bind (switchState E r x k) ?last)) (\<lambda>_. True)" for x k
    by (rule run_given) (rule triple_bind [OF run_checkRebootRequired [OF assms] switch])
  have cleared: "run b P (if c \<and> isDrained x then setDrained E x False else ret x) (settled b)" if "settled b x" for P c x
    by (intro triple_if run_ret run_weaken [OF run_setDrained])
      (use that in \<open>auto simp: settled_def after_def stage_def\<close>)
  show ?thesis
    unfolding reconcileNode_def
  proof (rule triple_bind [OF run_undrain], goal_cases)
    case (1 a)
    obtain ok res x k where a: "a = (ok, res, x, k)" by (cases a)
    show ?case
    proof (cases ok)
      case True
      show ?thesis
        unfolding a prod.case if_not_P [OF True [THEN notnotI]]
        by (rule run_given, rule triple_bind [OF cleared check]) (simp add: True)
    qed (simp add: a triple_ret)
  qed
qed

lemma Reconcile_legal:
  assumes "polls_only E"
  shows "guarded (legal b) [] (emitted (Reconcile E r n) h)"
proof -
  have k: "run b True (getKubeNode E n) (\<lambda>_. True)" and g: "run b True (getNode E n) (\<lambda>_. True)"
    and u: "run b P (updateNode E x) (\<lambda>_. True)" and c: "triple (legal b) (\<lambda>_. True) (createNode E x) (\<lambda>_ _. True) (\<lambda>_. True)" for x P
    unfolding primitive_defs by (intro run_call triple_call; simp add: legal_def legalWrite_def)+
  have new: "triple (legal b) (\<lambda>_. True) (createNewNode E kube) (\<lambda>_ t. answered b t \<longrightarrow> True) (\<lambda>_. True)" for kube
    unfolding createNewNode_def by (intro triple_sum triple_fail triple_bind [OF c] triple_ret) simp_all
  have "run b True (Reconcile E r n) (\<lambda>_. True)"
    unfolding Reconcile_def
    by (intro triple_bind [OF k] triple_attempt [OF g] triple_if new triple_fail triple_bind [OF u] triple_ret
        run_reconcileNode [OF assms]) simp_all
  from tripleD(1) [OF this] show ?thesis by simp
qed

lemma Reconcile_write:
  assumes "polls_only E" and "emitted (Reconcile E r n) h = s @ e # u" and "answered b s"
  shows "legalWrite b e"
  using Reconcile_legal [OF assms(1), of b r n h] assms(2,3) by (auto simp: legal_def)

section \<open>The type of the status\<close>

text \<open>Objects the schema of the status allows, the never written one included, and none that is still being drained
  although recorded as drained.\<close>

definition typed :: "Node \<Rightarrow> bool" where
  "typed node \<longleftrightarrow> currentState node \<in> set ('''' # GetNodeCurrentStates) \<and>
     (currentState node = NodeCurrentStateDraining \<longrightarrow> \<not> isDrained node)"

text \<open>A write that keeps the type, and sets the drained flag only together with the state Drained.\<close>

definition typedWrite :: "event \<Rightarrow> bool" where
  "typedWrite e = (case e of
     EvPatchStatus old new _ \<Rightarrow> (typed old \<longrightarrow> typed new) \<and>
       (isDrained new \<longrightarrow> isDrained old \<or> currentState new = NodeCurrentStateDrained)
   | _ \<Rightarrow> True)"

lemma typedWrite_other: "plugin_event e \<Longrightarrow> typedWrite e" "reboot_event r n e \<Longrightarrow> typedWrite e"
  by (cases e; simp add: typedWrite_def plugin_event_def reboot_event_def)+

lemmas typed_plugins = only_mono [OF _ typedWrite_other(1)]

lemma typed_reboots:
  assumes "polls_only E"
  shows "only typedWrite (IsRebootRequired E r n)" "only typedWrite (RebootNode E r node)" "only typedWrite (CleanupNode E r n)"
    "only typedWrite (IsNodeRebooted E r k b)"
  by (blast intro: only_mono [OF only_IsRebootRequired [OF assms]] only_mono [OF only_RebootNode]
      only_mono [OF only_CleanupNode] only_mono [OF only_IsNodeRebooted [OF assms]] typedWrite_other(2))+

lemma typed_primitives:
  "only typedWrite (getKubeNode E n)" "only typedWrite (getNode E n)" "only typedWrite (listNodes E)"
  "only typedWrite (createNode E x)" "only typedWrite (updateNode E x)" "only typedWrite (patchNode E x y)"
  "only typedWrite (patchKubeNode E k k')" "only typedWrite (newClientset E)" "only typedWrite (hostname E)"
  "only typedWrite (runNodeDrain E dh n)" "only typedWrite (deletePodForeground E ns n)" "only typedWrite (eventf n ty u v)"
  unfolding primitive_defs by (intro only_call only_emit; simp add: typedWrite_def)+

lemma typed_now: "only typedWrite (now E)"
  unfolding now_def by (intro only_ask) (simp add: typedWrite_def)

lemma typed_patchStatus:
  assumes "typed old \<Longrightarrow> typed new" and "isDrained new \<Longrightarrow> isDrained old \<or> currentState new = NodeCurrentStateDrained"
  shows "only typedWrite (patchStatus E old new)"
  unfolding patchStatus_def by (intro only_call) (use assms in \<open>simp add: typedWrite_def\<close>)

lemma typed_setCurrentState:
  assumes "s \<in> set GetNodeCurrentStates" and "s = NodeCurrentStateDraining \<Longrightarrow> \<not> isDrained node"
  shows "only typedWrite (setCurrentState E node s)"
  unfolding setCurrentState_def
  by (intro only_rules typed_patchStatus) (use assms in \<open>auto simp: typed_def\<close>)

lemma typed_states:
  "only typedWrite (setCurrentState E node NodeCurrentStateOk)" "only typedWrite (setCurrentState E node NodeCurrentStateCordoned)"
  "only typedWrite (setCurrentState E node NodeCurrentStateQueued)" "only typedWrite (setCurrentState E node NodeCurrentStateNext)"
  "only typedWrite (setCurrentState E node NodeCurrentStateUndraining)"
  "only typedWrite (setCurrentState E node NodeCurrentStateRebooting)"
  by (intro typed_setCurrentState; simp add: GetNodeCurrentStates_def current_defs)+

lemma typed_drainChecks: "\<not> isDrained node \<Longrightarrow> only typedWrite (drainChecks E r node)"
  unfolding drainChecks_def
  by (intro only_rules typed_plugins [OF only_drain_manager(1)] typed_plugins [OF only_drain_manager(2)] typed_setCurrentState)
    (simp_all add: GetNodeCurrentStates_def)

lemma typed_drainCordoned:
  assumes "polls_only E"
  shows "only typedWrite (drainCordoned E r node)"
  unfolding drainCordoned_def
  by (intro only_rules typed_plugins [OF only_drain_manager(3)] typed_primitives typed_reboots [OF assms] typed_patchStatus)
    (auto simp: typed_def GetNodeCurrentStates_def current_defs)

lemma typed_drain:
  assumes "polls_only E"
  shows "only typedWrite (drain E r node kube)"
  unfolding drain_def rescheduleController_def setUnschedulable_def
  by (intro only_rules typed_drainChecks typed_drainCordoned [OF assms] typed_primitives) simp

lemma typed_fields:
  "only typedWrite (setDrained E node False)" "only typedWrite (setBootID E node kube)"
  "only typedWrite (patchStatus E node (node\<lparr>Status := (Status node)\<lparr>RebootRequired := q, RebootRequiredLastChecked := w\<rparr>\<rparr>))"
  "only typedWrite (patchStatus E node (node\<lparr>Status := (Status node)\<lparr>BootID := i, RebootRequired := q, RebootRequiredLastChecked := w\<rparr>\<rparr>))"
  unfolding setDrained_def setBootID_def
  by (intro only_rules typed_patchStatus; simp add: typed_def)+

lemma typed_createNewNode: "only typedWrite (createNewNode E kube)"
  unfolding createNewNode_def by (auto intro!: only_rules typed_primitives split: sum.split)

lemma Reconcile_typed:
  assumes "polls_only E"
  shows "only typedWrite (Reconcile E r n)"
  unfolding Reconcile_def reconcileNode_def undrain_def undrainFinish_def undrainUncordon_def
    setUnschedulable_def checkRebootRequired_def lastCheckedBefore_def
    isRebootRequired_def switchState_def Let_def work_def rebootStillRequired_def setState_def reboot_def isNextNode_def
  by (intro only_rules typed_createNewNode typed_fields typed_states typed_drain [OF assms] typed_reboots [OF assms] typed_now
      typed_plugins [OF only_drain_manager(4)] typed_plugins [OF only_IsClusterNodesHealthy] typed_primitives)

section \<open>Properties\<close>

text \<open>C5. The life cycle. A status write of a reconciliation is an edge of the abstract machine, from
  the stage of the object held to the stage written, under the requested state of that object: nodes are
  queued only from OK or Cordoned, picked only from the queue, begin to drain only as Next, are Drained
  only out of work, reboot only when drained, and leave a drain only through Undraining, except into
  Cordoned. The hypothesis speaks about the earlier status writes of the same reconciliation: each was answered,
  if it succeeded, with the current state and the drained flag that were sent and, for \<open>b\<close>, under the request
  that was sent. Without \<open>b\<close>, so with users who change the request meanwhile, the machine has the three wider
  edges.\<close>

theorem lifecycle_refinement:
  assumes "polls_only E" and "emitted (Reconcile E r n) h = s @ EvPatchStatus old new x # u" and "answered b s"
  shows "edge b (specState old) (stage old) (stage new)"
  using Reconcile_write [OF assms] by (simp add: legalWrite_def)

theorem lifecycle_refinement_witness:
  "\<exists>s u x. emitted (Reconcile (envIn ''Drained'' ''Draining'' False False) sampleReconciler ''n1'') [] =
      s @ EvPatchStatus (nodeIn ''Drained'' ''Draining'' False) (nodeIn ''Drained'' ''Drained'' True) x # u \<and>
    answered True s \<and> edge True NodeStateDrained (NodeCurrentStateDraining, False) (NodeCurrentStateDrained, True)"
proof -
  let ?old = "nodeIn ''Drained'' ''Draining'' False" and ?new = "nodeIn ''Drained'' ''Drained'' True"
  let ?t = "emitted (Reconcile (envIn ''Drained'' ''Draining'' False False) sampleReconciler ''n1'') []"
  have e: "EvPatchStatus ?old ?new (Inr ?new) \<in> set ?t" and a: "answered True ?t" by code_simp+
  from split_list [OF e] obtain s u where t: "?t = s @ EvPatchStatus ?old ?new (Inr ?new) # u" by blast
  from a have s: "answered True s" unfolding t by simp
  have "edge True NodeStateDrained (NodeCurrentStateDraining, False) (NodeCurrentStateDrained, True)"
    using lifecycle_refinement [OF envIn_laws(2) t s] by (simp add: stage_def nodeIn_def current_defs requested_defs)
  with t s show ?thesis by blast
qed

text \<open>C16. The type of the status. Whatever the server answers, a status write of a reconciliation whose object
  is of the schema is of the schema: the current state is one of those declared (or still unwritten), and a node in
  state Draining is not recorded as drained; and the drained flag is set only together with the state Drained.\<close>

theorem status_type:
  assumes "polls_only E" and "EvPatchStatus old new x \<in> set (emitted (Reconcile E r n) h)"
  shows "(typed old \<longrightarrow> typed new) \<and> (isDrained new \<longrightarrow> isDrained old \<or> currentState new = NodeCurrentStateDrained)"
  using onlyD [OF Reconcile_typed [OF assms(1)] assms(2)] by (simp add: typedWrite_def)

theorem status_type_witness:
  "\<exists>x. EvPatchStatus (nodeIn ''Drained'' ''Draining'' False) (nodeIn ''Drained'' ''Drained'' True) x \<in>
      set (emitted (Reconcile (envIn ''Drained'' ''Draining'' False False) sampleReconciler ''n1'') []) \<and>
     typed (nodeIn ''Drained'' ''Draining'' False) \<and> typed (nodeIn ''Drained'' ''Drained'' True) \<and>
     \<not> typed (nodeIn ''Drained'' ''Draining'' True)"
proof -
  let ?old = "nodeIn ''Drained'' ''Draining'' False" and ?new = "nodeIn ''Drained'' ''Drained'' True"
  have e: "EvPatchStatus ?old ?new (Inr ?new) \<in>
      set (emitted (Reconcile (envIn ''Drained'' ''Draining'' False False) sampleReconciler ''n1'') [])"
    by code_simp
  moreover have "typed ?old" "\<not> typed (nodeIn ''Drained'' ''Draining'' True)" by code_simp+
  ultimately show ?thesis using status_type [OF envIn_laws(2) e] by blast
qed

end
