(* ===== verification/Cluster.thy ===== *)
theory Cluster
  imports Node_Lifecycle
begin

text \<open>
  The cluster: the node objects in the API server, changed by reconciliations, one after the other,
  and by users. The main property is that the controller works on at most one node at a time, as long as the
  reads and answers of its reconciliations did not mislead it; what misleads it is spelled out, since the
  client of the manager reads from a cache and its patches carry no lock.
\<close>

section \<open>The store\<close>

type_synonym store = "string \<rightharpoonup> Node"

text \<open>The effect of an event on the store: a write that was answered stores the answer.\<close>

fun effect :: "event \<Rightarrow> store \<Rightarrow> store" where
  "effect (EvPatchStatus _ _ (Inr x)) st = st(Name x \<mapsto> x)"
| "effect (EvPatchNode _ _ (Inr x)) st = st(Name x \<mapsto> x)"
| "effect (EvCreateNode _ (Inr x)) st = st(Name x \<mapsto> x)"
| "effect (EvUpdateNode _ (Inr x)) st = st(Name x \<mapsto> x)"
| "effect _ st = st"

definition replay :: "store \<Rightarrow> history \<Rightarrow> store" where
  "replay st t = fold effect t st"

lemma replay_simps [simp]: "replay st [] = st" "replay st (t @ [e]) = effect e (replay st t)"
  by (simp_all add: replay_def)

lemma event_effects:
  obtains (status) old new x where "e = EvPatchStatus old new (Inr x)"
  | (spec) old new x where "e = EvPatchNode old new (Inr x)"
  | (create) y x where "e = EvCreateNode y (Inr x)"
  | (update) y x where "e = EvUpdateNode y (Inr x)"
  | (read) m x where "e = EvGetNode m (Inr x)"
  | (other) "\<And>st. effect e st = st" "nodeOf e = None"
proof (cases e)
  case (EvPatchStatus a b r) then show thesis by (cases r) (auto intro: that)
next
  case (EvPatchNode a b r) then show thesis by (cases r) (auto intro: that)
next
  case (EvCreateNode a r) then show thesis by (cases r) (auto intro: that)
next
  case (EvUpdateNode a r) then show thesis by (cases r) (auto intro: that)
next
  case (EvGetNode a r) then show thesis by (cases r) (auto intro: that)
qed (auto intro: that)

section \<open>Laws about the libraries\<close>

text \<open>Two versions of an object that differ at most in finalizers and owners.\<close>

definition sameNode :: "Node \<Rightarrow> Node \<Rightarrow> bool" where
  "sameNode x y \<longleftrightarrow> Name x = Name y \<and> Spec x = Spec y \<and> Status x = Status y \<and>
     DeletionTimestamp x = DeletionTimestamp y"

lemma sameNode_refl [simp]: "sameNode x x"
  by (simp add: sameNode_def)

text \<open>The helpers on metadata change only finalizers and owners.\<close>

definition metaOnly :: "env \<Rightarrow> bool" where
  "metaOnly E \<longleftrightarrow> (\<forall>x f. sameNode (eRemoveFinalizer E x f) x \<and> sameNode (eAddFinalizer E x f) x) \<and>
     (\<forall>k x y. eSetOwnerReference E k x = Inr y \<longrightarrow> sameNode y x)"

text \<open>
  The laws of every reconciliation: objects come back under the name they were asked for, the helpers work on
  metadata, a poll does only what its condition does. Nothing is said here about how fresh a read is or about what
  others write.
\<close>

definition lawful :: "env \<Rightarrow> bool" where
  "lawful E \<longleftrightarrow> keepsNames E \<and> metaOnly E \<and> polls_only E \<and>
     (\<forall>h x y. eCreateNode E h x = Inr y \<or> eUpdateNode E h x = Inr y \<longrightarrow> Name y = Name x)"

section \<open>Answers are what the environment answered\<close>

definition truth :: "env \<Rightarrow> history \<Rightarrow> event \<Rightarrow> bool" where
  "truth E s e = (case e of
     EvGetNode m r \<Rightarrow> r = eGetNode E s m
   | EvListNodes r \<Rightarrow> r = eListNodes E s
   | EvPatchStatus old new r \<Rightarrow> r = ePatchStatus E s old new
   | EvPatchNode old new r \<Rightarrow> r = ePatchNode E s old new
   | EvCreateNode x r \<Rightarrow> r = eCreateNode E s x
   | EvUpdateNode x r \<Rightarrow> r = eUpdateNode E s x
   | _ \<Rightarrow> True)"

definition honest :: "env \<Rightarrow> 'a op \<Rightarrow> bool" where
  "honest E m \<longleftrightarrow> (\<forall>h. guarded (truth E) h (emitted m h))"

named_theorems honest_rules "operations whose events carry the answers of the environment"

lemma honest_basic [honest_rules]:
  "honest E (ret a)" "honest E (fail e)" "honest E (of_res r)" "honest E (eventf n ty x y)" "honest E (now E)"
proof -
  show "honest E (now E)" by (simp add: honest_def now_def ask_def emitted_def truth_def)
qed (simp_all add: honest_def truth_def)

lemma honest_bind [honest_rules]: "honest E m \<Longrightarrow> (\<And>a. honest E (f a)) \<Longrightarrow> honest E (bind m f)"
  by (auto simp: honest_def emitted_bind split: res.split)

lemma honest_attempt [honest_rules]:
  "honest E m \<Longrightarrow> (\<And>e. honest E (hdl e)) \<Longrightarrow> (\<And>a. honest E (f a)) \<Longrightarrow> honest E (attempt m hdl f)"
  by (auto simp: honest_def emitted_attempt split: res.split)

lemma honest_wrapf [honest_rules]: "honest E m \<Longrightarrow> honest E (wrapf msg m)"
  by (simp add: honest_def)

lemma honest_if [honest_rules]: "honest E m \<Longrightarrow> honest E m' \<Longrightarrow> honest E (if b then m else m')"
  by simp

lemma honest_cases [honest_rules]:
  "honest E m \<Longrightarrow> (\<And>a. honest E (f a)) \<Longrightarrow> honest E (case x of None \<Rightarrow> m | Some a \<Rightarrow> f a)"
  "(\<And>a. honest E (g a)) \<Longrightarrow> (\<And>a. honest E (f' a)) \<Longrightarrow> honest E (case y of Inl a \<Rightarrow> g a | Inr a \<Rightarrow> f' a)"
  "(\<And>a b. honest E (k a b)) \<Longrightarrow> honest E (case p of (a, b) \<Rightarrow> k a b)"
  by (simp_all split: option.split sum.split prod.split)

lemma honest_call: "(\<And>h. truth E h (mk (f h))) \<Longrightarrow> honest E (call f mk)"
  by (simp add: honest_def emitted_call)

lemma honest_primitives [honest_rules]:
  "honest E (getKubeNode E n)" "honest E (getNode E n)" "honest E (listNodes E)" "honest E (createNode E x)"
  "honest E (updateNode E x)" "honest E (patchNode E x y)" "honest E (patchStatus E x y)"
  "honest E (patchKubeNode E k k')" "honest E (newClientset E)" "honest E (hostname E)"
  "honest E (runNodeDrain E dh n)" "honest E (deletePodForeground E ns n)"
  unfolding primitive_defs by (intro honest_call; simp add: truth_def)+

lemma honest_only: "only ev m \<Longrightarrow> (\<And>s e. ev e \<Longrightarrow> truth E s e) \<Longrightarrow> honest E m"
  unfolding honest_def by (auto simp: only_def intro!: guarded_all)

lemma honest_plugins [honest_rules]:
  "honest E (IsHealthy E d node)" "honest E (IsDrainOk E d node)" "honest E (RunPreDrain E d node)"
  "honest E (RunPostDrain E d node)" "honest E (IsClusterNodesHealthy E)"
proof -
  have "truth E s e" if "plugin_event e" for s e
    using that by (cases e) (simp_all add: truth_def plugin_event_def)
  then show "honest E (IsHealthy E d node)" "honest E (IsDrainOk E d node)" "honest E (RunPreDrain E d node)"
    "honest E (RunPostDrain E d node)" "honest E (IsClusterNodesHealthy E)"
    by (blast intro: honest_only only_drain_manager only_IsClusterNodesHealthy)+
qed

lemma honest_reboot:
  assumes "polls_only E"
  shows "honest E (IsRebootRequired E r n)" "honest E (RebootNode E r node)" "honest E (CleanupNode E r n)"
    "honest E (IsNodeRebooted E r k b)"
proof -
  have "truth E s e" if "reboot_event r n e \<and> creates P e" for r n P s e
    using that by (cases e) (simp_all add: truth_def reboot_event_def)
  then show "honest E (IsRebootRequired E r n)" "honest E (RebootNode E r node)" "honest E (CleanupNode E r n)"
    "honest E (IsNodeRebooted E r k b)"
    by (blast intro: honest_only only_IsRebootRequired [OF assms] only_RebootNode only_CleanupNode only_IsNodeRebooted [OF assms])+
qed

lemma honest_Reconcile:
  assumes "polls_only E"
  shows "honest E (Reconcile E r n)"
  unfolding Reconcile_def createNewNode_def reconcileNode_def undrain_def undrainFinish_def undrainUncordon_def
    setDrained_def setCurrentState_def setUnschedulable_def checkRebootRequired_def lastCheckedBefore_def
    isRebootRequired_def switchState_def Let_def work_def rebootStillRequired_def setState_def drain_def drainChecks_def
    rescheduleController_def drainCordoned_def reboot_def setBootID_def isNextNode_def
  by (intro honest_rules honest_reboot [OF assms])

section \<open>What a reconciliation is told\<close>

text \<open>
  Whether an answer agrees with the store \<open>st\<close> as it is after the events \<open>s\<close>, in current state and drained flag
  and, for \<open>b\<close>, in the requested state: an object read is not older than the stored one, the answer to a write is
  what was sent, a created object is new. A read from a cache that is behind does not agree.
\<close>

fun told :: "bool \<Rightarrow> store \<Rightarrow> history \<Rightarrow> event \<Rightarrow> bool" where
  "told b st s (EvGetNode m (Inr x)) = (case replay st s m of Some y \<Rightarrow> agrees b x y | None \<Rightarrow> False)"
| "told b st s (EvPatchStatus _ new (Inr x)) = agrees b x new"
| "told b st s (EvPatchNode _ new (Inr x)) = agrees b x new"
| "told b st s (EvUpdateNode y (Inr x)) = agrees b x y"
| "told b st s (EvCreateNode y (Inr x)) = (agrees b x y \<and> replay st s (Name y) = None)"
| "told b st s _ = True"

lemma agrees_sym: "agrees b x y \<Longrightarrow> agrees b y x"
  by (simp add: agrees_def)

lemma agrees_trans: "agrees b x y \<Longrightarrow> agrees b y z \<Longrightarrow> agrees b x z"
  by (simp add: agrees_def)

lemma agrees_refl [simp]: "agrees b x x"
  by (simp add: agrees_def)

lemma agrees_weak: "agrees True x y \<Longrightarrow> agrees b x y"
  by (simp add: agrees_def)

lemma agrees_same: "sameNode x y \<Longrightarrow> agrees b x y"
  by (simp add: agrees_def sameNode_def stage_def)

lemma told_weak: "told True st s e \<Longrightarrow> told b st s e"
  by (induction b st s e rule: told.induct) (auto intro: agrees_weak split: option.splits)

lemma told_answered: "guarded (told b st) s t \<Longrightarrow> answered b t"
proof (induction t arbitrary: s)
  case (Cons e t)
  then have "told b st s e" "answered b t" by auto
  then show ?case by (cases "(b, st, s, e)" rule: told.cases) (simp_all add: answered_def agrees_def)
qed simp

text \<open>What is known of every event of a reconciliation.\<close>

lemma reconcile_event:
  assumes "lawful E" and "emitted (Reconcile E r n) h = s @ e # u"
  shows "guarded (truth E) h s" "truth E (h @ s) e" "allowed E r n s e" "answered b s \<Longrightarrow> legalWrite b e"
proof -
  from assms(1) have laws: "keepsNames E" "polls_only E" by (simp_all add: lawful_def)
  have "guarded (truth E) h (emitted (Reconcile E r n) h)"
    using honest_Reconcile [OF laws(2)] by (simp add: honest_def)
  with assms(2) show "guarded (truth E) h s" "truth E (h @ s) e" by auto
  show "allowed E r n s e" by (rule Reconcile_allowed [OF laws assms(2)])
  show "answered b s \<Longrightarrow> legalWrite b e" by (rule Reconcile_write [OF laws(2) assms(2)])
qed

lemma status_patch: "new = old\<lparr>Status := Status new\<rparr> \<Longrightarrow> Name new = Name old \<and> Spec new = Spec old"
  by (metis Node.ext_inject Node.surjective Node.update_convs(6))

text \<open>Whatever it is told, a reconciliation of \<open>n\<close> holds and writes objects of that name only.\<close>

definition framed :: "string \<Rightarrow> store \<Rightarrow> history \<Rightarrow> bool" where
  "framed n st s \<longleftrightarrow> (\<forall>m. m \<noteq> n \<longrightarrow> replay st s m = st m) \<and> (\<forall>x. lastNode s = Some x \<longrightarrow> Name x = n)"

lemma event_framed:
  assumes "lawful E" and "framed n st s" and "truth E (h @ s) e" and "allowed E r n s e"
  shows "framed n st (s @ [e])"
proof (cases e rule: event_effects)
  case (status old new x)
  from assms(4) status have old: "lastNode s = Some old" "new = old\<lparr>Status := Status new\<rparr>" by (auto simp: allowed_def)
  with assms(2) status_patch [OF old(2)] have "Name new = n" by (simp add: framed_def)
  with assms(1,3) status have "Name x = n" by (auto simp: truth_def lawful_def keepsNames_def)
  with assms(2) status show ?thesis by (auto simp: framed_def)
next
  case (spec old new x)
  from assms(2,4) spec have "Name new = n" by (auto simp: allowed_def framed_def)
  with assms(1,3) spec have "Name x = n" by (auto simp: truth_def lawful_def keepsNames_def)
  with assms(2) spec show ?thesis by (auto simp: framed_def)
next
  case (create y x)
  from assms(4) create obtain kube z where "kName kube = n" "eSetOwnerReference E kube (freshNode kube) = Inr z"
    "y = eAddFinalizer E z nodeDrainFinalizer" by (auto simp: allowed_def)
  with assms(1) have "Name y = n" by (auto simp: lawful_def metaOnly_def sameNode_def freshNode_def Let_def)
  with assms(1,3) create have "Name x = n" unfolding truth_def lawful_def by auto
  with assms(2) create show ?thesis by (auto simp: framed_def)
next
  case (update y x)
  from assms(4) update obtain old where "lastNode s = Some old" "y = eRemoveFinalizer E old nodeDrainFinalizer"
    by (auto simp: allowed_def)
  with assms(1,2) have "Name y = n" by (auto simp: lawful_def metaOnly_def sameNode_def framed_def)
  with assms(1,3) update have "Name x = n" unfolding truth_def lawful_def by auto
  with assms(2) update show ?thesis by (auto simp: framed_def)
next
  case (read m x)
  with assms(1,3,4) have "Name x = n" by (auto simp: truth_def allowed_def lawful_def keepsNames_def)
  with assms(2) read show ?thesis by (auto simp: framed_def)
next
  case other
  with assms show ?thesis by (auto simp: framed_def)
qed

lemma reconcile_framed:
  assumes "lawful E" and "emitted (Reconcile E r n) h = s @ u"
  shows "framed n st s"
  using assms(2)
proof (induction s arbitrary: u rule: rev_induct)
  case Nil
  show ?case by (simp add: framed_def latest_def)
next
  case (snoc e s)
  then have t: "emitted (Reconcile E r n) h = s @ e # u" by simp
  from event_framed [OF assms(1) snoc.IH [OF t] reconcile_event(2,3) [OF assms(1) t]] show ?case .
qed

text \<open>How an event changes the stored object of the reconciled node, when the answers agree.\<close>

inductive change :: "bool \<Rightarrow> history \<Rightarrow> Node option \<Rightarrow> Node option \<Rightarrow> bool" for b s where
  same: "change b s v v"
| fresh: "stage x = ('''', False) \<Longrightarrow> b \<longrightarrow> specState x = NodeStateActive \<or> specState x = NodeStateCordoned \<Longrightarrow>
    change b s None (Some x)"
| update: "agrees b x y \<Longrightarrow> change b s (Some y) (Some x)"
| status: "lastNode s = Some old \<Longrightarrow> agrees b old y \<Longrightarrow> edge b (specState old) (stage old) (stage x) \<Longrightarrow>
    b \<longrightarrow> specState x = specState old \<Longrightarrow>
    currentState x = NodeCurrentStateNext \<longrightarrow> currentState old \<noteq> NodeCurrentStateNext \<longrightarrow> idleListed s \<Longrightarrow>
    change b s (Some y) (Some x)"
| respec: "agrees b old y \<Longrightarrow> rebootOver b old \<Longrightarrow> stage x = stage old \<Longrightarrow> b \<longrightarrow> specState x = NodeStateActive \<Longrightarrow>
    change b s (Some y) (Some x)"

text \<open>The object held agrees with the stored one.\<close>

definition held :: "bool \<Rightarrow> string \<Rightarrow> store \<Rightarrow> history \<Rightarrow> bool" where
  "held b n st s \<longleftrightarrow> (\<forall>x. lastNode s = Some x \<longrightarrow> (\<exists>y. replay st s n = Some y \<and> agrees b x y))"

lemma event_change:
  assumes laws: "lawful E" and framed: "framed n st s" "framed n st (s @ [e])" and held: "held b n st s"
    and facts: "truth E (h @ s) e" "allowed E r n s e" "legalWrite b e" and told: "told b st s e"
  shows "change b s (replay st s n) (replay st (s @ [e]) n) \<and> held b n st (s @ [e])"
proof (cases e rule: event_effects)
  case (status old new x)
  from framed(2) status have x: "Name x = n" by (simp add: framed_def)
  from told status have a: "agrees b x new" by (simp)
  from facts(2) status have old: "lastNode s = Some old" "new = old\<lparr>Status := Status new\<rparr>"
    "currentState new = NodeCurrentStateNext \<longrightarrow> currentState old \<noteq> NodeCurrentStateNext \<longrightarrow> idleListed s"
    by (auto simp: allowed_def)
  from held old(1) obtain y where y: "replay st s n = Some y" "agrees b old y" by (auto simp: held_def)
  from facts(3) status a have "edge b (specState old) (stage old) (stage x)" by (simp add: legalWrite_def agrees_def)
  moreover have "currentState x = currentState new" "b \<longrightarrow> specState x = specState old"
    using a status_patch [OF old(2)] by (auto simp: agrees_def stage_def)
  ultimately have "change b s (Some y) (Some x)" using old y(2) by (intro change.status) auto
  with y(1) x status show ?thesis by (auto simp: held_def)
next
  case (spec old new x)
  from framed(2) spec have x: "Name x = n" by (simp add: framed_def)
  from facts(2) spec have old: "lastNode s = Some old" by (simp add: allowed_def)
  from held old obtain y where y: "replay st s n = Some y" "agrees b old y" by (auto simp: held_def)
  from told facts(3) spec have "rebootOver b old" "stage x = stage old" "b \<longrightarrow> specState x = NodeStateActive"
    by (auto simp: legalWrite_def agrees_def stage_def)
  with y(2) have "change b s (Some y) (Some x)" by (rule change.respec)
  with y(1) x spec show ?thesis by (auto simp: held_def)
next
  case (create y x)
  from facts(2) create obtain kube z where c: "lastNode s = None" "kName kube = n"
    "eSetOwnerReference E kube (freshNode kube) = Inr z" "y = eAddFinalizer E z nodeDrainFinalizer"
    by (auto simp: allowed_def)
  from c(3,4) laws have y: "sameNode y (freshNode kube)" by (auto simp: lawful_def metaOnly_def sameNode_def)
  with c(2) have "Name y = n" by (simp add: sameNode_def freshNode_def Let_def)
  with told create have t: "agrees b x y" "replay st s n = None" by auto
  from facts(1) create laws \<open>Name y = n\<close> have "Name x = n" unfolding truth_def lawful_def by auto
  moreover from agrees_trans [OF t(1) agrees_same [OF y]] have "change b s None (Some x)"
    by (intro change.fresh) (auto simp: agrees_def freshNode_def zeroStatus_def stage_def Let_def)
  ultimately show ?thesis using create c(1) t(2) by (auto simp: held_def)
next
  case (update y x)
  from facts(2) update laws obtain old where old: "lastNode s = Some old" "sameNode y old"
    by (auto simp: allowed_def lawful_def metaOnly_def)
  from held old(1) obtain z where z: "replay st s n = Some z" "agrees b old z" by (auto simp: held_def)
  from facts(1) update laws have "Name x = Name y" unfolding truth_def lawful_def by auto
  with old framed(1) have x: "Name x = n" by (auto simp: framed_def sameNode_def)
  from told update have "agrees b x y" by (simp)
  from agrees_trans [OF this agrees_same [OF old(2)]] have o: "agrees b x old" .
  with z have "change b s (Some z) (Some x)" by (auto intro: change.update agrees_trans)
  with z(1) x update old(1) agrees_sym [OF o] show ?thesis by (auto simp: held_def)
next
  case (read m x)
  with facts(2) told show ?thesis by (auto simp: held_def allowed_def intro: change.same split: option.splits)
next
  case other
  with held show ?thesis by (auto simp: held_def intro: change.same)
qed

lemma reconcile_prefix:
  assumes "lawful E" and "emitted (Reconcile E r n) h = s @ u" and "guarded (told b st) [] s"
  shows "held b n st s"
  using assms(2,3)
proof (induction s arbitrary: u rule: rev_induct)
  case Nil
  show ?case by (simp add: held_def latest_def)
next
  case (snoc e s)
  then have t: "emitted (Reconcile E r n) h = s @ e # u" and g: "guarded (told b st) [] s" "told b st s e" by simp_all
  note ev = reconcile_event [OF assms(1) t]
  from event_change [OF assms(1) reconcile_framed [OF assms(1) t] reconcile_framed [OF assms(1)] snoc.IH [OF t g(1)]
      ev(2,3) ev(4) [OF told_answered [OF g(1)]] g(2)] snoc.prems(1)
  show ?case by blast
qed

lemma reconcile_change:
  assumes "lawful E" and "emitted (Reconcile E r n) h = s @ e # u" and "guarded (told b st) [] (s @ [e])"
  shows "change b s (replay st s n) (replay st (s @ [e]) n)"
proof -
  from assms(3) have g: "guarded (told b st) [] s" "told b st s e" by simp_all
  note ev = reconcile_event [OF assms(1,2)]
  have "framed n st (s @ [e])" by (rule reconcile_framed [OF assms(1), where u = u and r = r and h = h]) (simp add: assms(2))
  from event_change [OF assms(1) reconcile_framed [OF assms(1,2)] this reconcile_prefix [OF assms(1,2) g(1)]
      ev(2,3) ev(4) [OF told_answered [OF g(1)]] g(2)]
  show ?thesis by blast
qed

lemma reconcile_others:
  assumes "lawful E" and "m \<noteq> n"
  shows "replay st (emitted (Reconcile E r n) h) m = st m"
  using reconcile_framed [OF assms(1), of r n h "emitted (Reconcile E r n) h" "[]" st] assms(2) by (simp add: framed_def)

section \<open>One node at a time\<close>

text \<open>A node is being worked on in the declared work states.\<close>

definition busy :: "Node \<Rightarrow> bool" where
  "busy node \<longleftrightarrow> currentState node \<in> set GetNodeCurrentStates \<and> WorkState (currentState node)"

definition oneBusy :: "store \<Rightarrow> bool" where
  "oneBusy st \<longleftrightarrow> (\<forall>m n x y. st m = Some x \<longrightarrow> st n = Some y \<longrightarrow> busy x \<longrightarrow> busy y \<longrightarrow> m = n)"

text \<open>An object whose status was never written counts as working; it does not ask for a drain when it is calm.\<close>

definition calm :: "Node \<Rightarrow> bool" where
  "calm node \<longleftrightarrow> currentState node \<in> set GetNodeCurrentStates \<or> \<not> Drain (specState node)"

text \<open>
  What misleads a reconciliation: a read or an answer that does not agree with the store, an object received that
  asks for a drain although its status was never written, and a list that shows no node at work although one is.
\<close>

definition misleads :: "store \<Rightarrow> history \<Rightarrow> event \<Rightarrow> bool" where
  "misleads st s e \<longleftrightarrow> \<not> told False st s e \<or> (\<exists>x. nodeOf e = Some x \<and> \<not> calm x) \<or>
     (\<exists>l m y. e = EvListNodes (Inr l) \<and> \<not> someWorks l \<and> replay st s m = Some y \<and> busy y)"

definition misled :: "store \<Rightarrow> history \<Rightarrow> bool" where
  "misled st t \<longleftrightarrow> \<not> guarded (\<lambda>s e. \<not> misleads st s e) [] t"

lemma declared_states [simp]:
  "NodeCurrentStateOk \<in> set GetNodeCurrentStates" "NodeCurrentStateCordoned \<in> set GetNodeCurrentStates"
  "NodeCurrentStateQueued \<in> set GetNodeCurrentStates" "NodeCurrentStateNext \<in> set GetNodeCurrentStates"
  "NodeCurrentStateDraining \<in> set GetNodeCurrentStates" "NodeCurrentStateDrained \<in> set GetNodeCurrentStates"
  "NodeCurrentStateUndraining \<in> set GetNodeCurrentStates" "NodeCurrentStateRebooting \<in> set GetNodeCurrentStates"
  by (simp_all add: GetNodeCurrentStates_def)

lemma empty_undeclared: "'''' \<notin> set GetNodeCurrentStates"
  by (simp add: GetNodeCurrentStates_def current_defs)

lemma edge_declared: "edge b s p q \<Longrightarrow> fst q \<in> set GetNodeCurrentStates \<or> fst q = fst p"
  by (induction rule: edge.induct) simp_all

text \<open>An edge makes a node busy only by picking it from the queue, for objects whose status was written.\<close>

lemma edge_busy:
  assumes "edge b s p q" and "fst q \<in> set GetNodeCurrentStates" and "WorkState (fst q)"
    and "fst p \<in> set GetNodeCurrentStates \<or> \<not> Drain s"
  shows "(fst p \<in> set GetNodeCurrentStates \<and> WorkState (fst p)) \<or> (fst q = NodeCurrentStateNext \<and> fst p \<noteq> NodeCurrentStateNext)"
  using assms by (induction rule: edge.induct) (auto simp: disrupting_def)

lemma busy_stage: "stage x = stage y \<Longrightarrow> busy x = busy y"
  by (simp add: stage_def busy_def)

text \<open>A change makes the node busy only if it was, or if the list before it shows that no node is.\<close>

lemma change_busy:
  assumes "change b s v (Some x)" and "busy x" and "\<And>z. lastNode s = Some z \<Longrightarrow> calm z"
  shows "(\<exists>y. v = Some y \<and> busy y) \<or> idleListed s"
  using assms(1)
proof cases
  case (status old y)
  from assms(2) have "currentState x \<in> set GetNodeCurrentStates" "WorkState (currentState x)" by (auto simp: busy_def)
  with edge_busy [OF status(4)] assms(3) [OF status(2)]
  have "busy old \<or> (currentState x = NodeCurrentStateNext \<and> currentState old \<noteq> NodeCurrentStateNext)"
    by (auto simp: stage_def calm_def busy_def)
  with status(1,3,6) busy_stage [of old y] show ?thesis by (auto simp: agrees_def)
next
  case fresh
  with assms(2) empty_undeclared show ?thesis by (auto simp: busy_def stage_def)
qed (use assms(2) in \<open>auto simp: agrees_def dest: busy_stage\<close>)

lemma unmisled_prefix:
  assumes "\<not> misled st (s @ u)"
  shows "guarded (told False st) [] s" "\<And>x. lastNode s = Some x \<Longrightarrow> calm x"
    "\<And>m y. idleListed s \<Longrightarrow> replay st s m = Some y \<Longrightarrow> \<not> busy y"
proof -
  from assms have g: "guarded (\<lambda>s e. \<not> misleads st s e) [] s" by (simp add: misled_def)
  then show "guarded (told False st) [] s" by (rule guarded_mono) (simp add: misleads_def)
  show "calm x" if "lastNode s = Some x" for x
  proof -
    from latest_in [OF that] obtain e where "e \<in> set s" "nodeOf e = Some x" by blast
    with split_list [of e s] g show ?thesis by (fastforce simp: misleads_def)
  qed
  show "\<not> busy y" if idle: "idleListed s" and y: "replay st s m = Some y" for m y
  proof -
    from idle obtain a l where s: "s = a @ [EvListNodes (Inr l)]" and l: "\<not> someWorks l"
      by (auto simp: idleListed_def someWorks_iff)
    from g have "\<not> misleads st a (EvListNodes (Inr l))" unfolding s by simp
    moreover from y have "replay st a m = Some y" unfolding s by simp
    ultimately show ?thesis using l by (auto simp: misleads_def)
  qed
qed

lemma oneBusy_update:
  assumes "oneBusy st" and "\<And>m. m \<noteq> n \<Longrightarrow> st' m = st m"
    and "\<And>x. st' n = Some x \<Longrightarrow> busy x \<Longrightarrow> (\<exists>y. st n = Some y \<and> busy y) \<or> (\<forall>m y. st m = Some y \<longrightarrow> \<not> busy y)"
  shows "oneBusy st'"
  unfolding oneBusy_def
proof (intro allI impI)
  fix i j x y assume x: "st' i = Some x" "st' j = Some y" "busy x" "busy y"
  show "i = j"
  proof (cases "i = n \<or> j = n")
    case True
    with x assms(3) obtain z where "(i = n \<and> j = n) \<or> st n = Some z \<and> busy z" by (metis assms(2))
    then show ?thesis using x assms(1,2) True unfolding oneBusy_def by metis
  next
    case False
    with x assms(1,2) show ?thesis unfolding oneBusy_def by metis
  qed
qed

lemma reconcile_oneBusy:
  assumes "lawful E" and "oneBusy st" and "emitted (Reconcile E r n) h = s @ u" and "\<not> misled st (s @ u)"
  shows "oneBusy (replay st s)"
  using assms(3,4)
proof (induction s arbitrary: u rule: rev_induct)
  case Nil
  show ?case using assms(2) by simp
next
  case (snoc e s)
  then have t: "emitted (Reconcile E r n) h = s @ e # u" and m: "\<not> misled st (s @ e # u)" by simp_all
  note pre = unmisled_prefix [OF m]
  have g: "guarded (told False st) [] (s @ [e])" by (rule unmisled_prefix [where u = u]) (use m in simp)
  have frame: "replay st (s @ [e]) i = replay st s i" if "i \<noteq> n" for i
    using reconcile_framed [OF assms(1) snoc.prems(1), of st] reconcile_framed [OF assms(1) t, of st] that
    by (simp add: framed_def)
  show ?case
  proof (rule oneBusy_update [OF snoc.IH [OF t m] frame])
    show "(\<exists>y. replay st s n = Some y \<and> busy y) \<or> (\<forall>m y. replay st s m = Some y \<longrightarrow> \<not> busy y)"
      if "replay st (s @ [e]) n = Some x" "busy x" for x
      using change_busy [OF reconcile_change [OF assms(1) t g, unfolded that(1)] that(2) pre(2)] pre(3) by blast
  qed
qed

section \<open>The system\<close>

text \<open>
  What users do: they change requested states and metadata, create objects, and delete them. The status is a
  subresource: a user's write keeps it, and a new object starts without one.
\<close>

definition outside :: "store \<Rightarrow> store \<Rightarrow> bool" where
  "outside st st' \<longleftrightarrow> (\<forall>n y. st' n = Some y \<longrightarrow>
     (case st n of Some x \<Rightarrow> Status y = Status x \<or> Status y = zeroStatus | None \<Rightarrow> Status y = zeroStatus))"

text \<open>
  A run of the system from the store \<open>st0\<close>: the one worker of the controller reconciles node after node, each time
  with any environment that obeys the laws of the libraries, and users act between the writes. The list records the
  reconciliations, each with the store it started from and its events.
\<close>

inductive path :: "nodeReconciler \<Rightarrow> store \<Rightarrow> (store \<times> history) list \<Rightarrow> store \<Rightarrow> bool" for r st0 where
  start: "path r st0 [] st0"
| round: "path r st0 ls st \<Longrightarrow> lawful E \<Longrightarrow> t = emitted (Reconcile E r n) h \<Longrightarrow> path r st0 (ls @ [(st, t)]) (replay st t)"
| user: "path r st0 ls st \<Longrightarrow> outside st st' \<Longrightarrow> path r st0 ls st'"

lemma outside_busy: "outside st st' \<Longrightarrow> st' n = Some y \<Longrightarrow> busy y \<Longrightarrow> \<exists>x. st n = Some x \<and> busy x"
  using empty_undeclared by (fastforce simp: outside_def busy_def zeroStatus_def split: option.splits)

lemma outside_oneBusy: "outside st st' \<Longrightarrow> oneBusy st \<Longrightarrow> oneBusy st'"
  unfolding oneBusy_def using outside_busy by meson

lemma path_oneBusy:
  assumes "path r st0 ls st" and "oneBusy st0" and "\<forall>(s, t) \<in> set ls. \<not> misled s t"
  shows "oneBusy st"
  using assms(1,3)
proof (induction rule: path.induct)
  case start
  show ?case by (rule assms(2))
next
  case (round ls st E t n h)
  then show ?case using reconcile_oneBusy [OF round.hyps(2), of st r n h t "[]"] by simp
next
  case (user ls st st')
  then show ?case by (blast intro: outside_oneBusy)
qed

text \<open>C1. One node at a time. Start with at most one node in a declared work state (Next, Draining, Drained,
  Undraining, Rebooting), let the one worker of the controller reconcile node after node and let users change
  requests, create and delete objects, however this is interleaved: at most one node is in a declared work state,
  as long as no reconciliation was misled. Misled means: a read or the answer to a write differed from the store in
  current state or drained flag (a cache that is behind), or the controller received an object that asks for a drain
  although its status was never written, or the list of nodes showed none at work although one was. Requests may be
  stale and may change at any time, and any call may fail.\<close>

theorem one_node_at_a_time:
  assumes "path r st0 ls st" and "oneBusy st0" and "\<forall>(s, t) \<in> set ls. \<not> misled s t"
    and "st m = Some x" and "st n = Some y" and "busy x" and "busy y"
  shows "m = n"
  using path_oneBusy [OF assms(1-3)] assms(4-7) by (auto simp: oneBusy_def)


section \<open>Ideal surroundings\<close>

text \<open>
  For the claims of progress, and for concrete runs: a cache that has caught up, and nobody else who writes during a
  reconciliation. A time that a patch changes is stored in whole seconds, as \<open>metav1.Time\<close> is printed; every other
  field comes back as it was sent.
\<close>

definition kept :: "NodeStatus \<Rightarrow> NodeStatus \<Rightarrow> NodeStatus" where
  "kept old new = (if RebootRequiredLastChecked new = RebootRequiredLastChecked old then new
     else new\<lparr>RebootRequiredLastChecked := map_option (\<lambda>t. t - t mod Second) (RebootRequiredLastChecked new)\<rparr>)"

definition echoes :: "env \<Rightarrow> bool" where
  "echoes E \<longleftrightarrow>
     (\<forall>h old new x. ePatchStatus E h old new = Inr x \<longrightarrow> Spec x = Spec new \<and> Status x = kept (Status old) (Status new)) \<and>
     (\<forall>h old new x. ePatchNode E h old new = Inr x \<longrightarrow> Spec x = Spec new \<and> Status x = Status new)"

text \<open>Reads answer from the store as it is after the events since \<open>h\<close>; a creation succeeds only for a new name.\<close>

definition serves_store :: "env \<Rightarrow> history \<Rightarrow> store \<Rightarrow> bool" where
  "serves_store E h st \<longleftrightarrow>
     (\<forall>t m x. eGetNode E (h @ t) m = Inr x \<longrightarrow> replay st t m = Some x) \<and>
     (\<forall>t l. eListNodes E (h @ t) = Inr l \<longrightarrow> set l = ran (replay st t)) \<and>
     (\<forall>t x y. eCreateNode E (h @ t) x = Inr y \<longrightarrow> replay st t (Name x) = None) \<and>
     (\<forall>g x y. eCreateNode E g x = Inr y \<or> eUpdateNode E g x = Inr y \<longrightarrow> sameNode y x)"

definition orderly :: "env \<Rightarrow> history \<Rightarrow> store \<Rightarrow> bool" where
  "orderly E h st \<longleftrightarrow> serves_store E h st \<and> keepsNames E \<and> echoes E \<and> metaOnly E \<and> polls_only E"

lemma orderly_lawful: "orderly E h st \<Longrightarrow> lawful E"
  unfolding orderly_def lawful_def serves_store_def sameNode_def by blast

lemma kept_stage [simp]: "CurrentState (kept a b) = CurrentState b" "Drained (kept a b) = Drained b"
  by (simp_all add: kept_def)

lemma kept_same [simp]: "RebootRequiredLastChecked b = RebootRequiredLastChecked a \<Longrightarrow> kept a b = b"
  by (simp add: kept_def)

lemma orderly_told:
  assumes "orderly E h st" and "truth E (h @ s) e"
  shows "told True st s e"
proof (cases e rule: event_effects)
  case (create y x)
  with assms have "eCreateNode E (h @ s) y = Inr x" "serves_store E h st" by (simp_all add: truth_def orderly_def)
  then have "sameNode x y" "replay st s (Name y) = None" unfolding serves_store_def by blast+
  with create show ?thesis by (simp add: agrees_same)
next
  case (update y x)
  with assms have "sameNode x y" by (auto simp: truth_def orderly_def serves_store_def)
  with update show ?thesis by (simp add: agrees_same)
next
  case other
  from other(1) [of Map.empty] other(2) show ?thesis by (cases "(True, st, s, e)" rule: told.cases) auto
next
  case (status old new x)
  with assms have "Spec x = Spec new" "Status x = kept (Status old) (Status new)" by (auto simp: truth_def orderly_def echoes_def)
  with status show ?thesis by (simp add: agrees_def stage_def)
next
  case (spec old new x)
  with assms have "Spec x = Spec new" "Status x = Status new" by (auto simp: truth_def orderly_def echoes_def)
  with spec show ?thesis by (simp add: agrees_def stage_def)
next
  case (read m x)
  with assms have "replay st s m = Some x" by (auto simp: truth_def orderly_def serves_store_def)
  with read show ?thesis by simp
qed

text \<open>In them objects stay calm, so no reconciliation is misled.\<close>

definition tidy :: "store \<Rightarrow> bool" where
  "tidy st \<longleftrightarrow> (\<forall>n x. st n = Some x \<longrightarrow> Name x = n \<and> calm x)"

lemma calm_agrees: "agrees True x y \<Longrightarrow> calm x = calm y"
  by (auto simp: agrees_def calm_def stage_def)

lemma change_calm:
  assumes "change True s v (Some x)" and "\<And>y. v = Some y \<Longrightarrow> calm y"
  shows "calm x"
  using assms(1)
proof cases
  case (status old y)
  with assms(2) have "calm old" by (auto dest: calm_agrees)
  with status edge_declared [OF status(4)] show ?thesis by (auto simp: calm_def stage_def)
qed (use assms(2) in \<open>auto simp: calm_def dest: calm_agrees\<close>)

lemma effect_name: "effect e st n = Some x \<Longrightarrow> (\<And>y. st n = Some y \<Longrightarrow> Name y = n) \<Longrightarrow> Name x = n"
  by (cases e rule: event_effects) (auto split: if_splits)

lemma received: "nodeOf e = Some x \<Longrightarrow> (\<exists>m. e = EvGetNode m (Inr x)) \<or> effect e st (Name x) = Some x"
  by (cases e rule: event_effects) auto

lemma orderly_prefix:
  assumes "orderly E h st" and "tidy st" and "emitted (Reconcile E r n) h = s @ u"
  shows "guarded (told True st) [] s \<and> tidy (replay st s)"
  using assms(3)
proof (induction s arbitrary: u rule: rev_induct)
  case Nil
  show ?case using assms(2) by simp
next
  case (snoc e s)
  then have t: "emitted (Reconcile E r n) h = s @ e # u" by simp
  note IH = snoc.IH [OF t] and law = orderly_lawful [OF assms(1)]
  note ev = reconcile_event [OF law t]
  from IH orderly_told [OF assms(1) ev(2)] have g: "guarded (told True st) [] (s @ [e])" by simp
  have f: "framed n st s" "framed n st (s @ [e])" using reconcile_framed [OF law] t snoc.prems by blast+
  have "calm x" if "replay st (s @ [e]) n = Some x" for x
    using change_calm [OF reconcile_change [OF law t g, unfolded that]] IH by (auto simp: tidy_def)
  moreover have "Name x = n" if "replay st (s @ [e]) n = Some x" for x
    using that IH effect_name [of e "replay st s" n x] by (auto simp: tidy_def)
  ultimately have "tidy (replay st (s @ [e]))" using IH f unfolding tidy_def framed_def by metis
  with g show ?case by simp
qed

lemma orderly_unmisled:
  assumes "orderly E h st" and "tidy st" and "emitted (Reconcile E r n) h = s @ u"
  shows "guarded (\<lambda>s e. \<not> misleads st s e) [] s"
  using assms(3)
proof (induction s arbitrary: u rule: rev_induct)
  case (snoc e s)
  then have t: "emitted (Reconcile E r n) h = s @ e # u" by simp
  note pre = orderly_prefix [OF assms(1,2) snoc.prems] orderly_prefix [OF assms(1,2) t]
  note ev = reconcile_event [OF orderly_lawful [OF assms(1)] t]
  have "calm x" if "nodeOf e = Some x" for x
  proof -
    have "replay st s m = Some x" if "e = EvGetNode m (Inr x)" for m
      using ev(2) that assms(1) by (auto simp: truth_def orderly_def serves_store_def)
    with received [OF that, of "replay st s"] pre show ?thesis unfolding tidy_def by (metis replay_simps(2))
  qed
  moreover have "\<not> busy y" if "e = EvListNodes (Inr l)" "\<not> someWorks l" "replay st s m = Some y" for l m y
  proof -
    from ev(2) that(1) assms(1) have "set l = ran (replay st s)" by (auto simp: truth_def orderly_def serves_store_def)
    with that(2,3) show ?thesis by (auto simp: someWorks_iff busy_def ran_def)
  qed
  moreover have "told False st s e" using pre(1) by (simp add: told_weak)
  ultimately have "\<not> misleads st s e" by (auto simp: misleads_def)
  with snoc.IH [OF t] show ?case by simp
qed simp

text \<open>The object held is the stored one, up to metadata.\<close>

lemma orderly_held:
  assumes "orderly E h st" and "emitted (Reconcile E r n) h = s @ u" and "lastNode s = Some z"
  shows "\<exists>y. replay st s n = Some y \<and> sameNode z y"
  using assms(2,3)
proof (induction s arbitrary: u z rule: rev_induct)
  case Nil
  then show ?case by (simp add: latest_def)
next
  case (snoc e s)
  then have t: "emitted (Reconcile E r n) h = s @ e # u" by simp
  note law = orderly_lawful [OF assms(1)]
  note ev = reconcile_event [OF law t] and name = reconcile_framed [OF law snoc.prems(1), of st] reconcile_framed [OF law t, of st]
  show ?case
  proof (cases e rule: event_effects)
    case (create y x)
    with ev(3) snoc.prems(2) show ?thesis by (simp add: allowed_def)
  next
    case (update y x)
    with ev(3) law snoc.prems(2) have y: "lastNode s = Some z" "sameNode y z" by (auto simp: allowed_def lawful_def metaOnly_def)
    from update ev(2) assms(1) have "sameNode x y" by (auto simp: truth_def orderly_def serves_store_def)
    with y name(2) update show ?thesis by (auto simp: framed_def sameNode_def)
  next
    case (read m x)
    with ev(2) assms(1) have "replay st s m = Some x" by (auto simp: truth_def orderly_def serves_store_def)
    with read ev(3) snoc.prems(2) show ?thesis by (simp add: allowed_def)
  next
    case other
    with snoc.IH [OF t] snoc.prems(2) show ?thesis by simp
  qed (use name(1) snoc.prems(2) in \<open>auto simp: framed_def\<close>)
qed

lemma reconcile_good:
  assumes "orderly E h st" and "tidy st" and "oneBusy st" and "t = emitted (Reconcile E r n) h"
  shows "tidy (replay st t)" "oneBusy (replay st t)" "m \<noteq> n \<Longrightarrow> replay st t m = st m" "\<not> misled st t"
proof -
  note law = orderly_lawful [OF assms(1)]
  show m: "\<not> misled st t" using orderly_unmisled [OF assms(1,2), of r n t "[]"] assms(4) by (simp add: misled_def)
  show "tidy (replay st t)" using orderly_prefix [OF assms(1,2), of r n t "[]"] assms(4) by simp
  show "oneBusy (replay st t)" using reconcile_oneBusy [OF law assms(3), of r n h t "[]"] m assms(4) by simp
  show "m \<noteq> n \<Longrightarrow> replay st t m = st m" using reconcile_others [OF law] assms(4) by blast
qed

text \<open>A server that answers from its store, for concrete runs; \<open>l\<close> lists the objects stored at the start.\<close>

fun written :: "history \<Rightarrow> Node list" where
  "written [] = []"
| "written (EvPatchStatus _ _ (Inr x) # t) = x # written t"
| "written (EvPatchNode _ _ (Inr x) # t) = x # written t"
| "written (EvCreateNode _ (Inr x) # t) = x # written t"
| "written (EvUpdateNode _ (Inr x) # t) = x # written t"
| "written (_ # t) = written t"

definition storeEnv :: "Node list \<Rightarrow> env" where
  "storeEnv l = (let st = map_of (map (\<lambda>x. (Name x, x)) l) in sampleEnv\<lparr>
     eGetNode := (\<lambda>h n. case replay st h n of Some x \<Rightarrow> if Name x = n then Inr x else Inl (ExtError ''name'') | None \<Rightarrow> Inl (ExtError ''NotFound'')),
     eListNodes := (\<lambda>h. Inr (List.map_filter (replay st h) (map Name (l @ written h)))),
     ePatchStatus := (\<lambda>h old new. Inr (new\<lparr>Status := kept (Status old) (Status new)\<rparr>)),
     eCreateNode := (\<lambda>h x. if replay st h (Name x) = None then Inr x else Inl (ExtError ''AlreadyExists''))\<rparr>)"

lemma effect_dom: "dom (effect e st) \<subseteq> dom st \<union> Name ` set (written [e])"
  by (cases e rule: event_effects) auto

lemma written_append: "written (s @ t) = written s @ written t"
  by (induction s rule: written.induct) auto

lemma replay_dom: "dom (replay st t) \<subseteq> dom st \<union> Name ` set (written t)"
proof (induction t rule: rev_induct)
  case (snoc e t)
  with effect_dom [of e "replay st t"] show ?case by (auto simp: written_append)
qed simp

lemma dom_listed_ran: "dom f \<subseteq> set ks \<Longrightarrow> set (List.map_filter f ks) = ran f"
  by (force simp: List.map_filter_def ran_def dom_def)

lemma storeEnv_orderly: "orderly (storeEnv l) [] (map_of (map (\<lambda>x. (Name x, x)) l))"
proof -
  let ?st = "map_of (map (\<lambda>x. (Name x, x)) l)"
  have "dom ?st = Name ` set l" by (auto simp: dom_map_of_conv_image_fst image_image)
  with replay_dom [of ?st] have "dom (replay ?st t) \<subseteq> Name ` set (l @ written t)" for t by auto
  then have "set (List.map_filter (replay ?st t) (map Name (l @ written t))) = ran (replay ?st t)" for t
    by (intro dom_listed_ran) (simp only: set_map)
  then have "serves_store (storeEnv l) [] ?st"
    by (auto simp: serves_store_def storeEnv_def sampleEnv_def Let_def split: option.splits if_splits)
  moreover have "keepsNames (storeEnv l)"
    by (auto simp: keepsNames_def storeEnv_def sampleEnv_def Let_def split: option.splits if_splits)
  moreover have "echoes (storeEnv l)" "metaOnly (storeEnv l)"
    by (auto simp: echoes_def metaOnly_def sameNode_def storeEnv_def sampleEnv_def Let_def)
  moreover have "polls_only (storeEnv l)" by (rule pollOnce_only) (simp add: storeEnv_def Let_def)
  ultimately show ?thesis by (simp add: orderly_def)
qed

lemma replay_single:
  "\<forall>x \<in> set (written t). Name x = n \<Longrightarrow> replay [n \<mapsto> x0] t = [n \<mapsto> last (x0 # written t)]"
proof (induction t rule: rev_induct)
  case (snoc e t)
  define y where "y = last (x0 # written t)"
  have IH: "replay [n \<mapsto> x0] t = [n \<mapsto> y]" unfolding y_def
    by (rule snoc.IH) (use snoc.prems in \<open>simp add: written_append ball_Un\<close>)
  have last: "last (x0 # written t @ written [e]) = last (y # written [e])"
    unfolding y_def by (cases "written [e]") auto
  have "replay [n \<mapsto> x0] (t @ [e]) = effect e [n \<mapsto> y]" by (simp add: IH)
  also have "\<dots> = [n \<mapsto> last (y # written [e])]" using snoc.prems
    by (cases "[e]" rule: written.cases) (auto simp: written_append)
  finally show ?case by (simp only: written_append last)
qed simp

theorem one_node_at_a_time_witness:
  "\<exists>ls st x. path sampleReconciler [''n1'' \<mapsto> nodeIn ''Drained'' ''Queued'' False] ls st \<and> length ls = 1 \<and>
     (\<forall>(s, t) \<in> set ls. \<not> misled s t) \<and> st ''n1'' = Some x \<and> busy x \<and> (\<forall>m y. st m = Some y \<longrightarrow> busy y \<longrightarrow> m = ''n1'')"
proof -
  let ?x0 = "nodeIn ''Drained'' ''Queued'' False"
  let ?st = "[''n1'' \<mapsto> ?x0]"
  let ?t = "emitted (Reconcile (storeEnv [?x0]) sampleReconciler ''n1'') []"
  define x where "x = last (?x0 # written ?t)"
  have "\<forall>x \<in> set (written ?t). Name x = ''n1''" by code_simp
  then have st: "replay ?st ?t = [''n1'' \<mapsto> x]" unfolding x_def by (rule replay_single)
  have x0: "Name ?x0 = ''n1''" "calm ?x0" by code_simp+
  have o: "orderly (storeEnv [?x0]) [] ?st" using storeEnv_orderly [of "[?x0]"] x0 by simp
  have b: "oneBusy ?st" and t: "tidy ?st" using x0 by (auto simp: oneBusy_def tidy_def split: if_splits)
  define ls where "ls = [] @ [(?st, ?t)]"
  have p: "path sampleReconciler ?st ls (replay ?st ?t)" unfolding ls_def
    by (rule path.round [OF path.start orderly_lawful [OF o] refl])
  have m: "\<forall>(s, t) \<in> set ls. \<not> misled s t" using reconcile_good(4) [OF o t b refl] by (simp add: ls_def)
  have len: "length ls = 1" by (simp add: ls_def)
  have busy: "busy x" unfolding x_def by code_simp
  define st' where "st' = [''n1'' \<mapsto> x]"
  have x: "st' ''n1'' = Some x" by (simp add: st'_def)
  have "m = ''n1''" if "st' m = Some y" "busy y" for m y
    by (rule one_node_at_a_time [OF p b m, unfolded st, folded st'_def, OF that(1) x that(2) busy])
  moreover have "path sampleReconciler ?st ls st'" using p unfolding st st'_def .
  ultimately show ?thesis using m len x busy by blast
qed

end
