(* ===== verification/Progress.thy ===== *)
theory Progress
  imports Cluster
begin

text \<open>
  Progress: in an environment where nothing fails and every plugin consents, the controller finishes
  what was requested, in a known number of reconciliations.
\<close>

section \<open>Progress of the object held\<close>

text \<open>The object held is the last one received.\<close>

abbreviation holds :: "Node \<Rightarrow> history \<Rightarrow> bool" where
  "holds node \<equiv> (\<lambda>t. lastNode t = Some node)"

lemma yields_frame:
  assumes "only ev m" and "\<And>e. ev e \<Longrightarrow> nodeOf e = None" and "\<And>h. \<exists>a. result m h = Ok a \<and> X a"
  shows "yields h (holds node) m (\<lambda>a t. X a \<and> holds node t)"
proof -
  have "lastNode (t @ u) = lastNode t" if "\<forall>e \<in> set u. ev e" for t u
    using that
  proof (induction u rule: rev_induct)
    case (snoc e u)
    then show ?case using assms(2) [of e] latest_snoc [of nodeOf "t @ u" e] by simp
  qed simp
  with assms(1,3) show ?thesis unfolding yields_def only_def by metis
qed

lemma yields_plugins:
  assumes "only plugin_event m" and "\<And>h. \<exists>a. result m h = Ok a \<and> X a"
  shows "yields h (holds node) m (\<lambda>a t. X a \<and> holds node t)"
  by (rule yields_frame [OF assms(1) _ assms(2)]) (simp add: plugin_event_frame)

section \<open>A willing environment\<close>

text \<open>
  Nothing fails: the nodes are ready, every plugin that is asked answers and consents, the node \<open>n\<close> can
  be read, and nobody deletes it.
\<close>

definition willing :: "env \<Rightarrow> string \<Rightarrow> bool" where
  "willing E n \<longleftrightarrow>
     answers (eListKubeNodes E) allReady \<and>
     (\<forall>c. answers (\<lambda>h. eIsSupported E h c) (\<lambda>_. True)) \<and>
     (\<forall>c. answers (\<lambda>h. eIsHealthy E h c) (\<lambda>b. GetHealthy (Some b))) \<and>
     (\<forall>c rq. answers (\<lambda>h. eIsDrainOk E h c rq) (\<lambda>b. GetOk (Some b))) \<and>
     (\<forall>c rq. answers (\<lambda>h. ePreDrain E h c rq) (\<lambda>_. True)) \<and>
     (\<forall>c rq. answers (\<lambda>h. ePostDrain E h c rq) (\<lambda>_. True)) \<and>
     (\<forall>k vs. \<exists>q. eInRequirement E k vs = Inr q) \<and>
     (\<forall>ns lo. answers (\<lambda>h. eDeletePods E h ns lo) (\<lambda>_. True)) \<and>
     answers (eNewClientset E) (\<lambda>_. True) \<and>
     (\<forall>dh m. answers (\<lambda>h. eRunNodeDrain E h dh m) (\<lambda>_. True)) \<and>
     answers (\<lambda>h. eGetKubeNode E h n) (\<lambda>_. True) \<and>
     answers (\<lambda>h. eGetNode E h n) (\<lambda>_. True) \<and>
     answers (eListNodes E) (\<lambda>_. True) \<and>
     (\<forall>old new. answers (\<lambda>h. ePatchStatus E h old new) (\<lambda>x. DeletionTimestamp x = DeletionTimestamp new)) \<and>
     (\<forall>old new. answers (\<lambda>h. ePatchKubeNode E h old new) (\<lambda>_. True))"



lemma willing_calls:
  assumes "willing E n"
  shows "\<exists>b. eIsDrainOk E h c rq = Inr b \<and> GetOk (Some b)" "ePreDrain E h c rq' = Inr ()" "ePostDrain E h c rq'' = Inr ()"
    "\<exists>s. eIsSupported E h c = Inr s" "\<exists>b. eIsHealthy E h c = Inr b \<and> GetHealthy (Some b)"
    "\<exists>ks. eListKubeNodes E h = Inr ks \<and> allReady ks"
  using assms by (auto simp: willing_def answers_def)

lemma willing_reads:
  assumes "willing E n"
  shows "\<exists>k. eGetKubeNode E h n = Inr k" "\<exists>x. eGetNode E h n = Inr x"
    "\<exists>l. eListNodes E h = Inr l"
  using assms unfolding willing_def by (simp_all add: answers_def)

lemma healthyLoop_willing:
  assumes "willing E n"
  shows "\<exists>st. result (healthyLoop E cs b errs ps) h = Ok (b, errs, st)"
proof (induction cs arbitrary: ps h)
  case (Cons c cs)
  obtain pid client where c: "c = (pid, client)" by (cases c)
  obtain s where s: "eIsSupported E h (dcClient client) = Inr s" using willing_calls(4) [OF assms] by blast
  let ?h = "h @ [EvIsSupported (dcClient client) (Inr s)]"
  obtain v where "eIsHealthy E ?h (dcClient client) = Inr v" "GetHealthy (Some v)" using willing_calls(5) [OF assms] by blast
  with s show ?case
    by (simp add: c result_attempt emitted_attempt DrainClient_IsSupported_def DrainClient_IsHealthy_def
        invokeIsSupported_def invokeIsHealthy_def run_simps Cons.IH)
qed simp

lemma drainOkLoop_willing:
  assumes "willing E n"
  shows "\<exists>st. result (drainOkLoop E m cs b errs ps) h = Ok (b, errs, st)"
proof (induction cs arbitrary: ps h)
  case (Cons c cs)
  obtain pid client where c: "c = (pid, client)" by (cases c)
  obtain s where s: "eIsSupported E h (dcClient client) = Inr s" using willing_calls(4) [OF assms] by blast
  let ?h = "h @ [EvIsSupported (dcClient client) (Inr s)]"
  obtain v where "eIsDrainOk E ?h (dcClient client) (IsDrainOkRequest_Build (Some m)) = Inr v" "GetOk (Some v)"
    using willing_calls(1) [OF assms] by blast
  with s show ?case
    by (simp add: c result_attempt emitted_attempt DrainClient_IsSupported_def DrainClient_IsDrainOk_def
        invokeIsSupported_def invokeIsDrainOk_def run_simps Cons.IH)
qed simp

lemma hooks_willing:
  assumes "willing E n"
  shows "result (preDrainLoop E node cs) h = Ok ()" "result (postDrainLoop E node cs) h = Ok ()"
proof (induction cs arbitrary: h)
  case (Cons c cs)
  obtain pid client where c: "c = (pid, client)" by (cases c)
  {
    case 1
    obtain s where "eIsSupported E h (dcClient client) = Inr s" using willing_calls(4) [OF assms] by blast
    then show ?case using Cons.IH willing_calls(2) [OF assms]
      by (simp add: c result_attempt DrainClient_IsSupported_def DrainClient_PreDrain_def invokeIsSupported_def
          invokePreDrain_def run_simps)
  next
    case 2
    obtain s where "eIsSupported E h (dcClient client) = Inr s" using willing_calls(4) [OF assms] by blast
    then show ?case using Cons.IH willing_calls(3) [OF assms]
      by (simp add: c result_attempt DrainClient_IsSupported_def DrainClient_PostDrain_def invokeIsSupported_def
          invokePostDrain_def run_simps)
  }
qed simp_all

lemma drain_manager_willing:
  assumes "willing E n"
  shows "result (IsHealthy E d node) h = Ok True" "result (IsDrainOk E d node) h = Ok True"
    "result (RunPreDrain E d node) h = Ok ()" "result (RunPostDrain E d node) h = Ok ()"
proof -
  obtain ks where ks: "eListKubeNodes E h = Inr ks" "allReady ks" using willing_calls(6) [OF assms] by blast
  let ?h = "h @ [EvListKubeNodes (Inr ks)]"
  obtain st where "result (healthyLoop E (shuffle (eMapOrder E ?h) (drainClients d)) True [] []) ?h = Ok (True, [], st)"
    using healthyLoop_willing [OF assms] by blast
  with ks show "result (IsHealthy E d node) h = Ok True"
    by (simp add: IsHealthy_def result_attempt run_simps run_IsClusterNodesHealthy)
  obtain st where "result (drainOkLoop E (Name node) (shuffle (eMapOrder E h) (drainClients d)) True [] []) h = Ok (True, [], st)"
    using drainOkLoop_willing [OF assms] by blast
  then show "result (IsDrainOk E d node) h = Ok True" by (simp add: IsDrainOk_def run_simps)
  show "result (RunPreDrain E d node) h = Ok ()" "result (RunPostDrain E d node) h = Ok ()"
    by (simp_all add: RunPreDrain_def RunPostDrain_def run_simps hooks_willing [OF assms])
qed

section \<open>The steps of a drain\<close>

text \<open>Writes succeed and are answered as in \<open>orderly\<close>.\<close>

abbreviation become :: "Node \<Rightarrow> (Node \<Rightarrow> bool) \<Rightarrow> Node \<Rightarrow> history \<Rightarrow> bool" where
  "become node X \<equiv> (\<lambda>x t. Name x = Name node \<and> Spec x = Spec node \<and>
     DeletionTimestamp x = DeletionTimestamp node \<and> X x \<and> holds x t)"

lemma yields_patchStatus:
  assumes "willing E n" and "keepsNames E" and "echoes E"
  shows "yields h P (patchStatus E old new) (become new (\<lambda>x. Status x = kept (Status old) (Status new)))"
  unfolding patchStatus_def
proof (rule yields_call)
  show "answers (\<lambda>h. ePatchStatus E h old new) (\<lambda>x. Name x = Name new \<and> Spec x = Spec new \<and>
      DeletionTimestamp x = DeletionTimestamp new \<and> Status x = kept (Status old) (Status new))"
    using assms unfolding willing_def answers_def keepsNames_def echoes_def by metis
qed simp

lemma yields_become:
  "(Name x = Name node \<Longrightarrow> Spec x = Spec node \<Longrightarrow> DeletionTimestamp x = DeletionTimestamp node \<Longrightarrow> X x \<Longrightarrow> yields h (holds x) m Q) \<Longrightarrow> yields h (become node X x) m Q"
  by (auto simp: yields_def)

lemma yields_setCurrentState:
  assumes "willing E n" and "keepsNames E" and "echoes E"
  shows "yields h (holds node) (setCurrentState E node s) (become node (\<lambda>x. Status x = (Status node)\<lparr>CurrentState := s\<rparr>))"
proof -
  let ?new = "node\<lparr>Status := (Status node)\<lparr>CurrentState := s\<rparr>\<rparr>"
  have "yields h (holds node) (patchStatus E node ?new) (become node (\<lambda>x. Status x = (Status node)\<lparr>CurrentState := s\<rparr>))"
    by (rule yields_post [OF yields_patchStatus [OF assms]]) simp
  then show ?thesis unfolding setCurrentState_def by (auto intro!: yields_wrapf yields_ret)
qed

lemma yields_eventf: "yields h (holds node) (eventf m ty a b) (\<lambda>_. holds node)"
  using yields_plugins [OF only_eventf, where X = "\<lambda>_. True"] by simp

lemma yields_setUnschedulable:
  assumes "willing E n"
  shows "yields h (holds node) (setUnschedulable E kube b) (\<lambda>_. holds node)"
proof -
  have "yields h (holds node) (patchKubeNode E kube k) (\<lambda>_. holds node)" for k
    unfolding patchKubeNode_def
    by (rule yields_call [where A = "\<lambda>_. True"]) (use assms in \<open>auto simp: willing_def\<close>)
  then show ?thesis unfolding setUnschedulable_def by (auto intro: yields_wrapf yields_ret)
qed

lemma yields_CleanupNode:
  assumes "willing E n" and "m \<noteq> ''''"
  shows "yields h (holds node) (CleanupNode E r m) (\<lambda>_. holds node)"
proof -
  obtain q where "eInRequirement E LabelComponent [''reboot-required'', ''reboot''] = Inr q"
    using assms(1) unfolding willing_def by blast
  moreover have "yields h (holds node) (deletePods E ns lo) (\<lambda>_. holds node)" for ns lo
    unfolding deletePods_def
    by (rule yields_call [where A = "\<lambda>_. True"]) (use assms in \<open>auto simp: willing_def\<close>)
  ultimately show ?thesis using assms(2) by (simp add: CleanupNode_def yields_wrapf)
qed

lemma yields_drainChecks:
  assumes "willing E n" and "keepsNames E" and "echoes E"
  shows "yields h (holds node) (drainChecks E r node) (become node (\<lambda>x. Status x = (Status node)\<lparr>CurrentState := CurrentState (Status x)\<rparr>))"
proof -
  have checks: "yields h (holds node) (wrapf msg (IsHealthy E d node)) (\<lambda>a t. a \<and> holds node t)"
    "yields h (holds node) (wrapf msg (IsDrainOk E d node)) (\<lambda>a t. a \<and> holds node t)" for d msg
    by (intro yields_wrapf yields_plugins [where X = "\<lambda>a. a"] only_drain_manager exI [of _ True];
        simp add: drain_manager_willing [OF assms(1)])+
  have start: "yields h (\<lambda>t. b \<and> holds node t) (if \<not> b then fail e else setCurrentState E node s)
      (become node (\<lambda>x. Status x = (Status node)\<lparr>CurrentState := CurrentState (Status x)\<rparr>))" for b e s
    by (rule yields_given [of _ b]) (auto intro: yields_post [OF yields_setCurrentState [OF assms]])
  have "yields h (\<lambda>t. a \<and> holds node t) (if \<not> a then fail e' else bind (wrapf msg (IsDrainOk E d node)) (\<lambda>b.
      if \<not> b then fail e else setCurrentState E node s))
      (become node (\<lambda>x. Status x = (Status node)\<lparr>CurrentState := CurrentState (Status x)\<rparr>))" for a d e e' s msg
    by (rule yields_given [of _ a]) (auto intro: yields_bind [OF checks(2) start])
  from yields_bind [OF checks(1) this] show ?thesis
    unfolding drainChecks_def by (auto intro: yields_ret)
qed

lemma yields_drainCordoned:
  assumes "willing E n" and "keepsNames E" and "echoes E" and "Name node \<noteq> ''''"
  shows "yields h (holds node) (drainCordoned E r node) (become node (\<lambda>x. currentState x = NodeCurrentStateDrained \<and> isDrained x))"
proof -
  have pre: "yields h (holds node) (RunPreDrain E (drainManager r) node) (\<lambda>_. holds node)"
    using yields_plugins [OF only_drain_manager(3), where X = "\<lambda>_. True"] drain_manager_willing(3) [OF assms(1)] by simp
  have cs: "yields h (holds node) (newClientset E) (\<lambda>_. holds node)"
    unfolding newClientset_def by (rule yields_call [where A = "\<lambda>_. True"]) (use assms(1) in \<open>auto simp: willing_def\<close>)
  have dr: "yields h (holds node) (runNodeDrain E dh m) (\<lambda>_. holds node)" for dh m
    unfolding runNodeDrain_def by (rule yields_call [where A = "\<lambda>_. True"]) (use assms(1) in \<open>auto simp: willing_def\<close>)
  let ?new = "node\<lparr>Status := (Status node)\<lparr>Drained := True, CurrentState := NodeCurrentStateDrained\<rparr>\<rparr>"
  have "yields h (holds node) (bind (wrapf msg (patchStatus E node ?new)) (\<lambda>node. bind (eventf (Name node) ty a b) (\<lambda>_. ret node)))
    (become node (\<lambda>x. currentState x = NodeCurrentStateDrained \<and> isDrained x))" for msg ty a b
    by (intro yields_bind [OF yields_wrapf [OF yields_patchStatus [OF assms(1-3)]]] yields_become
        yields_bind [OF yields_eventf] yields_ret) simp
  then show ?thesis
    unfolding drainCordoned_def
    by (intro yields_bind [OF yields_wrapf [OF pre]] yields_bind [OF cs]
        yields_bind [OF yields_wrapf [OF yields_CleanupNode [OF assms(1,4)]]] yields_attempt [OF dr])
qed

section \<open>The reconciliations of a drain\<close>

text \<open>The check for a required reboot is not due, whenever the clock is read.\<close>

definition recentlyChecked :: "env \<Rightarrow> Node \<Rightarrow> bool" where
  "recentlyChecked E node \<longleftrightarrow> (\<exists>c. RebootRequiredLastChecked (Status node) = Some c \<and> c \<noteq> 0 \<and>
     (\<forall>h. eNow E h - rebootCheckInterval E \<le> c))"

lemma yields_checkRebootRequired:
  assumes "recentlyChecked E node" and "\<And>t c. P t \<Longrightarrow> P (t @ [EvNow c])"
  shows "yields h P (checkRebootRequired E r node) (\<lambda>x t. x = node \<and> P t)"
proof -
  from assms obtain c where c: "RebootRequiredLastChecked (Status node) = Some c" "c \<noteq> 0"
    "\<And>h. eNow E h - rebootCheckInterval E \<le> c" by (auto simp: recentlyChecked_def)
  then have "\<not> c < eNow E h - rebootCheckInterval E" for h by (simp add: not_less)
  then have "yields h P (lastCheckedBefore E node (rebootCheckInterval E)) (\<lambda>due t. \<not> due \<and> P t)"
    using assms(2) by (auto simp: c yields_def lastCheckedBefore_def now_def ask_def bind_def ret_def result_def emitted_def)
  then have "yields h P (bind (lastCheckedBefore E node (rebootCheckInterval E)) (\<lambda>due.
      if due then m else ret node)) (\<lambda>x t. x = node \<and> P t)" for m
    by (rule yields_bind) (auto simp: yields_def)
  then show ?thesis unfolding checkRebootRequired_def by (auto intro: yields_ret)
qed

text \<open>Up to the switch, the object stays as it was read.\<close>

lemma yields_reconcileNode:
  assumes "recentlyChecked E node" and "\<And>t c. P t \<Longrightarrow> P (t @ [EvNow c])"
    and "\<not> isDrained node" and "undrainNeeded node = Ok False" and "currentState node \<noteq> NodeCurrentStateUndraining"
    and "yields h P (bind (switchState E r node kube) (\<lambda>(early, x, k).
           case early of Some res \<Rightarrow> ret res | None \<Rightarrow> work E r x k)) Q"
  shows "yields h P (reconcileNode E r node kube) Q"
proof -
  have "yields h (\<lambda>t. x = node \<and> P t) (bind (switchState E r x kube) (\<lambda>(early, x, k).
      case early of Some res \<Rightarrow> ret res | None \<Rightarrow> work E r x k)) Q" for x
    by (rule yields_given [of _ "x = node"]) (use assms(6) in auto)
  from yields_bind [OF yields_checkRebootRequired [where P = P, OF assms(1) assms(2)] this] show ?thesis
    using assms(3-5) unfolding reconcileNode_def undrain_def by (simp add: bind_of_res bind_ret)
qed

lemma Reconcile_yields:
  assumes "orderly E h st" and "willing E n" and "st n = Some x"
    and "IsZero (DeletionTimestamp x)"
    and "\<And>kube. eGetKubeNode E h n = Inr kube \<Longrightarrow>
           yields h (\<lambda>t. lastNode t = Some x \<and> replay st t = st) (reconcileNode E r x kube) Q"
  shows "\<exists>a. result (Reconcile E r n) h = Ok a \<and> Q a (emitted (Reconcile E r n) h)"
proof -
  obtain k where k: "eGetKubeNode E h n = Inr k" using willing_reads(1) [OF assms(2)] by blast
  let ?t = "[EvGetKubeNode n (Inr k)]"
  obtain y where y: "eGetNode E (h @ ?t) n = Inr y"
    using willing_reads(2) [OF assms(2)] by blast
  moreover from y assms(1,3) have "y = x"
    unfolding orderly_def serves_store_def by (auto dest!: spec [of _ ?t] simp: replay_def)
  moreover have "lastNode (?t @ [EvGetNode n (Inr x)]) = Some x \<and> replay st (?t @ [EvGetNode n (Inr x)]) = st"
    by (simp add: latest_def replay_def)
  ultimately obtain a where "result (reconcileNode E r x k) (h @ ?t @ [EvGetNode n (Inr x)]) = Ok a"
    "Q a ((?t @ [EvGetNode n (Inr x)]) @ emitted (reconcileNode E r x k) (h @ ?t @ [EvGetNode n (Inr x)]))"
    using assms(5) [OF k] unfolding yields_def by blast
  with k y assms(4) \<open>y = x\<close> show ?thesis
    by (simp add: Reconcile_def getKubeNode_def getNode_def result_bind emitted_bind result_attempt emitted_attempt
        result_call emitted_call)
qed

text \<open>A node that is to be drained, between two reconciliations.\<close>

definition draining :: "env \<Rightarrow> NodeCurrentState \<Rightarrow> Node \<Rightarrow> bool" where
  "draining E c x \<longleftrightarrow> specState x = NodeStateDrained \<and> \<not> isDrained x \<and> currentState x = c \<and> recentlyChecked E x \<and> IsZero (DeletionTimestamp x)"

lemma draining_next:
  assumes "draining E c node" and "Spec x = Spec node" and "DeletionTimestamp x = DeletionTimestamp node" and "Status x = (Status node)\<lparr>CurrentState := c'\<rparr>"
  shows "draining E c' x"
  using assms by (simp add: draining_def recentlyChecked_def)

lemma draining_run:
  assumes "draining E c node" and "c \<in> {NodeCurrentStateOk, NodeCurrentStateQueued, NodeCurrentStateNext}"
  shows "\<not> isDrained node" "undrainNeeded node = Ok False" "currentState node \<noteq> NodeCurrentStateUndraining"
    "switchState E r node kube = (if c = NodeCurrentStateOk
       then bind (setCurrentState E node NodeCurrentStateQueued) (\<lambda>node. ret (Some \<lparr>RequeueAfter = 1 * Second\<rparr>, node, kube))
       else ret (None, node, kube))"
  using assms by (auto simp: draining_def undrainNeeded_def switchState_def current_defs requested_defs WorkState_def)

lemma queued_neq_ok: "NodeCurrentStateQueued \<noteq> NodeCurrentStateOk" "NodeCurrentStateNext \<noteq> NodeCurrentStateOk"
  by (simp_all add: current_defs)

lemma yields_enqueue:
  assumes "willing E n" and "keepsNames E" and "echoes E" and "draining E NodeCurrentStateOk node"
  shows "yields h (\<lambda>t. lastNode t = Some node \<and> replay st t = st) (reconcileNode E r node kube)
    (\<lambda>_ t. \<exists>x. draining E NodeCurrentStateQueued x \<and> holds x t)"
proof (rule yields_reconcileNode)
  note run = draining_run [OF assms(4)]
  show "\<not> isDrained node" "undrainNeeded node = Ok False" "currentState node \<noteq> NodeCurrentStateUndraining"
    using run by simp_all
  have "yields h (holds node) (setCurrentState E node NodeCurrentStateQueued)
      (\<lambda>x t. draining E NodeCurrentStateQueued x \<and> holds x t)"
    by (rule yields_post [OF yields_setCurrentState [OF assms(1-3)]]) (auto intro: draining_next [OF assms(4)])
  then have "yields h (holds node) (bind (setCurrentState E node NodeCurrentStateQueued) (\<lambda>_. ret res))
      (\<lambda>_ t. \<exists>x. draining E NodeCurrentStateQueued x \<and> holds x t)" for res :: Result
    by (rule yields_bind) (auto intro: yields_ret)
  then have "yields h (\<lambda>t. lastNode t = Some node \<and> replay st t = st)
      (bind (setCurrentState E node NodeCurrentStateQueued) (\<lambda>_. ret res))
      (\<lambda>_ t. \<exists>x. draining E NodeCurrentStateQueued x \<and> holds x t)" for res :: Result
    by (rule yields_pre) simp
  then show "yields h (\<lambda>t. lastNode t = Some node \<and> replay st t = st) (bind (switchState E r node kube)
      (\<lambda>(early, x, k). case early of Some res \<Rightarrow> ret res | None \<Rightarrow> work E r x k))
      (\<lambda>_ t. \<exists>x. draining E NodeCurrentStateQueued x \<and> holds x t)"
    by (simp add: run bind_assoc bind_ret)
qed (use assms(4) in \<open>auto simp: draining_def replay_def\<close>)

lemma yields_pick:
  assumes "willing E n" and "orderly E h st" and "draining E NodeCurrentStateQueued node"
    and "\<forall>x \<in> ran st. \<not> WorkState (currentState x)"
  shows "yields h (\<lambda>t. lastNode t = Some node \<and> replay st t = st) (reconcileNode E r node kube)
    (\<lambda>_ t. \<exists>x. draining E NodeCurrentStateNext x \<and> holds x t)"
proof (rule yields_reconcileNode)
  note run = draining_run [OF assms(3)]
  let ?P = "\<lambda>t. lastNode t = Some node \<and> replay st t = st"
  show "\<not> isDrained node" "undrainNeeded node = Ok False" "currentState node \<noteq> NodeCurrentStateUndraining"
    using run by simp_all
  from assms(2) have laws: "keepsNames E" "echoes E" "serves_store E h st" by (simp_all add: orderly_def)
  have list: "yields h ?P (listNodes E) (\<lambda>l t. \<not> someWorks l \<and> holds node t)"
    unfolding yields_def listNodes_def result_call emitted_call
  proof (intro allI impI)
    fix t assume t: "?P t"
    obtain l where l: "eListNodes E (h @ t) = Inr l" using willing_reads(3) [OF assms(1)] by blast
    with laws(3) t have "set l = ran st" by (auto simp: serves_store_def)
    with l t assms(4) show "\<exists>a. res_of (eListNodes E (h @ t)) = Ok a \<and> \<not> someWorks a \<and>
        holds node (t @ [EvListNodes (eListNodes E (h @ t))])" by (simp add: someWorks_iff)
  qed
  have set: "yields h (holds node) (setCurrentState E node NodeCurrentStateNext) (\<lambda>x t. draining E NodeCurrentStateNext x \<and> holds x t)"
    by (rule yields_post [OF yields_setCurrentState [OF assms(1) laws(1,2)]]) (auto intro: draining_next [OF assms(3)])
  have picked: "yields h (\<lambda>t. \<not> someWorks l \<and> holds node t) (if someWorks l then ret (False, node)
      else if currentState node = NodeCurrentStateQueued
      then bind (setCurrentState E node NodeCurrentStateNext) (\<lambda>node. ret (True, node)) else ret (False, node))
      (\<lambda>(_, x) t. draining E NodeCurrentStateNext x \<and> holds x t)" for l
    by (rule yields_given [of _ "\<not> someWorks l"])
      (use assms(3) in \<open>auto simp: draining_def [of E NodeCurrentStateQueued] intro!: yields_bind [OF set] yields_ret\<close>)
  have "yields h ?P (isNextNode E node) (\<lambda>(_, x) t. draining E NodeCurrentStateNext x \<and> holds x t)"
    unfolding isNextNode_def by (rule yields_bind [OF list picked])
  then have "yields h ?P (work E r node kube) (\<lambda>_ t. \<exists>x. draining E NodeCurrentStateNext x \<and> holds x t)"
    using assms(3) unfolding work_def by (auto simp: draining_def intro!: yields_bind yields_ret split: prod.split)
  then show "yields h ?P (bind (switchState E r node kube)
      (\<lambda>(early, x, k). case early of Some res \<Rightarrow> ret res | None \<Rightarrow> work E r x k))
      (\<lambda>_ t. \<exists>x. draining E NodeCurrentStateNext x \<and> holds x t)"
    by (simp add: run bind_ret queued_neq_ok)
qed (use assms(3) in \<open>auto simp: draining_def replay_def\<close>)

definition drainOver :: "Result option \<times> Node \<times> KubeNode \<Rightarrow> history \<Rightarrow> bool" where
  "drainOver = (\<lambda>(early, x, k) t. early = None \<and> specState x = NodeStateDrained \<and>
     currentState x = NodeCurrentStateDrained \<and> isDrained x \<and> holds x t)"

lemma yields_drain:
  assumes "willing E n" and "keepsNames E" and "echoes E" and "draining E NodeCurrentStateNext node"
    and "Name node = n" and "n \<noteq> ''''" and "nodeName r \<noteq> n"
  shows "yields h (holds node) (drain E r node kube) drainOver"
proof -
  have cordoned: "yields h (holds x) (bind (drainCordoned E r x) (\<lambda>x. ret (None, x, k))) drainOver"
    if "Name x = Name node" "Spec x = Spec node" for x k
    by (intro yields_bind [OF yields_drainCordoned [OF assms(1-3)]] yields_ret)
      (use assms(4-6) that in \<open>auto simp: draining_def drainOver_def\<close>)
  have cordon: "yields h (holds x) (if \<not> kUnschedulable kube then setUnschedulable E kube True else ret kube) (\<lambda>_. holds x)" for x
    by (auto intro: yields_setUnschedulable [OF assms(1)] yields_ret)
  have "yields h (become node X x) (bind (if \<not> kUnschedulable kube then setUnschedulable E kube True else ret kube)
      (\<lambda>k. if nodeName r = Name x then m x k else bind (drainCordoned E r x) (\<lambda>x. ret (None, x, k)))) drainOver" for x m X
    by (intro yields_become yields_bind [OF cordon]) (use assms(5,7) cordoned in auto)
  then have "yields h (holds node) (bind (drainChecks E r node) (\<lambda>x.
      bind (if \<not> kUnschedulable kube then setUnschedulable E kube True else ret kube)
      (\<lambda>k. if nodeName r = Name x then m x k else bind (drainCordoned E r x) (\<lambda>x. ret (None, x, k))))) drainOver" for m
    by (rule yields_bind [OF yields_drainChecks [OF assms(1-3)]])
  then show ?thesis
    using assms(4) unfolding drain_def by (simp add: draining_def)
qed

lemma yields_work:
  assumes "willing E n" and "orderly E h st" and "draining E NodeCurrentStateNext node"
    and "Name node = n" and "n \<noteq> ''''" and "nodeName r \<noteq> n"
  shows "yields h (\<lambda>t. lastNode t = Some node \<and> replay st t = st) (reconcileNode E r node kube)
    (\<lambda>_ t. \<exists>x. currentState x = NodeCurrentStateDrained \<and> isDrained x \<and> holds x t)"
proof (rule yields_reconcileNode)
  note run = draining_run [OF assms(3)]
  let ?Q = "\<lambda>_ t. \<exists>x. currentState x = NodeCurrentStateDrained \<and> isDrained x \<and> holds x t"
  show "\<not> isDrained node" "undrainNeeded node = Ok False" "currentState node \<noteq> NodeCurrentStateUndraining"
    using run by simp_all
  from assms(2) have laws: "keepsNames E" "echoes E" by (simp_all add: orderly_def)
  have rest: "yields h (drainOver p) (case p of (early, x, k) \<Rightarrow> (case early of Some res \<Rightarrow> ret res | None \<Rightarrow> reboot E r x k)) ?Q" for p
  proof (cases p)
    case (fields early x k)
    have "yields h (drainOver (None, x, k)) (reboot E r x k) ?Q"
      by (rule yields_given [of _ "specState x = NodeStateDrained"]) (auto simp: drainOver_def reboot_def intro!: yields_ret)
    with fields show ?thesis by (cases early) (auto simp: drainOver_def yields_def)
  qed
  have "yields h (holds node) (work E r node kube) ?Q"
    using yields_bind [OF yields_drain [OF assms(1) laws assms(3-6)] rest] assms(3)
    by (simp add: work_def draining_def rebootStillRequired_def bind_ret)
  then have "yields h (\<lambda>t. lastNode t = Some node \<and> replay st t = st) (work E r node kube) ?Q" by (rule yields_pre) simp
  then show "yields h (\<lambda>t. lastNode t = Some node \<and> replay st t = st) (bind (switchState E r node kube)
      (\<lambda>(early, x, k). case early of Some res \<Rightarrow> ret res | None \<Rightarrow> work E r x k)) ?Q"
    by (simp add: run bind_ret queued_neq_ok)
qed (use assms(3) in \<open>auto simp: draining_def replay_def\<close>)

section \<open>A drain comes to its end\<close>

lemma replay_append: "replay st (s @ t) = replay (replay st s) t"
  by (simp add: replay_def)

lemma orderly_after: "orderly E h st \<Longrightarrow> orderly E (h @ t) (replay st t)"
  unfolding orderly_def serves_store_def append_assoc replay_append [symmetric] by blast

fun rounds :: "env \<Rightarrow> nodeReconciler \<Rightarrow> string \<Rightarrow> nat \<Rightarrow> history \<Rightarrow> history" where
  "rounds E r n 0 h = []"
| "rounds E r n (Suc k) h =
     (let t = emitted (Reconcile E r n) h in t @ rounds E r n k (h @ t))"

text \<open>The cluster between two reconciliations, with what is known of the object of \<open>n\<close>.\<close>

definition standing :: "env \<Rightarrow> string \<Rightarrow> (Node \<Rightarrow> bool) \<Rightarrow> history \<Rightarrow> store \<Rightarrow> bool" where
  "standing E n X h st \<longleftrightarrow> orderly E h st \<and> tidy st \<and> oneBusy st \<and> (\<exists>x. st n = Some x \<and> X x) \<and>
     (\<forall>m x. m \<noteq> n \<longrightarrow> st m = Some x \<longrightarrow> \<not> WorkState (currentState x))"

lemma round:
  assumes "standing E n X h st" and "willing E n" and "\<And>x y. sameNode x y \<Longrightarrow> Y x \<Longrightarrow> Y y"
    and "\<And>x. X x \<Longrightarrow> IsZero (DeletionTimestamp x)"
    and "\<And>x kube. X x \<Longrightarrow> st n = Some x \<Longrightarrow> eGetKubeNode E h n = Inr kube \<Longrightarrow>
           yields h (\<lambda>t. lastNode t = Some x \<and> replay st t = st) (reconcileNode E r x kube) (\<lambda>_ t. \<exists>y. Y y \<and> holds y t)"
  shows "standing E n Y (h @ emitted (Reconcile E r n) h) (replay st (emitted (Reconcile E r n) h))"
proof -
  let ?t = "emitted (Reconcile E r n) h"
  from assms(1) obtain x where x: "st n = Some x" "X x" and laws: "orderly E h st" "tidy st" "oneBusy st"
    by (auto simp: standing_def)
  obtain y where "Y y" "lastNode ?t = Some y"
    using Reconcile_yields [OF laws(1) assms(2) x(1) assms(4) [OF x(2)] assms(5) [OF x(2,1)]] by blast
  moreover from orderly_held [OF laws(1), of r n ?t "[]"] this(2)
  obtain z where "replay st ?t n = Some z" "sameNode y z" by auto
  moreover note reconcile_good(1,2) [OF laws refl, of r n] reconcile_good(3) [OF laws refl, of _ n r]
  ultimately show ?thesis
    using assms(1,3) orderly_after [OF laws(1)] unfolding standing_def by metis
qed

lemma draining_same: "sameNode x y \<Longrightarrow> draining E c x \<Longrightarrow> draining E c y"
  by (simp add: draining_def recentlyChecked_def sameNode_def)

lemma draining_undeleted: "draining E c x \<Longrightarrow> IsZero (DeletionTimestamp x)"
  by (simp add: draining_def)

lemma standing_idle:
  assumes "standing E n (draining E NodeCurrentStateQueued) h st"
  shows "\<forall>x \<in> ran st. \<not> WorkState (currentState x)"
proof
  fix x assume "x \<in> ran st"
  then obtain m where m: "st m = Some x" by (auto simp: ran_def)
  with assms show "\<not> WorkState (currentState x)" by (cases "m = n") (auto simp: standing_def draining_def)
qed

lemma draining_rounds:
  assumes "willing E n"
  shows "standing E n (draining E NodeCurrentStateOk) h st \<Longrightarrow> standing E n (draining E NodeCurrentStateQueued)
      (h @ emitted (Reconcile E r n) h) (replay st (emitted (Reconcile E r n) h))"
    and "standing E n (draining E NodeCurrentStateQueued) h st \<Longrightarrow> standing E n (draining E NodeCurrentStateNext)
      (h @ emitted (Reconcile E r n) h) (replay st (emitted (Reconcile E r n) h))"
    and "standing E n (draining E NodeCurrentStateNext) h st \<Longrightarrow> n \<noteq> '''' \<Longrightarrow> nodeName r \<noteq> n \<Longrightarrow>
      standing E n (\<lambda>x. currentState x = NodeCurrentStateDrained \<and> isDrained x)
      (h @ emitted (Reconcile E r n) h) (replay st (emitted (Reconcile E r n) h))"
proof -
  assume s: "standing E n (draining E NodeCurrentStateOk) h st"
  then have "keepsNames E" "echoes E" by (simp_all add: standing_def orderly_def)
  from s show "standing E n (draining E NodeCurrentStateQueued)
      (h @ emitted (Reconcile E r n) h) (replay st (emitted (Reconcile E r n) h))"
    by (rule round [OF _ assms])
      (auto intro: draining_same draining_undeleted yields_enqueue [OF assms \<open>keepsNames E\<close> \<open>echoes E\<close>])
next
  assume s: "standing E n (draining E NodeCurrentStateQueued) h st"
  then have "orderly E h st" by (simp add: standing_def)
  from s show "standing E n (draining E NodeCurrentStateNext)
      (h @ emitted (Reconcile E r n) h) (replay st (emitted (Reconcile E r n) h))"
    by (rule round [OF _ assms])
      (auto intro: draining_same draining_undeleted yields_pick [OF assms \<open>orderly E h st\<close> _ standing_idle [OF s]])
next
  assume s: "standing E n (draining E NodeCurrentStateNext) h st" and n: "n \<noteq> ''''" "nodeName r \<noteq> n"
  then have "orderly E h st" "tidy st" by (simp_all add: standing_def)
  from s show "standing E n (\<lambda>x. currentState x = NodeCurrentStateDrained \<and> isDrained x)
      (h @ emitted (Reconcile E r n) h) (replay st (emitted (Reconcile E r n) h))"
  proof (rule round [OF _ assms])
    fix x kube assume "draining E NodeCurrentStateNext x" "st n = Some x"
    with yields_work [OF assms \<open>orderly E h st\<close> this(1) _ n] \<open>tidy st\<close>
    show "yields h (\<lambda>t. lastNode t = Some x \<and> replay st t = st) (reconcileNode E r x kube)
        (\<lambda>_ t. \<exists>y. (currentState y = NodeCurrentStateDrained \<and> isDrained y) \<and> holds y t)"
      by (simp add: tidy_def)
  qed (auto simp: sameNode_def intro: draining_undeleted)
qed

text \<open>C8. A drain comes to its end. In an environment where no call fails, every plugin consents, reads are fresh
  and nobody else writes the object, an object in state OK whose drain is requested is drained after three
  reconciliations, when no other
  node is being worked on, the check for a required reboot is not due, and the controller runs on
  another node: it is queued, picked, checked, cordoned, evicted, and recorded as drained.\<close>

theorem drain_completes:
  assumes "standing E n (draining E NodeCurrentStateOk) h st" and "willing E n" and "n \<noteq> ''''" and "nodeName r \<noteq> n"
  shows "\<exists>y. replay st (rounds E r n 3 h) n = Some y \<and> currentState y = NodeCurrentStateDrained \<and> isDrained y"
proof -
  note steps = draining_rounds [OF assms(2)]
  from steps(3) [OF steps(2) [OF steps(1) [OF assms(1)]] assms(3,4)] show ?thesis
    by (simp add: standing_def numeral_3_eq_3 Let_def replay_append)
qed

text \<open>The environment that answers from its store is willing.\<close>

lemma replay_keeps:
  "\<forall>m x. st m = Some x \<longrightarrow> Name x = m \<Longrightarrow> (\<forall>m x. replay st t m = Some x \<longrightarrow> Name x = m) \<and> dom st \<subseteq> dom (replay st t)"
proof (induction t rule: rev_induct)
  case (snoc e t)
  then show ?case by (cases e rule: event_effects) (auto split: if_splits)
qed simp

lemma storeEnv_willing:
  assumes "x0 \<in> set l"
  shows "willing (storeEnv l) (Name x0)"
proof -
  let ?st = "map_of (map (\<lambda>x. (Name x, x)) l)"
  have named: "\<forall>m x. ?st m = Some x \<longrightarrow> Name x = m" by (auto dest: map_of_SomeD)
  have "Name x0 \<in> dom ?st" using assms by (auto simp: dom_map_of_conv_image_fst image_image)
  then have "\<exists>x. replay ?st h (Name x0) = Some x \<and> Name x = Name x0" for h
    using replay_keeps [OF named, of h] by blast
  then have "\<exists>x. eGetNode (storeEnv l) h (Name x0) = Inr x" for h
    by (fastforce simp: storeEnv_def Let_def split: option.split)
  then have "answers (\<lambda>h. eGetNode (storeEnv l) h (Name x0)) (\<lambda>_. True)"
    by (simp add: answers_def)
  moreover have "answers (eListKubeNodes (storeEnv l)) allReady"
    by (simp add: answers_def storeEnv_def sampleEnv_def Let_def) code_simp
  ultimately show ?thesis unfolding willing_def
    by (auto simp: answers_def storeEnv_def sampleEnv_def Let_def proto_simps)
qed

theorem drain_completes_witness:
  "\<exists>y. replay (map_of [(''n1'', nodeIn ''Drained'' ''OK'' False)])
     (rounds (storeEnv [nodeIn ''Drained'' ''OK'' False]) sampleReconciler ''n1'' 3 []) ''n1'' = Some y \<and>
     currentState y = ''Drained'' \<and> isDrained y"
proof -
  let ?x = "nodeIn ''Drained'' ''OK'' False" and ?E = "storeEnv [nodeIn ''Drained'' ''OK'' False]"
  have x: "Name ?x = ''n1''" "specState ?x = NodeStateDrained" "\<not> isDrained ?x" "currentState ?x = NodeCurrentStateOk"
    "calm ?x" "IsZero (DeletionTimestamp ?x)" "RebootRequiredLastChecked (Status ?x) = Some (1000 * Hour)"
    by code_simp+
  have "recentlyChecked ?E ?x"
    by (simp add: recentlyChecked_def x storeEnv_def sampleEnv_def sampleKoanf_def rebootCheckInterval_def Let_def duration_defs)
  then have "standing ?E ''n1'' (draining ?E NodeCurrentStateOk) [] (map_of [(''n1'', ?x)])"
    using storeEnv_orderly [of "[?x]"] x by (auto simp: standing_def draining_def tidy_def oneBusy_def split: if_splits)
  moreover have "willing ?E ''n1''" using storeEnv_willing [of ?x "[?x]"] x(1) by simp
  moreover have "nodeName sampleReconciler \<noteq> ''n1''" by (simp add: sampleReconciler_def)
  ultimately show ?thesis
    using drain_completes [of ?E "''n1''" "[]" "map_of [(''n1'', ?x)]" sampleReconciler]
    unfolding NodeCurrentStateDrained_def by blast
qed

section \<open>An undrain comes to its end\<close>

definition undraining :: "env \<Rightarrow> (NodeCurrentState \<Rightarrow> bool) \<Rightarrow> Node \<Rightarrow> bool" where
  "undraining E C x \<longleftrightarrow> specState x = NodeStateActive \<and> C (currentState x) \<and> recentlyChecked E x \<and>
     IsZero (DeletionTimestamp x) \<and> Name x \<noteq> ''''"

lemma yields_begin_undrain:
  assumes "willing E n" and "keepsNames E" and "echoes E" and "undraining E disrupting node"
  shows "yields h (holds node) (reconcileNode E r node kube)
    (\<lambda>_ t. \<exists>x. undraining E (\<lambda>c. c = NodeCurrentStateUndraining) x \<and> holds x t)"
proof -
  have "undrain E r node kube = bind (setCurrentState E node NodeCurrentStateUndraining) (\<lambda>node.
      ret (False, \<lparr>RequeueAfter = 1\<rparr>, node, kube))"
    using assms(4) by (auto simp: undrain_def undraining_def disrupting_def undrainNeeded_def bind_of_res)
  then have "reconcileNode E r node kube = bind (setCurrentState E node NodeCurrentStateUndraining) (\<lambda>_. ret \<lparr>RequeueAfter = 1\<rparr>)"
    by (simp add: reconcileNode_def bind_assoc bind_ret)
  moreover have "undraining E (\<lambda>c. c = NodeCurrentStateUndraining) x"
    if "become node (\<lambda>x. Status x = (Status node)\<lparr>CurrentState := NodeCurrentStateUndraining\<rparr>) x t" for x t
    using that assms(4) by (simp add: undraining_def recentlyChecked_def)
  ultimately show ?thesis
    by (auto intro!: yields_bind [OF yields_setCurrentState [OF assms(1-3)]] yields_ret)
qed

lemma yields_undrainUncordon:
  assumes "willing E n"
  shows "yields h (holds node) (undrainUncordon E kube) (\<lambda>k t. k \<noteq> None \<and> holds node t)"
proof -
  have "yields h (holds node) (IsClusterNodesHealthy E) (\<lambda>a t. a \<and> holds node t)"
  proof (rule yields_plugins [where X = "\<lambda>a. a", OF only_IsClusterNodesHealthy])
    fix h
    obtain ks where "eListKubeNodes E h = Inr ks" "allReady ks" using willing_calls(6) [OF assms] by blast
    then show "\<exists>a. result (IsClusterNodesHealthy E) h = Ok a \<and> a"
      by (intro exI [of _ True]) (simp add: run_IsClusterNodesHealthy)
  qed
  moreover have "yields h (\<lambda>t. b \<and> holds node t) (if \<not> b then ret None
      else attempt (setUnschedulable E kube False) (\<lambda>_. ret None) (\<lambda>k. ret (Some k))) (\<lambda>k t. k \<noteq> None \<and> holds node t)" for b
    by (rule yields_given [of _ b]) (auto intro!: yields_attempt [OF yields_setUnschedulable [OF assms]] yields_ret)
  ultimately show ?thesis unfolding undrainUncordon_def by (auto intro: yields_attempt yields_ret)
qed

lemma yields_setDrained:
  assumes "willing E n" and "keepsNames E" and "echoes E"
  shows "yields h (holds node) (setDrained E node b) (become node (\<lambda>x. Status x = (Status node)\<lparr>Drained := b\<rparr>))"
  unfolding setDrained_def by (rule yields_wrapf, rule yields_post [OF yields_patchStatus [OF assms]]) simp

definition undrainOver :: "env \<Rightarrow> bool \<times> Result \<times> Node \<times> KubeNode \<Rightarrow> history \<Rightarrow> bool" where
  "undrainOver E = (\<lambda>(goOn, _, x, _) t. goOn \<and> undraining E (\<lambda>c. c = NodeCurrentStateOk) x \<and> \<not> isDrained x \<and> holds x t)"

lemma yields_undrainFinish:
  assumes "willing E n" and "keepsNames E" and "echoes E" and "undraining E (\<lambda>c. c = NodeCurrentStateUndraining) node"
  shows "yields h (holds node) (undrainFinish E r node kube) (undrainOver E)"
proof -
  let ?cleared = "become node (\<lambda>x. Status x = (Status node)\<lparr>Drained := False\<rparr>)"
  have post: "yields h (holds node) (RunPostDrain E (drainManager r) node) (\<lambda>_. holds node)"
    using yields_plugins [OF only_drain_manager(4), where X = "\<lambda>_. True"] drain_manager_willing(4) [OF assms(1)] by simp
  have clear: "yields h (holds node) (if isDrained node then setDrained E node False else ret node) ?cleared"
    by (auto intro: yields_setDrained [OF assms(1-3)] yields_ret)
  have last: "yields h (?cleared x) (bind (setCurrentState E x NodeCurrentStateOk) (\<lambda>x.
      bind (eventf (Name x) ty a b) (\<lambda>_. ret (True, emptyResult, x, k)))) (undrainOver E)" for x ty a b k
    by (intro yields_become yields_bind [OF yields_setCurrentState [OF assms(1-3)]] yields_bind [OF yields_eventf] yields_ret)
      (use assms(4) in \<open>simp add: undrainOver_def undraining_def recentlyChecked_def\<close>)
  have "yields h (\<lambda>t. u \<noteq> None \<and> holds node t) (case u of None \<Rightarrow> m | Some k \<Rightarrow>
      attempt (RunPostDrain E (drainManager r) node) (hdl k) (\<lambda>_.
        attempt (if isDrained node then setDrained E node False else ret node) (hdl' k) (\<lambda>x.
          bind (setCurrentState E x NodeCurrentStateOk) (\<lambda>x.
          bind (eventf (Name x) ty a b) (\<lambda>_. ret (True, emptyResult, x, k)))))) (undrainOver E)" for u m hdl hdl' ty a b
  proof (cases u)
    case (Some k)
    have "yields h (holds node) (attempt (RunPostDrain E (drainManager r) node) (hdl k) (\<lambda>_.
        attempt (if isDrained node then setDrained E node False else ret node) (hdl' k) (\<lambda>x.
          bind (setCurrentState E x NodeCurrentStateOk) (\<lambda>x.
          bind (eventf (Name x) ty a b) (\<lambda>_. ret (True, emptyResult, x, k)))))) (undrainOver E)"
      by (intro yields_attempt [OF post] yields_attempt [OF clear] last)
    with Some show ?thesis by simp
  qed (simp add: yields_def)
  then show ?thesis unfolding undrainFinish_def by (intro yields_bind [OF yields_undrainUncordon [OF assms(1)]])
qed

text \<open>What is left of the reconciliation changes nothing of the object.\<close>

lemma yields_active:
  assumes "willing E n" and "keepsNames E" and "echoes E" and "undraining E (\<lambda>c. c = NodeCurrentStateOk) node"
  shows "yields h (holds node) (switchState E r node kube) (\<lambda>(_, x, _) t. x = node \<and> holds node t)"
proof -
  have same: "setCurrentState E node NodeCurrentStateOk = ret node"
    using assms(4) by (simp add: undraining_def setCurrentState_def)
  have clean: "yields h (holds node) (attempt (CleanupNode E (rebootManager r) (Name node)) (\<lambda>_. ret (None :: Result option, node, k))
      (\<lambda>_. ret (None, node, k))) (\<lambda>(_, x, _) t. x = node \<and> holds node t)" for k
    by (rule yields_attempt [OF yields_CleanupNode [OF assms(1)] yields_ret])
      (use assms(4) in \<open>simp_all add: undraining_def\<close>)
  have own: "yields h (holds node) (bind (setUnschedulable E kube False) (\<lambda>k. bind (setCurrentState E node NodeCurrentStateOk)
      (\<lambda>x. attempt (CleanupNode E (rebootManager r) (Name x)) (\<lambda>_. ret (None :: Result option, x, k)) (\<lambda>_. ret (None, x, k)))))
      (\<lambda>(_, x, _) t. x = node \<and> holds node t)"
    unfolding same bind_ret by (rule yields_bind [OF yields_setUnschedulable [OF assms(1)] clean])
  have foreign: "yields h (holds node) (bind (eventf m ty a b) (\<lambda>_. ret (Some emptyResult, node, kube)))
      (\<lambda>(_, x, _) t. x = node \<and> holds node t)" for m ty a b
    by (rule yields_bind [OF yields_eventf yields_ret]) simp
  show ?thesis
    using assms(4) own foreign unfolding switchState_def Let_def by (simp add: undraining_def)
qed

lemma work_idle: "currentState x = NodeCurrentStateOk \<Longrightarrow> work E r x k = ret emptyResult"
  using queued_neq_ok(1) by (auto simp: work_def)

lemma yields_undrain:
  assumes "willing E n" and "keepsNames E" and "echoes E" and "undraining E (\<lambda>c. c = NodeCurrentStateUndraining) node"
  shows "yields h (holds node) (reconcileNode E r node kube)
    (\<lambda>_ t. \<exists>x. (undraining E (\<lambda>c. c = NodeCurrentStateOk) x \<and> \<not> isDrained x) \<and> holds x t)"
proof -
  let ?Q = "\<lambda>_ t. \<exists>x. (undraining E (\<lambda>c. c = NodeCurrentStateOk) x \<and> \<not> isDrained x) \<and> holds x t"
  have switched: "yields h (holds x) (bind (switchState E r x k) (\<lambda>(early, x, k).
      case early of Some res \<Rightarrow> ret res | None \<Rightarrow> work E r x k)) ?Q"
    if "undraining E (\<lambda>c. c = NodeCurrentStateOk) x" "\<not> isDrained x" for x k
  proof -
    have "yields h (\<lambda>t. y = x \<and> holds x t) (case early of Some res \<Rightarrow> ret res | None \<Rightarrow> work E r y k') ?Q" for early y k'
      by (rule yields_given [of _ "y = x"]) (use that(1,2) work_idle in \<open>auto simp: yields_def undraining_def split: option.split\<close>)
    then show ?thesis
      by (intro yields_bind [OF yields_active [OF assms(1-3) that(1)]]) (auto split: prod.split)
  qed
  have rest: "yields h (undrainOver E p) (case p of (goOn, res, x, k) \<Rightarrow> if \<not> goOn then ret res else
      bind (if \<not> kUnschedulable k \<and> isDrained x then setDrained E x False else ret x) (\<lambda>x.
      bind (checkRebootRequired E r x) (\<lambda>x. bind (switchState E r x k) (\<lambda>(early, x, k).
      case early of Some res \<Rightarrow> ret res | None \<Rightarrow> work E r x k)))) ?Q" for p
  proof (cases p)
    case (fields goOn res x k)
    show ?thesis
    proof (rule yields_given)
      show "goOn \<and> undraining E (\<lambda>c. c = NodeCurrentStateOk) x \<and> \<not> isDrained x" if "undrainOver E p t" for t
        using that fields by (simp add: undrainOver_def)
    next
      assume x: "goOn \<and> undraining E (\<lambda>c. c = NodeCurrentStateOk) x \<and> \<not> isDrained x"
      have chk: "yields h (holds x) (checkRebootRequired E r x) (\<lambda>y t. y = x \<and> holds x t)"
        by (rule yields_checkRebootRequired) (use x in \<open>simp_all add: undraining_def\<close>)
      have "yields h (\<lambda>t. y = x \<and> holds x t) (bind (switchState E r y k) (\<lambda>(early, x, k).
          case early of Some res \<Rightarrow> ret res | None \<Rightarrow> work E r x k)) ?Q" for y
        by (rule yields_given [of _ "y = x"]) (use switched x in auto)
      then have "yields h (holds x) (bind (checkRebootRequired E r x) (\<lambda>x. bind (switchState E r x k) (\<lambda>(early, x, k).
          case early of Some res \<Rightarrow> ret res | None \<Rightarrow> work E r x k))) ?Q"
        by (rule yields_bind [OF chk])
      then have "yields h (undrainOver E p) (bind (checkRebootRequired E r x) (\<lambda>x. bind (switchState E r x k) (\<lambda>(early, x, k).
          case early of Some res \<Rightarrow> ret res | None \<Rightarrow> work E r x k))) ?Q"
        by (rule yields_pre) (simp add: fields undrainOver_def)
      then show ?thesis using x by (simp add: fields bind_ret)
    qed
  qed
  have "undrain E r node kube = undrainFinish E r node kube" using assms(4) by (simp add: undrain_def undraining_def)
  then show ?thesis unfolding reconcileNode_def by (metis yields_bind [OF yields_undrainFinish [OF assms] rest])
qed

lemma undraining_rounds:
  assumes "willing E n"
  shows "standing E n (undraining E disrupting) h st \<Longrightarrow> standing E n (undraining E (\<lambda>c. c = NodeCurrentStateUndraining))
      (h @ emitted (Reconcile E r n) h) (replay st (emitted (Reconcile E r n) h))"
    and "standing E n (undraining E (\<lambda>c. c = NodeCurrentStateUndraining)) h st \<Longrightarrow>
      standing E n (\<lambda>x. undraining E (\<lambda>c. c = NodeCurrentStateOk) x \<and> \<not> isDrained x)
      (h @ emitted (Reconcile E r n) h) (replay st (emitted (Reconcile E r n) h))"
proof -
  have same: "sameNode x y \<Longrightarrow> undraining E C x \<Longrightarrow> undraining E C y" for C x y
    by (simp add: undraining_def recentlyChecked_def sameNode_def)
  have undeleted: "undraining E C x \<Longrightarrow> IsZero (DeletionTimestamp x)" for C x by (simp add: undraining_def)
  {
    assume s: "standing E n (undraining E disrupting) h st"
    then have "keepsNames E" "echoes E" by (simp_all add: standing_def orderly_def)
    from s show "standing E n (undraining E (\<lambda>c. c = NodeCurrentStateUndraining))
        (h @ emitted (Reconcile E r n) h) (replay st (emitted (Reconcile E r n) h))"
      by (rule round [OF _ assms]) (auto intro: same undeleted
          yields_pre [OF yields_begin_undrain [OF assms \<open>keepsNames E\<close> \<open>echoes E\<close>]])
  next
    assume s: "standing E n (undraining E (\<lambda>c. c = NodeCurrentStateUndraining)) h st"
    then have "keepsNames E" "echoes E" by (simp_all add: standing_def orderly_def)
    from s show "standing E n (\<lambda>x. undraining E (\<lambda>c. c = NodeCurrentStateOk) x \<and> \<not> isDrained x)
        (h @ emitted (Reconcile E r n) h) (replay st (emitted (Reconcile E r n) h))"
    proof (rule round [OF _ assms])
      fix x kube assume "undraining E (\<lambda>c. c = NodeCurrentStateUndraining) x"
      from yields_undrain [OF assms \<open>keepsNames E\<close> \<open>echoes E\<close> this]
      show "yields h (\<lambda>t. lastNode t = Some x \<and> replay st t = st) (reconcileNode E r x kube)
          (\<lambda>_ t. \<exists>y. (undraining E (\<lambda>c. c = NodeCurrentStateOk) y \<and> \<not> isDrained y) \<and> holds y t)"
        by (rule yields_pre) simp
    qed (use same undeleted in \<open>auto simp: sameNode_def\<close>)
  }
qed

text \<open>C9. An undrain comes to its end. In an environment where no call fails, every plugin consents, reads are fresh
  and nobody else writes the object, a node in state Draining, Drained or Rebooting whose requested state is Active is back in state OK, and no
  longer recorded as drained, after two reconciliations, when no other node is being worked on and the
  check for a required reboot is not due.\<close>

theorem undrain_completes:
  assumes "standing E n (undraining E disrupting) h st" and "willing E n"
  shows "\<exists>y. replay st (rounds E r n 2 h) n = Some y \<and> currentState y = NodeCurrentStateOk \<and> \<not> isDrained y"
proof -
  note steps = undraining_rounds [OF assms(2), where r = r]
  from steps(2) [OF steps(1) [OF assms(1)]] show ?thesis
    by (fastforce simp: standing_def numeral_2_eq_2 Let_def replay_append undraining_def)
qed

lemma sample_undraining:
  "undraining (storeEnv [nodeIn ''Active'' ''Drained'' True]) disrupting (nodeIn ''Active'' ''Drained'' True)"
proof -
  let ?x = "nodeIn ''Active'' ''Drained'' True"
  have x: "specState ?x = NodeStateActive" "disrupting (currentState ?x)" "IsZero (DeletionTimestamp ?x)" "Name ?x \<noteq> ''''"
    "RebootRequiredLastChecked (Status ?x) = Some (1000 * Hour)" by code_simp+
  then show ?thesis
    by (simp add: undraining_def recentlyChecked_def storeEnv_def sampleEnv_def sampleKoanf_def rebootCheckInterval_def
        Let_def duration_defs)
qed

theorem undrain_completes_witness:
  "\<exists>y. replay (map_of [(''n1'', nodeIn ''Active'' ''Drained'' True)])
     (rounds (storeEnv [nodeIn ''Active'' ''Drained'' True]) sampleReconciler ''n1'' 2 []) ''n1'' = Some y \<and>
     currentState y = ''OK'' \<and> \<not> isDrained y"
proof -
  let ?x = "nodeIn ''Active'' ''Drained'' True" and ?E = "storeEnv [nodeIn ''Active'' ''Drained'' True]"
  have x: "Name ?x = ''n1''" "calm ?x" by code_simp+
  have "standing ?E ''n1'' (undraining ?E disrupting) [] (map_of [(''n1'', ?x)])"
    using storeEnv_orderly [of "[?x]"] x sample_undraining
    by (auto simp: standing_def tidy_def oneBusy_def split: if_splits)
  moreover have "willing ?E ''n1''" using storeEnv_willing [of ?x "[?x]"] x(1) by simp
  ultimately show ?thesis
    using undrain_completes [of ?E "''n1''" "[]" "map_of [(''n1'', ?x)]" sampleReconciler]
    unfolding NodeCurrentStateOk_def by blast
qed

end
