(* ===== verification/Reboot_Progress.thy ===== *)
theory Reboot_Progress
  imports Progress
begin

text \<open>
  Progress of a requested reboot, across the reboot itself: one environment before it and another after it, in
  which the node came back with a new boot id.
\<close>

section \<open>Before and after the reboot\<close>

text \<open>A drained node whose reboot is requested, and known to be required by a check within two minutes.\<close>

definition rebootWanted :: "env \<Rightarrow> Node \<Rightarrow> bool" where
  "rebootWanted E x \<longleftrightarrow> specState x = NodeStateRebootIfRequired \<and> currentState x = NodeCurrentStateDrained \<and> isDrained x \<and>
     RebootRequired (Status x) = Some True \<and>
     (\<exists>c. RebootRequiredLastChecked (Status x) = Some c \<and> c \<noteq> 0 \<and> (\<forall>h. eNow E h - 2 * Minute \<le> c)) \<and>
     IsZero (DeletionTimestamp x) \<and> Name x \<noteq> ''''"

text \<open>The node waits for the end of its reboot, with the old boot id on record.\<close>

definition awaiting :: "string \<Rightarrow> Node \<Rightarrow> bool" where
  "awaiting b x \<longleftrightarrow> specState x = NodeStateRebootIfRequired \<and> currentState x = NodeCurrentStateRebooting \<and> isDrained x \<and>
     BootID (Status x) = b \<and> IsZero (DeletionTimestamp x) \<and> Name x \<noteq> ''''"

definition rebootable :: "env \<Rightarrow> nodeReconciler \<Rightarrow> string \<Rightarrow> string \<Rightarrow> bool" where
  "rebootable E r n b \<longleftrightarrow> willing E n \<and> \<not> cfContainerNode (eConfig E) \<and>
     answers (\<lambda>h. eGetKubeNode E h n) (\<lambda>k. kUnschedulable k \<and> kBootID k = b) \<and>
     answers (\<lambda>h. eGetClusterNode E h n) kUnschedulable \<and>
     (\<exists>p. rebootNodePod E (rebootManager r) n = Ok p) \<and> (\<forall>p. answers (\<lambda>h. eCreatePod E h p) (\<lambda>_. True))"

definition cameBack :: "env \<Rightarrow> string \<Rightarrow> string \<Rightarrow> bool" where
  "cameBack E n b \<longleftrightarrow> willing E n \<and> \<not> cfContainerNode (eConfig E) \<and>
     answers (\<lambda>h. eGetKubeNode E h n)
       (\<lambda>k. kName k = n \<and> kUnschedulable k \<and> kBootID k \<noteq> b \<and> nodeReadyLoop False (kConditions k)) \<and>
     (\<forall>old new. answers (\<lambda>h. ePatchNode E h old new) (\<lambda>x. DeletionTimestamp x = DeletionTimestamp new)) \<and>
     (\<forall>g h. Second \<le> eNow E h \<and> eNow E g - rebootCheckInterval E \<le> eNow E h - Second)"

lemma answersD: "answers f Q \<Longrightarrow> f h = Inr a \<Longrightarrow> Q a"
  unfolding answers_def by (metis sum.inject(2))

lemma yields_now: "yields h (holds node) (now E) (\<lambda>a t. (\<exists>g. a = eNow E g) \<and> holds node t)"
  by (auto simp: yields_def now_def ask_def result_def emitted_def)

text \<open>The pod that reboots the node was created.\<close>

definition rebootPodCreated :: "env \<Rightarrow> nodeReconciler \<Rightarrow> string \<Rightarrow> history \<Rightarrow> bool" where
  "rebootPodCreated E r n t \<longleftrightarrow> (\<exists>p x. rebootNodePod E (rebootManager r) n = Ok p \<and> EvCreatePod p (Inr x) \<in> set t)"

lemma stable_rebootPodCreated: "stable (rebootPodCreated E r n)"
  by (auto simp: stable_def rebootPodCreated_def)

lemma yields_past: "yields h P m Q \<Longrightarrow> stable M \<Longrightarrow> yields h (\<lambda>t. P t \<and> M t) m (\<lambda>a t. Q a t \<and> M t)"
  unfolding yields_def using stableD by blast

section \<open>Starting the reboot\<close>

lemma yields_setBootID:
  assumes "willing E n" and "keepsNames E" and "echoes E"
  shows "yields h (holds node) (setBootID E node kube) (become node (\<lambda>x. Status x = (Status node)\<lparr>BootID := kBootID kube\<rparr>))"
proof -
  let ?new = "node\<lparr>Status := (Status node)\<lparr>BootID := kBootID kube\<rparr>\<rparr>"
  have "yields h (holds node) (patchStatus E node ?new) (become node (\<lambda>x. Status x = (Status node)\<lparr>BootID := kBootID kube\<rparr>))"
    by (rule yields_post [OF yields_patchStatus [OF assms]]) simp
  then show ?thesis unfolding setBootID_def by (auto intro!: yields_wrapf yields_ret)
qed

lemma yields_RebootNode:
  assumes "rebootable E r n b" and "Name x = n"
  shows "yields h (holds node) (RebootNode E (rebootManager r) x) (\<lambda>_ t. holds node t \<and> rebootPodCreated E r n t)"
proof -
  let ?Q = "\<lambda>_ t. holds node t \<and> rebootPodCreated E r n t"
  have get: "yields h (holds node) (GetNode E n) (\<lambda>k t. (\<exists>kube. k = Some kube \<and> kUnschedulable kube) \<and> holds node t)"
    unfolding GetNode_def getClusterNode_def
    by (rule yields_attempt [OF yields_call [where Q = "\<lambda>k t. kUnschedulable k \<and> holds node t"]])
      (use assms(1) in \<open>auto simp: rebootable_def intro!: yields_ret\<close>)
  obtain p where p: "rebootNodePod E (rebootManager r) n = Ok p" using assms(1) by (auto simp: rebootable_def)
  have create: "yields h (holds node) (createPod E p) ?Q"
    unfolding createPod_def
    by (rule yields_call [where A = "\<lambda>_. True"]) (use assms(1) p in \<open>auto simp: rebootable_def rebootPodCreated_def\<close>)
  have "yields h (holds node) (bind (eventf n ty u v) (\<lambda>_. bind (of_res (rebootNodePod E (rebootManager r) n)) (\<lambda>spec.
      attempt (createPod E spec) hdl (\<lambda>_. ret ())))) ?Q" for ty u v hdl
    unfolding p by (intro yields_bind [OF yields_eventf]) (auto simp: bind_of_res intro!: yields_attempt [OF create] yields_ret)
  note reboot = this
  have "yields h (\<lambda>t. (\<exists>kube. k = Some kube \<and> kUnschedulable kube) \<and> holds node t)
      (case k of None \<Rightarrow> m | Some kube \<Rightarrow> if \<not> kUnschedulable kube then m' else if cfContainerNode (eConfig E) then m'' else go)
      ?Q" if "yields h (holds node) go ?Q" for k m m' m'' go
    using that assms(1) by (cases k) (auto simp: yields_def rebootable_def)
  from yields_bind [OF get this [OF reboot]] show ?thesis unfolding RebootNode_def assms(2) .
qed

text \<open>The first round: the boot id is saved, the pod that reboots is created, and the node is Rebooting.\<close>

lemma yields_rebootStillRequired:
  assumes "rebootWanted E node"
  shows "yields h (holds node) (rebootStillRequired E r node) (\<lambda>p t. p = (None, node) \<and> holds node t)"
proof -
  from assms obtain c where c: "RebootRequiredLastChecked (Status node) = Some c" "c \<noteq> 0" "\<And>h. \<not> c < eNow E h - 2 * Minute"
    by (auto simp: rebootWanted_def not_less)
  then have last: "yields h (holds node) (lastCheckedBefore E node (2 * Minute)) (\<lambda>due t. \<not> due \<and> holds node t)"
    by (auto simp: yields_def lastCheckedBefore_def now_def ask_def bind_def ret_def result_def emitted_def)
  have "yields h (\<lambda>t. \<not> due \<and> holds node t) (bind (if due then m else ret (True, node)) (\<lambda>(required, node).
      if \<not> required then m' node else ret (None, node))) (\<lambda>p t. p = (None, node) \<and> holds node t)" for due m m'
    by (cases due) (auto simp: bind_ret yields_def)
  note step = yields_bind [OF last this]
  have "RebootRequired (Status node) = Some True" "specState node = NodeStateRebootIfRequired"
    "currentState node = NodeCurrentStateDrained" using assms by (simp_all add: rebootWanted_def)
  then show ?thesis unfolding rebootStillRequired_def by (simp cong: if_cong) (rule step)
qed

lemma yields_start_reboot:
  assumes "rebootable E r n b" and "keepsNames E" and "echoes E" and "rebootWanted E node" and "Name node = n"
    and "kUnschedulable kube" and "kBootID kube = b"
  shows "yields h (holds node) (reconcileNode E r node kube)
    (\<lambda>_ t. (\<exists>x. awaiting b x \<and> holds x t) \<and> rebootPodCreated E r n t)"
proof -
  let ?Q = "\<lambda>_ t. (\<exists>x. awaiting b x \<and> holds x t) \<and> rebootPodCreated E r n t"
  from assms(1) have will: "willing E n" by (simp add: rebootable_def)
  have "yields h (become node (\<lambda>x. Status x = (Status node)\<lparr>BootID := kBootID kube\<rparr>) x)
      (bind (RebootNode E (rebootManager r) x) (\<lambda>_. bind (setCurrentState E x NodeCurrentStateRebooting) (\<lambda>_. ret res))) ?Q" for x res
    by (intro yields_become yields_bind [OF yields_RebootNode [OF assms(1)]]
        yields_bind [OF yields_past [OF yields_setCurrentState [OF will assms(2,3)] stable_rebootPodCreated]] yields_ret)
      (use assms(4-7) in \<open>auto simp: rebootWanted_def awaiting_def\<close>)
  from yields_bind [OF yields_setBootID [OF will assms(2,3)] this]
  have "yields h (holds node) (reboot E r node kube) ?Q"
    using assms(4) unfolding reboot_def by (simp add: rebootWanted_def)
  then have "yields h (\<lambda>t. p = (None, node) \<and> holds node t) (case p of (early, node) \<Rightarrow>
      case early of Some res \<Rightarrow> ret res | None \<Rightarrow>
        bind (if Drain (specState node) \<and> \<not> isDrained node then drain E r node kube else ret (None, node, kube))
          (\<lambda>(early, node, k). case early of Some res \<Rightarrow> ret res | None \<Rightarrow> reboot E r node k)) ?Q" for p
    using assms(4) by (cases "p = (None, node)") (simp add: bind_ret rebootWanted_def, simp add: yields_def)
  from yields_bind [OF yields_rebootStillRequired [OF assms(4)] this] assms(4,6) show ?thesis
    by (simp add: reconcileNode_def undrain_def undrainNeeded_def bind_of_res bind_ret checkRebootRequired_def rebootWanted_def
        switchState_def work_def)
qed

section \<open>After the reboot\<close>

lemma yields_setState:
  assumes "cameBack E n b" and "keepsNames E" and "echoes E"
  shows "yields h (holds node) (setState E node s) (\<lambda>x t. Name x = Name node \<and> specState x = s \<and> Status x = Status node \<and>
    DeletionTimestamp x = DeletionTimestamp node \<and> holds x t)"
proof -
  let ?new = "node\<lparr>Spec := (Spec node)\<lparr>State := s\<rparr>\<rparr>"
  have "\<exists>x. ePatchNode E h node ?new = Inr x \<and> Name x = Name node \<and> specState x = s \<and> Status x = Status node \<and>
      DeletionTimestamp x = DeletionTimestamp node" for h
  proof -
    from assms(1) obtain x where x: "ePatchNode E h node ?new = Inr x" "DeletionTimestamp x = DeletionTimestamp ?new"
      unfolding cameBack_def answers_def by blast
    with assms(2,3) have "Name x = Name ?new" "Spec x = Spec ?new" "Status x = Status ?new"
      unfolding keepsNames_def echoes_def by blast+
    with x show ?thesis by simp
  qed
  then have "answers (\<lambda>h. ePatchNode E h node ?new) (\<lambda>x. Name x = Name node \<and> specState x = s \<and> Status x = Status node \<and>
      DeletionTimestamp x = DeletionTimestamp node)" by (simp add: answers_def)
  then have "yields h (holds node) (patchNode E node ?new) (\<lambda>x t. Name x = Name node \<and>
      specState x = s \<and> Status x = Status node \<and> DeletionTimestamp x = DeletionTimestamp node \<and> holds x t)"
    unfolding patchNode_def by (rule yields_call) simp
  then show ?thesis unfolding setState_def by (auto intro!: yields_wrapf yields_ret)
qed

text \<open>The second round: the new boot id is seen, the check is recorded as done, and the node is asked to be active.\<close>

lemma yields_IsNodeRebooted:
  assumes "cameBack E n b" and "n \<noteq> ''''"
    and "kName kube = n \<and> kUnschedulable kube \<and> kBootID kube \<noteq> b \<and> nodeReadyLoop False (kConditions kube)"
  shows "yields h (holds node) (IsNodeRebooted E r kube b) (\<lambda>a t. a \<and> holds node t)"
proof -
  have "willing E n" using assms(1) by (simp add: cameBack_def)
  then have "yields h (holds node) (bind (wrapf msg (CleanupNode E r n)) (\<lambda>_. ret True)) (\<lambda>a t. a \<and> holds node t)" for msg
    by (intro yields_bind [OF yields_wrapf [OF yields_CleanupNode [OF _ assms(2)]]] yields_ret) simp_all
  with assms(1,3) show ?thesis by (simp add: IsNodeRebooted_def cameBack_def Let_def)
qed

lemma yields_record_reboot:
  assumes "cameBack E n b" and "keepsNames E" and "echoes E" and "awaiting b node"
  shows "yields h (\<lambda>t. (\<exists>g. a = eNow E g) \<and> holds node t)
    (bind (wrapf msg (patchStatus E node (node\<lparr>Status := (Status node)\<lparr>BootID := '''', RebootRequired := Some False,
       RebootRequiredLastChecked := Some a\<rparr>\<rparr>))) (\<lambda>x.
     bind (setState E x NodeStateActive) (\<lambda>x. bind (eventf (Name x) ty u v) (\<lambda>_. ret res))))
    (\<lambda>_ t. \<exists>x. undraining E disrupting x \<and> holds x t)" (is "yields h ?P ?m ?Q")
proof (rule yields_given [of _ "\<exists>g. a = eNow E g"])
  let ?new = "(Status node)\<lparr>BootID := '''', RebootRequired := Some False, RebootRequiredLastChecked := Some a\<rparr>"
  let ?s = "kept (Status node) ?new"
  from assms(1) have will: "willing E n" and clock: "\<And>g h. Second \<le> eNow E h \<and> eNow E g - rebootCheckInterval E \<le> eNow E h - Second"
    by (simp_all add: cameBack_def)
  assume "\<exists>g. a = eNow E g"
  then have a: "Second \<le> a" "\<And>g. eNow E g - rebootCheckInterval E \<le> a - Second" using clock by auto
  have "a - a mod Second > a - Second" "Second > 0" by (simp_all add: Second_def)
  with a have "a \<noteq> 0" "a - a mod Second \<noteq> 0" "eNow E g - rebootCheckInterval E \<le> a"
    "eNow E g - rebootCheckInterval E \<le> a - a mod Second" for g
    using a(2) [of g] by linarith+
  moreover have "\<exists>c \<in> {a, a - a mod Second}. RebootRequiredLastChecked ?s = Some c" by (auto simp: kept_def)
  ultimately have "recentlyChecked E x" if "Status x = ?s" for x using that by (auto simp: recentlyChecked_def)
  with assms(4) have out: "undraining E disrupting x" if "Name x = Name node" "specState x = NodeStateActive"
    "Status x = ?s" "DeletionTimestamp x = DeletionTimestamp node" for x
    using that by (simp add: undraining_def awaiting_def disrupting_def)
  have rest: "yields h (\<lambda>t. Name y = Name x \<and> specState y = NodeStateActive \<and> Status y = Status x \<and>
      DeletionTimestamp y = DeletionTimestamp x \<and> holds y t) (bind (eventf (Name y) ty u v) (\<lambda>_. ret res)) ?Q"
    if "Name x = Name node" "Status x = ?s" "DeletionTimestamp x = DeletionTimestamp node" for x y
  proof (rule yields_given [of _ "undraining E disrupting y"])
    assume "undraining E disrupting y"
    then have "yields h (holds y) (bind (eventf (Name y) ty u v) (\<lambda>_. ret res)) ?Q"
      by (intro yields_bind [OF yields_eventf] yields_ret) blast
    then show "yields h (\<lambda>t. Name y = Name x \<and> specState y = NodeStateActive \<and> Status y = Status x \<and>
      DeletionTimestamp y = DeletionTimestamp x \<and> holds y t) (bind (eventf (Name y) ty u v) (\<lambda>_. ret res)) ?Q"
      by (rule yields_pre) blast
  qed (use that out in simp)
  show "yields h ?P ?m ?Q"
    by (intro yields_bind [OF yields_wrapf [OF yields_patchStatus [OF will assms(2,3)]]] yields_become
        yields_bind [OF yields_setState [OF assms(1-3)] rest]) simp_all
qed auto

lemma yields_end_reboot:
  assumes "cameBack E n b" and "keepsNames E" and "echoes E" and "awaiting b node" and "Name node = n"
    and "kName kube = n \<and> kUnschedulable kube \<and> kBootID kube \<noteq> b \<and> nodeReadyLoop False (kConditions kube)"
  shows "yields h (holds node) (reconcileNode E r node kube) (\<lambda>_ t. \<exists>x. undraining E disrupting x \<and> holds x t)"
proof -
  let ?Q = "\<lambda>_ t. \<exists>x. undraining E disrupting x \<and> holds x t"
  from assms(4,5) have "n \<noteq> ''''" by (simp add: awaiting_def)
  note seen = yields_IsNodeRebooted [OF assms(1) this assms(6), of h node "rebootManager r"]
  note finish = yields_bind [OF yields_now yields_record_reboot [OF assms(1-4)]]
  have "yields h (\<lambda>t. a \<and> holds node t) (if a then bind (now E) (\<lambda>t. bind (wrapf msg (patchStatus E node
      (node\<lparr>Status := (Status node)\<lparr>BootID := '''', RebootRequired := Some False, RebootRequiredLastChecked := Some t\<rparr>\<rparr>))) (\<lambda>x.
      bind (setState E x NodeStateActive) (\<lambda>x. bind (eventf (Name x) ty u v) (\<lambda>_. ret res)))) else m) ?Q" for a msg ty u v res m
    by (rule yields_given [of _ a]) (auto intro: finish)
  from yields_bind [OF seen this]
  have "yields h (holds node) (reboot E r node kube) ?Q"
    using assms(4) unfolding reboot_def by (simp add: awaiting_def)
  then show ?thesis
    using assms(4,6) by (simp add: reconcileNode_def undrain_def undrainNeeded_def bind_of_res bind_ret checkRebootRequired_def awaiting_def
        switchState_def work_def rebootStillRequired_def)
qed

section \<open>The whole way\<close>

lemma standing_switch:
  assumes "standing E n X h st" and "orderly E' h st"
  shows "standing E' n X h st"
  using assms by (simp add: standing_def)

text \<open>What the first reconciliation does to a standing cluster.\<close>

lemma start_reboot:
  assumes "standing E n (rebootWanted E) h st" and "rebootable E r n b" and "st n = Some x" and "rebootWanted E x"
    and "eGetKubeNode E h n = Inr kube"
  shows "yields h (\<lambda>t. lastNode t = Some x \<and> replay st t = st) (reconcileNode E r x kube)
    (\<lambda>_ t. (\<exists>y. awaiting b y \<and> holds y t) \<and> rebootPodCreated E r n t)"
proof -
  have laws: "keepsNames E" "echoes E" "Name x = n" using assms(1,3) by (auto simp: standing_def orderly_def tidy_def)
  from assms(2) have "answers (\<lambda>h. eGetKubeNode E h n) (\<lambda>k. kUnschedulable k \<and> kBootID k = b)" by (simp add: rebootable_def)
  from answersD [OF this assms(5)] laws show ?thesis
    by (intro yields_pre [OF yields_start_reboot [OF assms(2) laws(1,2) assms(4)]]) simp_all
qed

lemma reboot_started:
  assumes "standing E n (rebootWanted E) h st" and "rebootable E r n b"
  shows "rebootPodCreated E r n (emitted (Reconcile E r n) h)"
proof -
  from assms(1) obtain x where x: "st n = Some x" "rebootWanted E x" and o: "orderly E h st" by (auto simp: standing_def)
  have "willing E n" "IsZero (DeletionTimestamp x)" using assms(2) x(2) by (simp_all add: rebootable_def rebootWanted_def)
  from Reconcile_yields [OF o this(1) x(1) this(2) start_reboot [OF assms x]] show ?thesis by blast
qed

lemma reboot_rounds:
  shows "standing E n (rebootWanted E) h st \<Longrightarrow> rebootable E r n b \<Longrightarrow>
      standing E n (awaiting b) (h @ emitted (Reconcile E r n) h) (replay st (emitted (Reconcile E r n) h))"
    and "standing E n (awaiting b) h st \<Longrightarrow> cameBack E n b \<Longrightarrow>
      standing E n (undraining E disrupting) (h @ emitted (Reconcile E r n) h) (replay st (emitted (Reconcile E r n) h))"
proof -
  assume s: "standing E n (rebootWanted E) h st" and e: "rebootable E r n b"
  then have laws: "willing E n" "keepsNames E" "echoes E" "tidy st" by (simp_all add: standing_def orderly_def rebootable_def)
  from s laws(1) show "standing E n (awaiting b) (h @ emitted (Reconcile E r n) h) (replay st (emitted (Reconcile E r n) h))"
  proof (rule round)
    fix x kube assume x: "rebootWanted E x" "st n = Some x" "eGetKubeNode E h n = Inr kube"
    show "yields h (\<lambda>t. lastNode t = Some x \<and> replay st t = st) (reconcileNode E r x kube) (\<lambda>_ t. \<exists>y. awaiting b y \<and> holds y t)"
      by (rule yields_post [OF start_reboot [OF s e x(2,1,3)]]) simp
  qed (auto simp: sameNode_def awaiting_def rebootWanted_def)
next
  assume s: "standing E n (awaiting b) h st" and e: "cameBack E n b"
  then have laws: "willing E n" "keepsNames E" "echoes E" "tidy st" by (simp_all add: standing_def orderly_def cameBack_def)
  from s laws(1) show "standing E n (undraining E disrupting) (h @ emitted (Reconcile E r n) h) (replay st (emitted (Reconcile E r n) h))"
  proof (rule round)
    fix x kube assume x: "awaiting b x" "st n = Some x" "eGetKubeNode E h n = Inr kube"
    then have "Name x = n" using laws(4) by (simp add: tidy_def)
    moreover have "kName kube = n \<and> kUnschedulable kube \<and> kBootID kube \<noteq> b \<and> nodeReadyLoop False (kConditions kube)"
      by (rule answersD [of "\<lambda>h. eGetKubeNode E h n", OF _ x(3)]) (use e in \<open>simp add: cameBack_def\<close>)
    ultimately show "yields h (\<lambda>t. lastNode t = Some x \<and> replay st t = st) (reconcileNode E r x kube)
        (\<lambda>_ t. \<exists>y. undraining E disrupting y \<and> holds y t)"
      by (intro yields_pre [OF yields_end_reboot [OF e laws(2,3) x(1)]]) simp_all
  qed (auto simp: sameNode_def awaiting_def undraining_def recentlyChecked_def)
qed

text \<open>C10. A reboot comes to its end. Take a drained and cordoned node whose reboot is requested and, by a check of
  the last two minutes, required, on a real machine. One reconciliation saves its boot id, creates the pod that reboots
  the node and records it as Rebooting. Once the node has come back, cordoned, ready and with another boot id, three
  more reconciliations make it active, undrain it and leave it in state OK, not recorded as drained. In both
  environments no call fails, reads are fresh and nobody else writes the object, and no other node is being worked
  on; the clock does not run past the check interval meanwhile.\<close>

theorem reboot_completes:
  assumes "standing E n (rebootWanted E) h st" and "rebootable E r n b" and "t = rounds E r n 1 h"
    and "orderly E' (h @ t) (replay st t)" and "cameBack E' n b"
  shows "\<exists>p pod x y. rebootNodePod E (rebootManager r) n = Ok p \<and> EvCreatePod p (Inr pod) \<in> set t \<and>
    replay st t n = Some x \<and> currentState x = NodeCurrentStateRebooting \<and> BootID (Status x) = b \<and>
    replay st (t @ rounds E' r n 3 (h @ t)) n = Some y \<and> specState y = NodeStateActive \<and>
    currentState y = NodeCurrentStateOk \<and> \<not> isDrained y"
proof -
  have "standing E n (awaiting b) (h @ t) (replay st t)" using reboot_rounds(1) [OF assms(1,2)] assms(3) by simp
  then have wait: "standing E' n (awaiting b) (h @ t) (replay st t)" using assms(4) by (rule standing_switch)
  from assms(5) have "willing E' n" by (simp add: cameBack_def)
  note steps = undraining_rounds [OF this, where r = r]
  from steps(2) [OF steps(1) [OF reboot_rounds(2) [OF wait assms(5), of r]]]
  have "\<exists>y. replay (replay st t) (rounds E' r n 3 (h @ t)) n = Some y \<and> specState y = NodeStateActive \<and>
      currentState y = NodeCurrentStateOk \<and> \<not> isDrained y"
    by (fastforce simp: standing_def undraining_def numeral_3_eq_3 Let_def replay_append)
  moreover from wait have "\<exists>x. replay st t n = Some x \<and> currentState x = NodeCurrentStateRebooting \<and> BootID (Status x) = b"
    by (auto simp: standing_def awaiting_def)
  moreover have "rebootPodCreated E r n t" using reboot_started [OF assms(1,2)] assms(3) by simp
  ultimately show ?thesis unfolding rebootPodCreated_def replay_append by metis
qed

definition rebootNode :: Node where
  "rebootNode = nodeIn ''RebootIfRequired'' ''Drained'' True"

text \<open>The environment that answers from its store, with a given cluster node.\<close>

definition kubeEnv :: "env \<Rightarrow> KubeNode \<Rightarrow> env" where
  "kubeEnv E k = E\<lparr>eGetKubeNode := (\<lambda>h n. Inr (k\<lparr>kName := n\<rparr>)), eGetClusterNode := (\<lambda>h n. Inr (k\<lparr>kName := n\<rparr>))\<rparr>"

lemma poll_kubeEnv [simp]: "poll (kubeEnv E k) = poll E"
  by (simp add: poll_def kubeEnv_def fun_eq_iff)

lemma kubeEnv_orderly: "orderly E h st \<Longrightarrow> orderly (kubeEnv E k) h st"
  unfolding orderly_def polls_only_def poll_kubeEnv
  by (auto simp: kubeEnv_def serves_store_def keepsNames_def echoes_def metaOnly_def)

lemma kubeEnv_willing: "willing E n \<Longrightarrow> willing (kubeEnv E k) n"
  by (simp add: willing_def kubeEnv_def answers_def)

theorem reboot_completes_witness:
  "\<exists>E E' st t x y. E = kubeEnv (storeEnv [rebootNode]) (sampleKube\<lparr>kUnschedulable := True\<rparr>) \<and>
     E' = kubeEnv (storeEnv [rebootNode]) (sampleKube\<lparr>kUnschedulable := True, kBootID := ''boot-2''\<rparr>) \<and>
     st = map_of [(''n1'', rebootNode)] \<and> t = rounds E sampleReconciler ''n1'' 1 [] \<and>
     (\<exists>p pod. EvCreatePod p (Inr pod) \<in> set t) \<and>
     replay st t ''n1'' = Some x \<and> currentState x = ''Rebooting'' \<and> BootID (Status x) = ''boot-1'' \<and>
     replay st (t @ rounds E' sampleReconciler ''n1'' 3 t) ''n1'' = Some y \<and> currentState y = ''OK'' \<and> \<not> isDrained y"
proof -
  let ?E = "kubeEnv (storeEnv [rebootNode]) (sampleKube\<lparr>kUnschedulable := True\<rparr>)"
  let ?E' = "kubeEnv (storeEnv [rebootNode]) (sampleKube\<lparr>kUnschedulable := True, kBootID := ''boot-2''\<rparr>)"
  let ?st = "map_of [(''n1'', rebootNode)]" and ?t = "rounds ?E sampleReconciler ''n1'' 1 []"
  have x: "Name rebootNode = ''n1''" "calm rebootNode" "specState rebootNode = NodeStateRebootIfRequired"
    "currentState rebootNode = NodeCurrentStateDrained" "isDrained rebootNode" "RebootRequired (Status rebootNode) = Some True"
    "IsZero (DeletionTimestamp rebootNode)" "RebootRequiredLastChecked (Status rebootNode) = Some (1000 * Hour)" by code_simp+
  have o: "orderly (kubeEnv (storeEnv [rebootNode]) k) [] ?st" for k
    using kubeEnv_orderly [OF storeEnv_orderly [of "[rebootNode]"]] x(1) by simp
  have "rebootWanted ?E rebootNode" unfolding rebootWanted_def
    by (simp add: x kubeEnv_def storeEnv_def sampleEnv_def Let_def duration_defs)
  with o x(1,2) have s: "standing ?E ''n1'' (rebootWanted ?E) [] ?st"
    by (auto simp: standing_def tidy_def oneBusy_def split: if_splits)
  have w: "willing (kubeEnv (storeEnv [rebootNode]) k) ''n1''" for k
    using kubeEnv_willing [OF storeEnv_willing [of rebootNode "[rebootNode]"]] x(1) by simp
  have "case rebootNodePod ?E (rebootManager sampleReconciler) ''n1'' of Ok p \<Rightarrow> True | _ \<Rightarrow> False" by code_simp
  then have "\<exists>p. rebootNodePod ?E (rebootManager sampleReconciler) ''n1'' = Ok p" by (auto split: res.splits)
  then have r: "rebootable ?E sampleReconciler ''n1'' ''boot-1''" unfolding rebootable_def
    by (intro conjI w) (simp_all add: kubeEnv_def answers_def storeEnv_def sampleEnv_def sampleConfig_def sampleKube_def Let_def)
  have c: "cameBack ?E' ''n1'' ''boot-1''" unfolding cameBack_def
    by (intro conjI w) (simp_all add: kubeEnv_def answers_def storeEnv_def sampleEnv_def sampleConfig_def sampleKube_def
        sampleKoanf_def rebootCheckInterval_def duration_defs Let_def)
  have "orderly ?E' ([] @ ?t) (replay ?st ?t)" using orderly_after [OF o, of _ ?t] by simp
  from reboot_completes [OF s r refl this c] show ?thesis
    unfolding NodeCurrentStateRebooting_def NodeCurrentStateOk_def by (simp only: append_Nil) blast
qed

end
