(* ===== verification/Node_Behaviour.thy ===== *)
theory Node_Behaviour
  imports Cluster
begin

text \<open>
  What single reconciliations do beyond the gates of \<open>Node_Gates\<close>: the end of an undrain, who owns the
  cordon of a node, when node objects are created and released, when the check for a required reboot is
  made, when nothing is left to do, two dead ends of the life cycle, and two ways around the queue.
\<close>

section \<open>The end of an undrain\<close>

definition statusWrite :: "event \<Rightarrow> bool" where
  "statusWrite e = (case e of EvPatchStatus _ _ _ \<Rightarrow> True | _ \<Rightarrow> False)"

lemma split_after:
  assumes "xs @ ys = pre @ e # post" and "e \<notin> set xs"
  obtains w where "pre = xs @ w"
  using assms by (auto simp: append_eq_append_conv2 append_eq_Cons_conv)

text \<open>What \<open>undrainUncordon\<close> has done when it returns a node.\<close>

definition uncordoned :: "KubeNode \<Rightarrow> history \<Rightarrow> bool" where
  "uncordoned kube t \<longleftrightarrow> (kUnschedulable kube \<longrightarrow> (\<exists>ks k. EvListKubeNodes (Inr ks) \<in> set t \<and> allReady ks \<and>
     EvPatchKubeNode kube (kube\<lparr>kUnschedulable := False\<rparr>) (Inr k) \<in> set t))"

lemma undrainUncordon_run:
  "\<exists>k. result (undrainUncordon E kube) h = Ok k \<and>
     (k \<noteq> None \<longrightarrow> uncordoned kube (emitted (undrainUncordon E kube) h)) \<and>
     (\<forall>e \<in> set (emitted (undrainUncordon E kube) h). \<not> statusWrite e)"
  by (cases "eListKubeNodes E h")
    (auto simp: undrainUncordon_def result_attempt emitted_attempt run_IsClusterNodesHealthy setUnschedulable_def
      patchKubeNode_def result_wrapf result_call emitted_call uncordoned_def statusWrite_def split: res.split)

lemma RunPostDrain_events:
  "(\<exists>e. result (RunPostDrain E d node) h = Err e) \<or>
   (\<exists>t. result (RunPostDrain E d node) h = Ok () \<and> allHooked (postDrainEv (Name node)) d t \<and>
     emitted (RunPostDrain E d node) h = t @ [EvRecord (Name node) EventTypeNormal ''PostDrain'' ''Node PostDrain succeeded''])"
  using RunPostDrain_run [where E = E and d = d and node = node and h = h] by (cases "result (RunPostDrain E d node) h") auto

lemma RunPostDrain_no_write: "e \<in> set (emitted (RunPostDrain E d node) h) \<Longrightarrow> \<not> statusWrite e"
  by (drule onlyD [OF only_drain_manager(4)]) (auto simp: plugin_event_def statusWrite_def split: event.splits)

lemma undraining_events:
  fixes E r node kube h
  defines "U \<equiv> emitted (undrainUncordon E kube) h"
  defines "P \<equiv> emitted (RunPostDrain E (drainManager r) node) (h @ U)"
  assumes "currentState node = NodeCurrentStateUndraining"
  shows "result (undrainUncordon E kube) h = Ok None \<Longrightarrow> emitted (reconcileNode E r node kube) h = U"
    and "result (undrainUncordon E kube) h = Ok (Some k) \<Longrightarrow> result (RunPostDrain E (drainManager r) node) (h @ U) = Err e \<Longrightarrow>
      emitted (reconcileNode E r node kube) h = U @ P"
    and "result (undrainUncordon E kube) h = Ok (Some k) \<Longrightarrow> result (RunPostDrain E (drainManager r) node) (h @ U) = Ok () \<Longrightarrow>
      \<exists>W. emitted (reconcileNode E r node kube) h = (U @ P) @ W"
  unfolding U_def P_def using assms(3)
  by (simp_all add: reconcileNode_def undrain_def undrainFinish_def requeue30_def emitted_bind result_bind
      emitted_attempt result_attempt)

lemma undraining_write:
  assumes "currentState node = NodeCurrentStateUndraining"
    and "emitted (reconcileNode E r node kube) h = pre @ e # post" and "statusWrite e"
  shows "\<exists>s t u. pre = s @ t @ u \<and> uncordoned kube s \<and> allHooked (postDrainEv (Name node)) (drainManager r) t"
proof -
  let ?U = "emitted (undrainUncordon E kube) h"
  let ?P = "emitted (RunPostDrain E (drainManager r) node) (h @ ?U)"
  note events = undraining_events [OF assms(1), where E = E and kube = kube and h = h and r = r, unfolded assms(2)]
  have e: "e \<in> set (pre @ e # post)" by simp
  obtain u where u: "result (undrainUncordon E kube) h = Ok u" "u \<noteq> None \<Longrightarrow> uncordoned kube ?U"
    and quiet: "\<forall>e \<in> set ?U. \<not> statusWrite e"
    using undrainUncordon_run [of E kube h] by blast
  then obtain k where k: "u = Some k" using events(1) assms(3) e by (cases u) metis+
  have calm: "e' \<in> set (?U @ ?P) \<Longrightarrow> \<not> statusWrite e'" for e' using quiet RunPostDrain_no_write by auto
  have "result (RunPostDrain E (drainManager r) node) (h @ ?U) \<noteq> Err err" for err
  proof
    assume "result (RunPostDrain E (drainManager r) node) (h @ ?U) = Err err"
    with events(2) [of k err] u(1) k have "pre @ e # post = ?U @ ?P" by simp
    with e have "e \<in> set (?U @ ?P)" by metis
    with calm assms(3) show False by blast
  qed
  then obtain t where t: "result (RunPostDrain E (drainManager r) node) (h @ ?U) = Ok ()"
    "allHooked (postDrainEv (Name node)) (drainManager r) t"
    "?P = t @ [EvRecord (Name node) EventTypeNormal ''PostDrain'' ''Node PostDrain succeeded'']"
    using RunPostDrain_events [of E "drainManager r" node "h @ ?U"] by auto
  obtain W where "pre @ e # post = (?U @ ?P) @ W" using events(3) [of k] u(1) k t(1) by auto
  then obtain w where "pre = (?U @ ?P) @ w"
    using calm [of e] assms(3) by (elim split_after [OF sym]) blast
  with t(3) have "pre = ?U @ t @ EvRecord (Name node) EventTypeNormal ''PostDrain'' ''Node PostDrain succeeded'' # w" by simp
  with t(2) u(2) k show ?thesis by blast
qed

text \<open>How a reconciliation of an existing object begins.\<close>

lemma emitted_Reconcile:
  assumes "eGetKubeNode E h n = Inr kube" and "eGetNode E (h @ [EvGetKubeNode n (Inr kube)]) n = Inr node"
    and "IsZero (DeletionTimestamp node)"
  shows "emitted (Reconcile E r n) h = [EvGetKubeNode n (Inr kube), EvGetNode n (Inr node)] @
      emitted (reconcileNode E r node kube) (h @ [EvGetKubeNode n (Inr kube), EvGetNode n (Inr node)])"
    and "result (Reconcile E r n) h =
      result (reconcileNode E r node kube) (h @ [EvGetKubeNode n (Inr kube), EvGetNode n (Inr node)])"
  using assms
  by (simp_all add: Reconcile_def getKubeNode_def getNode_def emitted_bind result_bind emitted_attempt result_attempt
      result_call emitted_call)

text \<open>C13. The gate of ending an undrain. When the object that was read is in state Undraining, every write of
  its status (among them the one that makes it OK) comes after: the cluster node was made schedulable
  with all nodes ready, unless it was schedulable already, and then every supported plugin ran its
  PostDrain hook for the node without an error.\<close>

theorem undrain_gate:
  assumes "eGetKubeNode E h n = Inr kube" and "eGetNode E (h @ [EvGetKubeNode n (Inr kube)]) n = Inr node"
    and "IsZero (DeletionTimestamp node)" and "currentState node = NodeCurrentStateUndraining"
    and "emitted (Reconcile E r n) h = pre @ EvPatchStatus old new x # post"
  shows "\<exists>s t u. pre = s @ t @ u \<and> uncordoned kube s \<and> allHooked (postDrainEv (Name node)) (drainManager r) t"
proof -
  let ?s = "[EvGetKubeNode n (Inr kube), EvGetNode n (Inr node)]"
  from emitted_Reconcile(1) [OF assms(1-3)] assms(5)
  have "?s @ emitted (reconcileNode E r node kube) (h @ ?s) = pre @ EvPatchStatus old new x # post" by metis
  then obtain w where "emitted (reconcileNode E r node kube) (h @ ?s) = w @ EvPatchStatus old new x # post" "pre = ?s @ w"
    by (auto simp: append_eq_append_conv2 append_eq_Cons_conv Cons_eq_append_conv)
  moreover from undraining_write [OF assms(4) this(1)] obtain s t u where
    "w = s @ t @ u" "uncordoned kube s" "allHooked (postDrainEv (Name node)) (drainManager r) t"
    by (auto simp: statusWrite_def)
  ultimately have "pre = (?s @ s) @ t @ u" "uncordoned kube (?s @ s)" by (auto simp: uncordoned_def)
  with \<open>allHooked (postDrainEv (Name node)) (drainManager r) t\<close> show ?thesis by blast
qed

theorem undrain_gate_witness:
  "\<exists>pre old new x post s t u. emitted (Reconcile (envIn ''Active'' ''Undraining'' True True) sampleReconciler ''n1'') [] =
     pre @ EvPatchStatus old new x # post \<and> pre = s @ t @ u \<and> uncordoned (sampleKube\<lparr>kUnschedulable := True\<rparr>) s \<and>
     allHooked (postDrainEv ''n1'') oneplugin t"
proof -
  let ?E = "envIn ''Active'' ''Undraining'' True True" and ?kube = "sampleKube\<lparr>kUnschedulable := True\<rparr>"
  let ?node = "nodeIn ''Active'' ''Undraining'' True"
  have r: "eGetKubeNode ?E [] ''n1'' = Inr ?kube" "eGetNode ?E ([] @ [EvGetKubeNode ''n1'' (Inr ?kube)]) ''n1'' = Inr ?node"
    "IsZero (DeletionTimestamp ?node)" "currentState ?node = NodeCurrentStateUndraining" by code_simp+
  have "EvPatchStatus ?node (nodeIn ''Active'' ''Undraining'' False) (Inr (nodeIn ''Active'' ''Undraining'' False)) \<in>
      set (emitted (Reconcile ?E sampleReconciler ''n1'') [])" by code_simp
  from split_list [OF this] obtain pre post where
    s: "emitted (Reconcile ?E sampleReconciler ''n1'') [] = pre @ EvPatchStatus ?node (nodeIn ''Active'' ''Undraining'' False)
      (Inr (nodeIn ''Active'' ''Undraining'' False)) # post" by blast
  have n: "Name ?node = ''n1''" "drainManager sampleReconciler = oneplugin" by code_simp+
  from undrain_gate [OF r s, unfolded n] s show ?thesis by blast
qed

section \<open>Who cordoned the node\<close>

text \<open>The entry of the managed fields that says that its manager set the flag, not through a subresource.\<close>

definition ownsCordon :: "env \<Rightarrow> ManagedFieldsEntry \<Rightarrow> bool" where
  "ownsCordon E m \<longleftrightarrow> mfSubresource m = '''' \<and>
     (\<exists>raw fs sp v. mfFieldsV1 m = Some raw \<and> eUnmarshal E raw = Inr (JObject fs) \<and>
        map_of fs ''f:spec'' = Some (JObject sp) \<and> map_of sp ''f:unschedulable'' = Some v)"

lemma ownsUnschedulable_iff:
  "ownsUnschedulable f \<longleftrightarrow> (\<exists>fs sp v. f = JObject fs \<and> map_of fs ''f:spec'' = Some (JObject sp) \<and>
     map_of sp ''f:unschedulable'' = Some v)"
  by (auto simp: ownsUnschedulable_def split: json.splits option.splits)

text \<open>C31. The owner of the cordon. The walk over the managed fields, with its decoding and its chain of type
  assertions, returns the manager of the first entry that owns the unschedulable flag of the spec, and the
  empty string when there is none; entries that do not decode are skipped.\<close>

theorem manager_of_unschedulable:
  "getManagerOfUnschedulable E kube =
     (case find (ownsCordon E) (kManagedFields kube) of Some m \<Rightarrow> mfManager m | None \<Rightarrow> '''')"
proof -
  have "managerLoop E ms = (case find (ownsCordon E) ms of Some m \<Rightarrow> mfManager m | None \<Rightarrow> '''')" for ms
    by (induction ms) (auto simp: ownsCordon_def ownsUnschedulable_iff split: option.splits sum.splits)
  then show ?thesis by (simp add: getManagerOfUnschedulable_def)
qed

section \<open>Objects that appear and go\<close>

text \<open>C15. The gate of node objects. A reconciliation creates an object only when none was read, for a cluster
  node of that name: not yet written status, and the requested state Cordoned exactly when the cluster
  node is cordoned, so that adopting a node changes nothing. It updates an object only to release the
  finalizer of one that is being deleted.\<close>

theorem object_gate:
  assumes "keepsNames E" and "polls_only E" and "metaOnly E" and "emitted (Reconcile E r n) h = pre @ e # post"
  shows "case e of
      EvCreateNode x _ \<Rightarrow> lastNode pre = None \<and> Name x = n \<and> Status x = zeroStatus \<and>
        (\<exists>kube. lastKube pre = Some kube \<and>
          specState x = (if kUnschedulable kube then NodeStateCordoned else NodeStateActive))
    | EvUpdateNode x _ \<Rightarrow> \<exists>z. lastNode pre = Some z \<and> \<not> IsZero (DeletionTimestamp z) \<and>
        eContainsFinalizer E z nodeDrainFinalizer \<and> x = eRemoveFinalizer E z nodeDrainFinalizer
    | _ \<Rightarrow> True"
proof -
  have ok: "allowed E r n pre e" using Reconcile_allowed [OF assms(1,2,4)] .
  have "lastNode pre = None \<and> Name x = n \<and> Status x = zeroStatus \<and>
      (\<exists>kube. lastKube pre = Some kube \<and> specState x = (if kUnschedulable kube then NodeStateCordoned else NodeStateActive))"
    if "e = EvCreateNode x y" for x y
  proof -
    from ok that obtain kube z where k: "lastNode pre = None" "lastKube pre = Some kube" "kName kube = n"
      "eSetOwnerReference E kube (freshNode kube) = Inr z" "x = eAddFinalizer E z nodeDrainFinalizer"
      by (auto simp: allowed_def)
    with assms(3) have "sameNode x z" "sameNode z (freshNode kube)" by (auto simp: metaOnly_def)
    with k show ?thesis by (auto simp: sameNode_def freshNode_def Let_def)
  qed
  with ok show ?thesis by (cases e) (simp_all add: allowed_def)
qed

definition adoptEnv :: env where
  "adoptEnv = sampleEnv\<lparr>eGetNode := (\<lambda>h n. Inl (ExtError ''NotFound''))\<rparr>"

theorem object_gate_witness:
  "\<exists>pre x y. emitted (Reconcile adoptEnv sampleReconciler ''n1'') [] = pre @ [EvCreateNode x y] \<and>
     Name x = ''n1'' \<and> Status x = zeroStatus \<and> lastNode pre = None"
proof -
  have laws: "keepsNames adoptEnv" "polls_only adoptEnv" "metaOnly adoptEnv"
    by (auto simp: keepsNames_def metaOnly_def sameNode_def adoptEnv_def sampleEnv_def intro: pollOnce_only)
  define x where "x = (freshNode sampleKube)\<lparr>OwnerReferences := [''n1''], Finalizers := [nodeDrainFinalizer]\<rparr>"
  let ?pre = "[EvGetKubeNode ''n1'' (Inr sampleKube), EvGetNode ''n1'' (Inl (ExtError ''NotFound''))]"
  have s: "emitted (Reconcile adoptEnv sampleReconciler ''n1'') [] = ?pre @ EvCreateNode x (Inr x) # []"
    unfolding x_def by code_simp
  from object_gate [OF laws s] s show ?thesis by auto
qed

section \<open>Dead ends and ways around the queue\<close>

text \<open>A law about merge patches: a current state that a patch changes is in its answer.\<close>

definition storesState :: "env \<Rightarrow> bool" where
  "storesState E \<longleftrightarrow> (\<forall>h old new x. ePatchStatus E h old new = Inr x \<longrightarrow> currentState new \<noteq> currentState old \<longrightarrow>
     currentState x = currentState new)"

text \<open>C37. A drain that is abandoned by asking for a cordon. When a node whose drain has begun (Draining, Drained or
  Rebooting) is asked to be Cordoned and its cluster node is cordoned, the reconciliation writes exactly one thing,
  the current state Cordoned: the drained flag is left as it was and the plugins' PostDrain hooks are not run.
  The hypothesis about the server: the answer to this patch, if it succeeds, has the current state that was sent.\<close>

theorem cordon_abandons_drain:
  assumes "eGetKubeNode E h n = Inr kube" and "eGetNode E (h @ [EvGetKubeNode n (Inr kube)]) n = Inr node"
    and "IsZero (DeletionTimestamp node)"
    and "storesState E" and "specState node = NodeStateCordoned" and "disrupting (currentState node)" and "kUnschedulable kube"
  shows "\<exists>ans. emitted (Reconcile E r n) h = [EvGetKubeNode n (Inr kube), EvGetNode n (Inr node),
      EvPatchStatus node (node\<lparr>Status := (Status node)\<lparr>CurrentState := NodeCurrentStateCordoned\<rparr>\<rparr>) ans]"
proof -
  let ?s = "[EvGetKubeNode n (Inr kube), EvGetNode n (Inr node)]"
  let ?new = "node\<lparr>Status := (Status node)\<lparr>CurrentState := NodeCurrentStateCordoned\<rparr>\<rparr>"
  have st: "currentState node \<noteq> NodeCurrentStateUndraining" "currentState node \<noteq> NodeCurrentStateCordoned"
    "WorkState (currentState node)" "undrainNeeded node = Ok False"
    using assms(5,6) by (auto simp: disrupting_def undrainNeeded_def current_defs WorkState_def)
  have idle: "work E r x k = ret emptyResult" if "currentState x = NodeCurrentStateCordoned" for x k
    using that by (simp add: work_def) (simp add: current_defs)
  have "\<exists>ans. emitted (reconcileNode E r node kube) g = [EvPatchStatus node ?new ans]" for g
  proof (cases "ePatchStatus E g node ?new")
    case (Inr x)
    then have "currentState x = NodeCurrentStateCordoned" using assms(4) Inr st(2) by (auto simp: storesState_def)
    with Inr st assms(5,7) idle show ?thesis
      by (simp add: reconcileNode_def undrain_def checkRebootRequired_def switchState_def setUnschedulable_def
          setCurrentState_def patchStatus_def emitted_bind result_bind result_wrapf result_call emitted_call)
  qed (use st assms(5,7) in \<open>simp add: reconcileNode_def undrain_def checkRebootRequired_def switchState_def
      setUnschedulable_def setCurrentState_def patchStatus_def emitted_bind result_bind result_wrapf result_call emitted_call\<close>)
  then obtain ans where "emitted (reconcileNode E r node kube) (h @ ?s) = [EvPatchStatus node ?new ans]" by blast
  with emitted_Reconcile(1) [OF assms(1-3), of r] show ?thesis by simp
qed

theorem cordon_abandons_drain_witness:
  "\<exists>ans. emitted (Reconcile (envIn ''Cordoned'' ''Drained'' True True) sampleReconciler ''n1'') [] =
     [EvGetKubeNode ''n1'' (Inr (sampleKube\<lparr>kUnschedulable := True\<rparr>)), EvGetNode ''n1'' (Inr (nodeIn ''Cordoned'' ''Drained'' True)),
      EvPatchStatus (nodeIn ''Cordoned'' ''Drained'' True) (nodeIn ''Cordoned'' ''Cordoned'' True) ans]"
proof -
  let ?E = "envIn ''Cordoned'' ''Drained'' True True" and ?kube = "sampleKube\<lparr>kUnschedulable := True\<rparr>"
  let ?node = "nodeIn ''Cordoned'' ''Drained'' True"
  have r: "eGetKubeNode ?E [] ''n1'' = Inr ?kube" "eGetNode ?E ([] @ [EvGetKubeNode ''n1'' (Inr ?kube)]) ''n1'' = Inr ?node"
    "IsZero (DeletionTimestamp ?node)" by code_simp+
  have p: "storesState ?E" by (simp add: storesState_def envIn_def sampleEnv_def)
  have s: "specState ?node = NodeStateCordoned" "disrupting (currentState ?node)" "kUnschedulable ?kube" by code_simp+
  have "?node\<lparr>Status := (Status ?node)\<lparr>CurrentState := NodeCurrentStateCordoned\<rparr>\<rparr> = nodeIn ''Cordoned'' ''Cordoned'' True"
    by code_simp
  with cordon_abandons_drain [OF r p s, of sampleReconciler] show ?thesis by simp
qed

text \<open>The events in which the other nodes, their health or the consent of the plugins are asked for.\<close>

definition unasked :: "event \<Rightarrow> bool" where
  "unasked e = (case e of EvListNodes _ \<Rightarrow> False | EvListKubeNodes _ \<Rightarrow> False | EvIsHealthy _ _ \<Rightarrow> False
     | EvIsDrainOk _ _ _ \<Rightarrow> False | _ \<Rightarrow> True)"

lemma unasked_RunPreDrain: "only unasked (RunPreDrain E d node)"
proof -
  have calls: "only unasked (DrainClient_IsSupported E c)" "only unasked (DrainClient_PreDrain E c n)" for c n
    unfolding client_defs primitive_defs by (intro only_rules only_call; simp add: unasked_def)+
  have rec: "unasked (EvRecord a b c d)" for a b c d by (simp add: unasked_def)
  have "only unasked (preDrainLoop E node cs)" for cs
  proof (induction cs)
    case (Cons pc cs)
    then show ?case by (cases pc) (auto intro!: only_rules calls only_eventf rec)
  qed (simp add: only_ret)
  then show ?thesis unfolding RunPreDrain_def by (intro only_rules only_eventf rec)
qed

lemma unasked_reboots:
  assumes "polls_only E"
  shows "only unasked (RebootNode E r node)" "only unasked (CleanupNode E r n)" "only unasked (IsNodeRebooted E r k b)"
proof -
  have "unasked e" if "reboot_event r n e \<and> creates P e" for r n P e
    using that by (cases e) (simp_all add: unasked_def reboot_event_def)
  then show "only unasked (RebootNode E r node)" "only unasked (CleanupNode E r n)" "only unasked (IsNodeRebooted E r k b)"
    by (blast intro: only_mono [OF only_RebootNode] only_mono [OF only_CleanupNode] only_mono [OF only_IsNodeRebooted [OF assms]])+
qed

lemma unasked_drain_and_reboot:
  assumes "polls_only E"
  shows "only unasked (drainCordoned E r node)" "only unasked (reboot E r node kube)" "only unasked (setUnschedulable E kube u)"
  unfolding drainCordoned_def reboot_def setBootID_def setCurrentState_def setState_def setUnschedulable_def
    patchStatus_def patchNode_def patchKubeNode_def newClientset_def runNodeDrain_def now_def
  by (intro only_rules unasked_reboots [OF assms] unasked_RunPreDrain only_call only_ask only_eventf; simp add: unasked_def)+

text \<open>\<open>ensures e m\<close>: when \<open>m\<close> returns a value, the event has happened.\<close>

definition ensures :: "event \<Rightarrow> 'a op \<Rightarrow> bool" where
  "ensures e m \<longleftrightarrow> (\<forall>h a. result m h = Ok a \<longrightarrow> e \<in> set (emitted m h))"

lemma ensures_bind:
  "ensures e m \<Longrightarrow> ensures e (bind m f)"
  "(\<And>a. ensures e (f' a)) \<Longrightarrow> ensures e (bind m' f')"
  by (auto simp: ensures_def result_bind emitted_bind split: res.splits)

lemma ensures_drainCordoned: "ensures (EvRunNodeDrain drainHelper (Name node) (Inr ())) (drainCordoned E r node)"
proof -
  have "ensures (EvRunNodeDrain dh n (Inr ())) (attempt (runNodeDrain E dh n) (\<lambda>e. fail (g e)) f)" for dh n g and f :: "unit \<Rightarrow> Node op"
    unfolding ensures_def
  proof (intro allI impI)
    show "EvRunNodeDrain dh n (Inr ()) \<in> set (emitted (attempt (runNodeDrain E dh n) (\<lambda>e. fail (g e)) f) h)"
      if "result (attempt (runNodeDrain E dh n) (\<lambda>e. fail (g e)) f) h = Ok a" for h a
      using that by (cases "eRunNodeDrain E h dh n")
        (simp_all add: result_attempt emitted_attempt runNodeDrain_def result_call emitted_call)
  qed
  then show ?thesis unfolding drainCordoned_def by (intro ensures_bind(2))
qed

text \<open>The reconciliation of an object whose status was never written and that asks for a drain.\<close>

lemma reconcile_unwritten:
  assumes "specState node = NodeStateDrained" and "currentState node = ''''" and "\<not> isDrained node" and "Name node \<noteq> nodeName r"
  shows "reconcileNode E r node kube =
    bind (if \<not> kUnschedulable kube then setUnschedulable E kube True else ret kube) (\<lambda>k.
    bind (drainCordoned E r node) (\<lambda>x. reboot E r x k))"
  using assms by (simp add: reconcileNode_def undrain_def undrainNeeded_def bind_of_res bind_ret bind_assoc checkRebootRequired_def
      switchState_def work_def rebootStillRequired_def drain_def drainChecks_def WorkState_def current_defs requested_defs Drain_def)

text \<open>C35. Why users must wait for the first status. The state of an object whose status was never written
  is the empty string, which counts as a work state. In any environment (whose polls only run their condition) in
  which the object is read like that, with
  the requested state Drained and not recorded as drained, and is not the controller's own node, the reconciliation
  lists neither node objects nor cluster nodes and asks no plugin about health or consent; and when it returns
  without an error it has evicted the pods of the node.\<close>

theorem empty_state_bypass:
  assumes "polls_only E" and "eGetKubeNode E h n = Inr kube" and "eGetNode E (h @ [EvGetKubeNode n (Inr kube)]) n = Inr node"
    and "IsZero (DeletionTimestamp node)" and "specState node = NodeStateDrained" and "currentState node = ''''"
    and "\<not> isDrained node" and "Name node = n" and "n \<noteq> nodeName r"
  shows "list_all (\<lambda>e. case e of EvListNodes _ \<Rightarrow> False | EvListKubeNodes _ \<Rightarrow> False | EvIsHealthy _ _ \<Rightarrow> False
      | EvIsDrainOk _ _ _ \<Rightarrow> False | _ \<Rightarrow> True) (emitted (Reconcile E r n) h) \<and>
    (\<forall>res. result (Reconcile E r n) h = Ok res \<longrightarrow> EvRunNodeDrain drainHelper n (Inr ()) \<in> set (emitted (Reconcile E r n) h))"
proof -
  let ?s = "[EvGetKubeNode n (Inr kube), EvGetNode n (Inr node)]"
  note start = emitted_Reconcile [OF assms(2-4), of r]
  have run: "reconcileNode E r node kube =
    bind (if \<not> kUnschedulable kube then setUnschedulable E kube True else ret kube) (\<lambda>k.
    bind (drainCordoned E r node) (\<lambda>x. reboot E r x k))" by (rule reconcile_unwritten) (use assms(5-9) in simp_all)
  have "only unasked (reconcileNode E r node kube)"
    unfolding run by (intro only_rules unasked_drain_and_reboot [OF assms(1)])
  then have "\<forall>e \<in> set (emitted (Reconcile E r n) h). unasked e"
    unfolding start(1) by (auto simp: only_def unasked_def)
  moreover have "EvRunNodeDrain drainHelper n (Inr ()) \<in> set (emitted (Reconcile E r n) h)"
    if "result (Reconcile E r n) h = Ok res" for res
  proof -
    have "ensures (EvRunNodeDrain drainHelper n (Inr ())) (reconcileNode E r node kube)"
      unfolding run using ensures_drainCordoned [of node E r] assms(8) by (intro ensures_bind(2) ensures_bind(1)) simp
    with that show ?thesis unfolding start by (auto simp: ensures_def)
  qed
  ultimately show ?thesis by (auto simp: unasked_def list_all_iff)
qed

theorem empty_state_bypass_witness:
  "let t = emitted (Reconcile (envIn ''Drained'' '''' False False) sampleReconciler ''n1'') [] in
   EvRunNodeDrain drainHelper ''n1'' (Inr ()) \<in> set t \<and>
   list_all (\<lambda>e. case e of EvListNodes _ \<Rightarrow> False | EvListKubeNodes _ \<Rightarrow> False | EvIsHealthy _ _ \<Rightarrow> False
                  | EvIsDrainOk _ _ _ \<Rightarrow> False | _ \<Rightarrow> True) t"
proof -
  let ?E = "envIn ''Drained'' '''' False False" and ?node = "nodeIn ''Drained'' '''' False"
  have r: "eGetKubeNode ?E [] ''n1'' = Inr sampleKube" "eGetNode ?E ([] @ [EvGetKubeNode ''n1'' (Inr sampleKube)]) ''n1'' = Inr ?node"
    "IsZero (DeletionTimestamp ?node)" "specState ?node = NodeStateDrained" "currentState ?node = ''''" "\<not> isDrained ?node"
    "Name ?node = ''n1''" "''n1'' \<noteq> nodeName sampleReconciler" by code_simp+
  have "result (Reconcile ?E sampleReconciler ''n1'') [] = Ok emptyResult" by code_simp
  with empty_state_bypass [OF envIn_laws(2) r] show ?thesis by (simp add: Let_def)
qed




text \<open>C38. The dead end that follows. A node in state Next that is recorded as drained, with a drain requested
  and the cluster node cordoned, is never touched again: the reconciliation only reads, returns no error
  and asks for no other round; meanwhile the node blocks the queue.\<close>

theorem drained_next_stuck:
  assumes "eGetKubeNode E h n = Inr kube" and "eGetNode E (h @ [EvGetKubeNode n (Inr kube)]) n = Inr node"
    and "IsZero (DeletionTimestamp node)" and "specState node = NodeStateDrained"
    and "currentState node = NodeCurrentStateNext" and "isDrained node" and "kUnschedulable kube"
  shows "result (Reconcile E r n) h = Ok emptyResult \<and>
    emitted (Reconcile E r n) h = [EvGetKubeNode n (Inr kube), EvGetNode n (Inr node)]"
proof -
  have "reconcileNode E r node kube = ret emptyResult"
    using assms(4-7)
    by (simp add: reconcileNode_def undrain_def undrainNeeded_def bind_of_res bind_ret checkRebootRequired_def
        switchState_def work_def rebootStillRequired_def reboot_def)
  with emitted_Reconcile [OF assms(1-3), of r] show ?thesis by simp
qed

text \<open>The state is reached: a drained node that was asked to be cordoned, and then to be drained again.\<close>

definition cordonedStore :: "Node list \<Rightarrow> env" where
  "cordonedStore l = (storeEnv l)\<lparr>eGetKubeNode := (\<lambda>h n. Inr (sampleKube\<lparr>kName := n, kUnschedulable := True\<rparr>))\<rparr>"

theorem drained_next_stuck_witness:
  "let E = cordonedStore [nodeIn ''Drained'' ''Cordoned'' True];
       h = emitted (Reconcile E sampleReconciler ''n1'') [];
       h' = h @ emitted (Reconcile E sampleReconciler ''n1'') h
   in written h' = [nodeIn ''Drained'' ''Queued'' True, nodeIn ''Drained'' ''Next'' True] \<and>
      result (Reconcile E sampleReconciler ''n1'') h' = Ok emptyResult \<and>
      emitted (Reconcile E sampleReconciler ''n1'') h' =
        [EvGetKubeNode ''n1'' (Inr (sampleKube\<lparr>kUnschedulable := True\<rparr>)), EvGetNode ''n1'' (Inr (nodeIn ''Drained'' ''Next'' True))]"
proof -
  let ?E = "cordonedStore [nodeIn ''Drained'' ''Cordoned'' True]" and ?kube = "sampleKube\<lparr>kUnschedulable := True\<rparr>"
  define h where "h = emitted (Reconcile ?E sampleReconciler ''n1'') []"
  define h' where "h' = h @ emitted (Reconcile ?E sampleReconciler ''n1'') h"
  let ?node = "nodeIn ''Drained'' ''Next'' True"
  have w: "written h' = [nodeIn ''Drained'' ''Queued'' True, ?node]" unfolding h'_def h_def by code_simp
  have r: "eGetKubeNode ?E h' ''n1'' = Inr ?kube" "eGetNode ?E (h' @ [EvGetKubeNode ''n1'' (Inr ?kube)]) ''n1'' = Inr ?node"
    unfolding h'_def h_def by code_simp+
  have s: "IsZero (DeletionTimestamp ?node)" "specState ?node = NodeStateDrained" "currentState ?node = NodeCurrentStateNext"
    "isDrained ?node" "kUnschedulable ?kube" by code_simp+
  from drained_next_stuck [OF r s, of sampleReconciler] w show ?thesis by (simp add: Let_def flip: h_def h'_def)
qed

section \<open>When the check for a required reboot is made\<close>

lemma rebootCheckInterval_bound: "5 * Minute \<le> rebootCheckInterval E"
  by (simp add: rebootCheckInterval_def duration_defs Let_def)

text \<open>C28. The rate of the reboot check. Outside a drain, \<open>checkRebootRequired\<close> creates a pod on a node only when
  no check is on record or the last one is more than five minutes old by the clock it has read, whatever
  interval is configured; and never in a work state.\<close>

theorem reboot_check_rate:
  assumes "EvCreatePod p x \<in> set (emitted (checkRebootRequired E r node) h)"
  shows "\<not> WorkState (currentState node) \<and>
    (case RebootRequiredLastChecked (Status node) of
       None \<Rightarrow> True
     | Some c \<Rightarrow> c = 0 \<or> (\<exists>t. EvNow t \<in> set (emitted (checkRebootRequired E r node) h) \<and> c + 5 * Minute < t))"
proof (cases "WorkState (currentState node)")
  case False
  have "c + 5 * Minute < eNow E h" if "c < eNow E h - rebootCheckInterval E" for c
    using that rebootCheckInterval_bound [of E] by linarith
  with False assms show ?thesis
    by (auto simp: checkRebootRequired_def lastCheckedBefore_def now_def ask_def bind_def ret_def emitted_def
        split: option.splits if_splits prod.splits)
qed (use assms in \<open>simp add: checkRebootRequired_def\<close>)

theorem reboot_check_rate_witness:
  "\<exists>p x t. EvCreatePod p x \<in> set (emitted (checkRebootRequired sampleEnv sampleReconciler (sampleNode\<lparr>Status :=
       sampleStatus\<lparr>RebootRequiredLastChecked := Some (900 * Hour)\<rparr>\<rparr>)) []) \<and>
     EvNow t \<in> set (emitted (checkRebootRequired sampleEnv sampleReconciler (sampleNode\<lparr>Status :=
       sampleStatus\<lparr>RebootRequiredLastChecked := Some (900 * Hour)\<rparr>\<rparr>)) []) \<and> 900 * Hour + 5 * Minute < t"
proof -
  let ?node = "sampleNode\<lparr>Status := sampleStatus\<lparr>RebootRequiredLastChecked := Some (900 * Hour)\<rparr>\<rparr>"
  let ?t = "emitted (checkRebootRequired sampleEnv sampleReconciler ?node) []"
  have "createdPods ?t \<noteq> []" by code_simp
  then obtain q where "q \<in> set (createdPods ?t)" by (cases "createdPods ?t") auto
  then obtain p x where c: "EvCreatePod p x \<in> set ?t" using createdPods_iff by blast
  have "900 * Hour \<noteq> 0" by (simp add: duration_defs)
  with reboot_check_rate [OF c] c show ?thesis by auto
qed

section \<open>Nothing left to do\<close>

text \<open>Events that change nothing of the nodes: reads, the clock, and the sweep of the manager's own pods.\<close>

definition quiet :: "event \<Rightarrow> bool" where
  "quiet e = (case e of EvGetKubeNode _ _ \<Rightarrow> True | EvGetNode _ _ \<Rightarrow> True | EvNow _ \<Rightarrow> True | EvDeletePods _ _ _ \<Rightarrow> True | _ \<Rightarrow> False)"

lemma only_checkRebootRequired:
  assumes "RebootRequiredLastChecked (Status node) = Some c" and "c \<noteq> 0"
    and "\<not> c < eNow E h - rebootCheckInterval E" and "currentState node = NodeCurrentStateOk"
  shows "result (checkRebootRequired E r node) h = Ok node" "emitted (checkRebootRequired E r node) h = [EvNow (eNow E h)]"
  using assms
  by (simp_all add: checkRebootRequired_def lastCheckedBefore_def now_def ask_def bind_def ret_def result_def emitted_def)

lemma CleanupNode_quiet: "e \<in> set (emitted (CleanupNode E r n) h) \<Longrightarrow> quiet e"
  by (auto simp: CleanupNode_def deletePods_def emitted_call quiet_def split: if_splits sum.splits)

lemma CleanupNode_no_panic: "result (CleanupNode E r n) h \<noteq> Panic p"
  by (auto simp: CleanupNode_def deletePods_def result_wrapf result_call split: sum.splits res.splits)

text \<open>C17. The steady state. For an active node in state OK that is schedulable, not recorded as drained, whose
  flag nobody else owns and whose reboot check is not due, a reconciliation returns without an error, asks
  for no other round, and writes neither the object nor the cluster node; all it does beyond reading is to
  sweep the manager's own pods of that node, and even a failure of that is ignored.\<close>

theorem steady_state:
  assumes "eGetKubeNode E h n = Inr kube" and "eGetNode E (h @ [EvGetKubeNode n (Inr kube)]) n = Inr node"
    and "IsZero (DeletionTimestamp node)" and "specState node = NodeStateActive"
    and "currentState node = NodeCurrentStateOk" and "\<not> isDrained node"
    and "\<not> kUnschedulable kube" and "ownOrNoManager E r kube"
    and "RebootRequiredLastChecked (Status node) = Some c" and "c \<noteq> 0" and "\<forall>g. eNow E g \<le> c + rebootCheckInterval E"
  shows "result (Reconcile E r n) h = Ok emptyResult \<and> (\<forall>e \<in> set (emitted (Reconcile E r n) h). quiet e)"
proof -
  let ?s = "h @ [EvGetKubeNode n (Inr kube), EvGetNode n (Inr node)]"
  from assms(11) have "\<not> c < eNow E ?s - rebootCheckInterval E" by (metis diff_le_eq not_less)
  note check = only_checkRebootRequired [OF assms(9,10) this assms(5), of r]
  let ?g = "?s @ [EvNow (eNow E ?s)]"
  have idle: "work E r node kube = ret emptyResult" using assms(5) by (simp add: work_def current_defs WorkState_def)
  have switch: "switchState E r node kube = attempt (CleanupNode E (rebootManager r) (Name node))
      (\<lambda>_. ret (None, node, kube)) (\<lambda>_. ret (None, node, kube))"
    using assms(4,5,7,8) by (auto simp: switchState_def ownOrNoManager_def setUnschedulable_def setCurrentState_def bind_ret Let_def)
  have "result (switchState E r node kube) ?g = Ok (None, node, kube)"
    and "\<forall>e \<in> set (emitted (switchState E r node kube) ?g). quiet e"
    unfolding switch using CleanupNode_no_panic [of E "rebootManager r" "Name node" ?g]
    by (auto simp: result_attempt emitted_attempt CleanupNode_quiet split: res.splits)
  then have "result (reconcileNode E r node kube) ?s = Ok emptyResult"
    "\<forall>e \<in> set (emitted (reconcileNode E r node kube) ?s). quiet e"
    using assms(5,6) check idle
    by (auto simp: reconcileNode_def undrain_def undrainNeeded_def bind_of_res bind_ret result_bind emitted_bind
        current_defs quiet_def [of "EvNow _"])
  with emitted_Reconcile [OF assms(1-3), of r] show ?thesis by (simp add: quiet_def [of "EvGetNode _ _"] quiet_def [of "EvGetKubeNode _ _"])
qed

theorem steady_state_witness:
  "result (Reconcile (envIn ''Active'' ''OK'' False False) sampleReconciler ''n1'') [] = Ok emptyResult \<and>
   list_all quiet (emitted (Reconcile (envIn ''Active'' ''OK'' False False) sampleReconciler ''n1'') [])"
proof -
  let ?E = "envIn ''Active'' ''OK'' False False" and ?node = "nodeIn ''Active'' ''OK'' False"
  have r: "eGetKubeNode ?E [] ''n1'' = Inr sampleKube" "eGetNode ?E ([] @ [EvGetKubeNode ''n1'' (Inr sampleKube)]) ''n1'' = Inr ?node"
    by code_simp+
  have s: "IsZero (DeletionTimestamp ?node)" "specState ?node = NodeStateActive" "currentState ?node = NodeCurrentStateOk"
    "\<not> isDrained ?node" "\<not> kUnschedulable sampleKube" "ownOrNoManager ?E sampleReconciler sampleKube"
    "RebootRequiredLastChecked (Status ?node) = Some (1000 * Hour)" "1000 * Hour \<noteq> 0" by code_simp+
  have "\<forall>g. eNow ?E g \<le> 1000 * Hour + rebootCheckInterval ?E"
    using rebootCheckInterval_bound [of ?E] by (simp add: envIn_def sampleEnv_def duration_defs)
  from steady_state [OF r s this] show ?thesis unfolding list_all_iff .
qed

text \<open>An undrain waits. When the object that was read is in state Undraining and the reconciliation ends
  without writing its status (the nodes are not ready, the list or the write of the flag fails, or a
  plugin's PostDrain hook fails), it does not return an error: it asks for another round in 30 seconds.\<close>

lemma undrain_waits:
  assumes "eGetKubeNode E h n = Inr kube" and "eGetNode E (h @ [EvGetKubeNode n (Inr kube)]) n = Inr node"
    and "IsZero (DeletionTimestamp node)" and "currentState node = NodeCurrentStateUndraining"
    and "\<forall>e \<in> set (emitted (Reconcile E r n) h). \<not> statusWrite e"
  shows "result (Reconcile E r n) h = Ok \<lparr>RequeueAfter = 30 * Second\<rparr>"
proof -
  let ?s = "h @ [EvGetKubeNode n (Inr kube), EvGetNode n (Inr node)]"
  note start = emitted_Reconcile [OF assms(1-3), of r]
  from assms(5) start(1) have none: "\<forall>e \<in> set (emitted (reconcileNode E r node kube) ?s). \<not> statusWrite e" by auto
  obtain u where u: "result (undrainUncordon E kube) ?s = Ok u" using undrainUncordon_run by blast
  let ?h = "?s @ emitted (undrainUncordon E kube) ?s"
  from none have "\<nexists>k. u = Some k \<and> result (RunPostDrain E (drainManager r) node) ?h = Ok ()"
    using u assms(4)
    by (auto simp: reconcileNode_def undrain_def undrainFinish_def emitted_bind result_bind emitted_attempt result_attempt
        setDrained_def setCurrentState_def patchStatus_def emitted_call statusWrite_def split: if_splits)
  with RunPostDrain_events [of E "drainManager r" node ?h] u assms(4)
  have "result (reconcileNode E r node kube) ?s = Ok \<lparr>RequeueAfter = 30 * Second\<rparr>"
    by (cases u) (auto simp: reconcileNode_def undrain_def undrainFinish_def result_bind result_attempt requeue30_def)
  with start(2) show ?thesis by simp
qed

definition refusingEnv :: env where
  "refusingEnv = (envIn ''Active'' ''Undraining'' True True)\<lparr>ePostDrain := (\<lambda>h c rq. Inl (ExtError ''busy''))\<rparr>"

lemma undrain_waits_witness:
  "result (Reconcile refusingEnv sampleReconciler ''n1'') [] = Ok \<lparr>RequeueAfter = 30 * Second\<rparr>"
proof -
  let ?kube = "sampleKube\<lparr>kUnschedulable := True\<rparr>" and ?node = "nodeIn ''Active'' ''Undraining'' True"
  have r: "eGetKubeNode refusingEnv [] ''n1'' = Inr ?kube"
    "eGetNode refusingEnv ([] @ [EvGetKubeNode ''n1'' (Inr ?kube)]) ''n1'' = Inr ?node"
    "IsZero (DeletionTimestamp ?node)" "currentState ?node = NodeCurrentStateUndraining" by code_simp+
  have "\<forall>e \<in> set (emitted (Reconcile refusingEnv sampleReconciler ''n1'') []). \<not> statusWrite e" by code_simp
  from undrain_waits [OF r this] show ?thesis .
qed

end
