(* ===== verification/Cluster_Runs.thy ===== *)
theory Cluster_Runs
  imports Cluster
begin

text \<open>
  Whole reconciliations against the abstract life cycle. What the store says about a node is abstracted to the
  requested state and the stage; a reconciliation whose answers agree with the store takes this view along moves of
  the abstract machine, and every reconciliation leaves every other object alone. From it follows that undoing a
  drain comes to rest: however often the controller reconciles, it changes the view of a node that is asked to be
  active or cordoned only a few times, and a disturbance adds only a few more.
\<close>

section \<open>The abstract machine of one object\<close>

type_synonym view = "NodeState \<times> stage"

definition view :: "Node \<Rightarrow> view" where
  "view node = (specState node, stage node)"

text \<open>An object appears with a status that was never written, advances along edges of the life cycle, and
  becomes active by itself only when a requested reboot is over or not needed. Without \<open>b\<close> users may ask for
  something else at any time.\<close>

inductive move :: "bool \<Rightarrow> view option \<Rightarrow> view option \<Rightarrow> bool" for b where
  appear: "s = NodeStateActive \<or> s = NodeStateCordoned \<Longrightarrow> move b None (Some (s, '''', False))"
| advance: "edge b s p q \<Longrightarrow> move b (Some (s, p)) (Some (s, q))"
| settle: "b \<longrightarrow> s = NodeStateRebootIfRequired \<Longrightarrow>
    c \<in> {NodeCurrentStateNext, NodeCurrentStateDrained, NodeCurrentStateRebooting} \<Longrightarrow>
    move b (Some (s, c, d)) (Some (NodeStateActive, c, d))"
| request: "\<not> b \<Longrightarrow> move b (Some (s, p)) (Some (s', p))"

inductive_cases moveE: "move b (Some v) w"

lemma move_request: "(b \<longrightarrow> s = s') \<Longrightarrow> (move b)\<^sup>*\<^sup>* (Some (s, p)) (Some (s', p))"
  by (cases "s = s'") (auto intro: move.request)

section \<open>The simulation\<close>

lemma change_moves:
  assumes "change b s v w"
  shows "(move b)\<^sup>*\<^sup>* (map_option view v) (map_option view w)"
  using assms
proof cases
  case (fresh x)
  let ?s = "if b then specState x else NodeStateActive"
  have "move b None (Some (?s, stage x))" using fresh by (auto intro: move.appear)
  then show ?thesis using fresh(1,2) move_request [of b ?s "specState x" "stage x"]
    by (auto simp: view_def intro: converse_rtranclp_into_rtranclp)
next
  case (update x y)
  then show ?thesis using move_request [of b "specState y" "specState x" "stage y"] by (auto simp: view_def agrees_def)
next
  case (status old y x)
  have "(move b)\<^sup>*\<^sup>* (Some (specState y, stage y)) (Some (specState old, stage old))"
    using status(4) move_request [of b "specState y" "specState old" "stage y"] by (auto simp: agrees_def)
  moreover have "move b (Some (specState old, stage old)) (Some (specState old, stage x))"
    by (rule move.advance [OF status(5)])
  moreover have "(move b)\<^sup>*\<^sup>* (Some (specState old, stage x)) (Some (specState x, stage x))"
    using status(6) by (intro move_request) auto
  ultimately show ?thesis using status(1,2) by (auto simp: view_def)
next
  case (respec old y x)
  have "(move b)\<^sup>*\<^sup>* (Some (specState y, stage y)) (Some (specState old, stage old))"
    using respec(3) move_request [of b "specState y" "specState old" "stage y"] by (auto simp: agrees_def)
  moreover have "move b (Some (specState old, stage old)) (Some (NodeStateActive, stage old))"
    using respec(4) unfolding stage_def rebootOver_def by (blast intro: move.settle)
  moreover have "(move b)\<^sup>*\<^sup>* (Some (NodeStateActive, stage old)) (Some (specState x, stage x))"
    using respec(5,6) by (auto intro: move_request)
  ultimately show ?thesis using respec(1,2) by (auto simp: view_def)
qed simp

lemma reconcile_moves:
  assumes "lawful E" and "guarded (told b st) [] (emitted (Reconcile E r n) h)"
  shows "(move b)\<^sup>*\<^sup>* (map_option view (st n)) (map_option view (replay st (emitted (Reconcile E r n) h) n))"
proof -
  have "(move b)\<^sup>*\<^sup>* (map_option view (st n)) (map_option view (replay st s n))" if "emitted (Reconcile E r n) h = s @ u" for s u
    using that
  proof (induction s arbitrary: u rule: rev_induct)
    case (snoc e s)
    then have t: "emitted (Reconcile E r n) h = s @ e # u" by simp
    from assms(2) have "guarded (told b st) [] (s @ [e])" unfolding t by simp
    from snoc.IH [OF t] change_moves [OF reconcile_change [OF assms(1) t this]] show ?case by (rule rtranclp_trans)
  qed simp
  from this [of _ "[]"] show ?thesis by simp
qed

text \<open>C6. The cluster refines the life cycle. A reconciliation of one node does not touch any other object, whatever
  it reads and whatever it is answered. If what it read of its own object and what its writes were answered agree
  with the store in current state and drained flag (and, for \<open>b\<close>, in the request), then the requested state,
  current state and drained flag of that object change only along moves of the abstract machine. In particular the
  controller changes a request itself only when a requested reboot is over or not needed, and an object it creates
  starts with the request that matches a cluster node. For a stale read nothing is said about the own object.\<close>

theorem cluster_refinement:
  assumes "lawful E" and "t = emitted (Reconcile E r n) h" and "st' = replay st t"
  shows "(\<forall>m. m \<noteq> n \<longrightarrow> st' m = st m) \<and>
    (guarded (told b st) [] t \<longrightarrow> (move b)\<^sup>*\<^sup>* (map_option view (st n)) (map_option view (st' n)))"
  using reconcile_others [OF assms(1)] reconcile_moves [OF assms(1)] assms(2,3) by blast

theorem cluster_refinement_witness:
  "\<exists>t. t = emitted (Reconcile (storeEnv [nodeIn ''Drained'' ''Queued'' False]) sampleReconciler ''n1'') [] \<and>
     guarded (told True [''n1'' \<mapsto> nodeIn ''Drained'' ''Queued'' False]) [] t \<and>
     map_option view (replay [''n1'' \<mapsto> nodeIn ''Drained'' ''Queued'' False] t ''n1'') = Some (''Drained'', ''Next'', False) \<and>
     (move True)\<^sup>*\<^sup>* (Some (''Drained'', ''Queued'', False)) (Some (''Drained'', ''Next'', False))"
proof -
  let ?x0 = "nodeIn ''Drained'' ''Queued'' False"
  define t where "t = emitted (Reconcile (storeEnv [?x0]) sampleReconciler ''n1'') []"
  have x0: "Name ?x0 = ''n1''" "calm ?x0" "view ?x0 = (''Drained'', ''Queued'', False)" by code_simp+
  have o: "orderly (storeEnv [?x0]) [] [''n1'' \<mapsto> ?x0]" using storeEnv_orderly [of "[?x0]"] x0(1) by simp
  have "tidy [''n1'' \<mapsto> ?x0]" using x0 by (auto simp: tidy_def split: if_splits)
  from orderly_prefix [OF o this, of sampleReconciler "''n1''" t "[]"]
  have g: "guarded (told True [''n1'' \<mapsto> ?x0]) [] t" by (simp add: t_def)
  have v: "map_option view (replay [''n1'' \<mapsto> ?x0] t ''n1'') = Some (''Drained'', ''Next'', False)"
    unfolding t_def by code_simp
  from cluster_refinement [where b = True, OF orderly_lawful [OF o] t_def refl, of "[''n1'' \<mapsto> ?x0]"] g v x0(3) t_def
  show ?thesis by auto
qed

section \<open>Coming to rest\<close>

text \<open>Requests that undo: the height of a stage above the state in which the request is fulfilled.\<close>

definition undoes :: "NodeState \<Rightarrow> bool" where
  "undoes s \<longleftrightarrow> s = NodeStateActive \<or> s = NodeStateCordoned"

definition height :: "view \<Rightarrow> nat" where
  "height v = (case v of (s, c, d) \<Rightarrow>
     (if d then 1 else 0) +
     (if s = NodeStateActive then
        (if disrupting c then 3 else if c = NodeCurrentStateUndraining then 2 else if c = NodeCurrentStateOk then 0 else 1)
      else
        (if c = NodeCurrentStateUndraining then 2 else if c = NodeCurrentStateCordoned then 0 else 1)))"

lemma height_bound: "height v \<le> 4"
  by (auto simp: height_def split: prod.split)

lemma fulfilled_neq [simp]:
  "NodeCurrentStateOk \<noteq> NodeCurrentStateCordoned" "NodeCurrentStateCordoned \<noteq> NodeCurrentStateOk"
  "NodeCurrentStateOk \<noteq> NodeCurrentStateDraining" "NodeCurrentStateDraining \<noteq> NodeCurrentStateOk"
  "NodeCurrentStateOk \<noteq> NodeCurrentStateDrained" "NodeCurrentStateDrained \<noteq> NodeCurrentStateOk"
  "NodeCurrentStateOk \<noteq> NodeCurrentStateRebooting" "NodeCurrentStateRebooting \<noteq> NodeCurrentStateOk"
  "NodeCurrentStateCordoned \<noteq> NodeCurrentStateUndraining" "NodeCurrentStateUndraining \<noteq> NodeCurrentStateCordoned"
  by (simp_all add: current_defs)

lemma edge_descends:
  assumes "edge True s p q" and "undoes s"
  shows "q = p \<or> height (s, q) < height (s, p)"
  using assms by cases (auto simp: undoes_def height_def disrupting_def)

lemma move_descends:
  assumes "move True (Some v) w" and "undoes (fst v)"
  shows "\<exists>u. w = Some u \<and> fst u = fst v \<and> (u = v \<or> height u < height v)"
  using assms(1)
  by (rule moveE) (use assms(2) in \<open>auto simp: undoes_def dest!: edge_descends\<close>)

lemma moves_descend:
  assumes "(move True)\<^sup>*\<^sup>* (Some v) w" and "undoes (fst v)"
  shows "\<exists>u. w = Some u \<and> fst u = fst v \<and> (u = v \<or> height u < height v)"
  using assms(1)
proof (induction rule: rtranclp_induct)
  case (step w w')
  then obtain u where u: "w = Some u" "fst u = fst v" "u = v \<or> height u < height v" by blast
  with step.hyps(2) assms(2) move_descends [of u w'] show ?case by (auto intro: less_trans)
qed simp

text \<open>A sequence that changes only downwards, except at the steps in \<open>D\<close>, changes at the other steps at most as
  often as it is high, once more for every step in \<open>D\<close>.\<close>

lemma changes_bounded:
  fixes f :: "nat \<Rightarrow> 'a" and m :: "'a \<Rightarrow> nat"
  assumes "\<And>i. i < k \<Longrightarrow> i \<notin> D \<Longrightarrow> f (Suc i) = f i \<or> m (f (Suc i)) < m (f i)" and "\<And>i. m (f i) \<le> b"
  shows "card {i. i < k \<and> i \<notin> D \<and> f (Suc i) \<noteq> f i} + m (f k) \<le> m (f 0) + b * card {i. i < k \<and> i \<in> D}"
  using assms(1)
proof (induction k)
  case (Suc k)
  let ?A = "\<lambda>k. {i. i < k \<and> i \<notin> D \<and> f (Suc i) \<noteq> f i}" and ?B = "\<lambda>k. {i. i < k \<and> i \<in> D}"
  have IH: "card (?A k) + m (f k) \<le> m (f 0) + b * card (?B k)" using Suc by simp
  have split: "{i. i < Suc k \<and> P i} = {i. i < k \<and> P i} \<union> (if P k then {k} else {})" for P by (auto simp: less_Suc_eq)
  have A: "card (?A (Suc k)) = card (?A k) + (if k \<notin> D \<and> f (Suc k) \<noteq> f k then 1 else 0)"
    and B: "card (?B (Suc k)) = card (?B k) + (if k \<in> D then 1 else 0)"
    unfolding split by (simp_all add: card_Un_disjoint)
  show ?case
  proof (cases "k \<in> D")
    case True
    then show ?thesis unfolding A B using IH assms(2) [of "Suc k"] by (simp add: algebra_simps)
  next
    case False
    then show ?thesis unfolding A B using IH Suc.prems [of k] by (cases "f (Suc k) = f k") simp_all
  qed
qed simp

text \<open>
  An undisturbed step, for the node \<open>n\<close>: a reconciliation, of \<open>n\<close> with answers that agree with the store, or of any other
  node with any answers; or anything else that leaves the object of \<open>n\<close> as it is.
\<close>

definition undisturbed :: "nodeReconciler \<Rightarrow> string \<Rightarrow> store \<Rightarrow> store \<Rightarrow> bool" where
  "undisturbed r n st st' \<longleftrightarrow> st' n = st n \<or> (\<exists>E h m t. lawful E \<and> t = emitted (Reconcile E r m) h \<and> st' = replay st t \<and>
     (m = n \<longrightarrow> guarded (told True st) [] t))"

lemma undisturbed_descends:
  assumes "undisturbed r n st st'" and "st n = Some x" and "undoes (specState x)"
  shows "map_option view (st' n) = Some (view x) \<or>
    (\<exists>y. st' n = Some y \<and> specState y = specState x \<and> height (view y) < height (view x))"
  using assms(1) unfolding undisturbed_def
proof (elim disjE exE conjE)
  fix E h m t
  assume a: "lawful E" "t = emitted (Reconcile E r m) h" "st' = replay st t" "m = n \<longrightarrow> guarded (told True st) [] t"
  show ?thesis
  proof (cases "m = n")
    case True
    from reconcile_moves [OF a(1), of True st r n h] a(2-4) True assms(2)
    have "(move True)\<^sup>*\<^sup>* (Some (view x)) (map_option view (st' n))" by simp
    from moves_descend [OF this] assms(3) show ?thesis by (auto simp: view_def)
  next
    case False
    with reconcile_others [OF a(1)] a(2,3) assms(2) show ?thesis by auto
  qed
qed (use assms(2) in simp)

text \<open>C7. Undoing comes to rest. Take any run of the cluster in which the object of the node exists and asks to be
  active or cordoned, and let \<open>D\<close> be the steps at which something other than a reconciliation with agreeing
  answers changes it: a stale read, a lost update, a user. At the remaining steps its request, current state and
  drained flag change at most four times, and four times more for every step in \<open>D\<close>, however many reconciliations
  there are, of whatever nodes, with whatever failures; they change the request not at all. Without disturbance four
  changes are the end.\<close>

theorem undo_comes_to_rest:
  assumes "\<forall>i \<le> k. \<exists>x. sts i n = Some x \<and> undoes (specState x)" and "\<forall>i < k. i \<notin> D \<longrightarrow> undisturbed r n (sts i) (sts (Suc i))"
  shows "card {i. i < k \<and> i \<notin> D \<and> map_option view (sts (Suc i) n) \<noteq> map_option view (sts i n)}
      \<le> 4 * Suc (card {i. i < k \<and> i \<in> D}) \<and>
    (\<forall>i < k. i \<notin> D \<longrightarrow> map_option specState (sts (Suc i) n) = map_option specState (sts i n))"
proof -
  let ?f = "\<lambda>i. map_option view (sts i n)" and ?m = "\<lambda>v. case v of None \<Rightarrow> 0 | Some v \<Rightarrow> height v"
  have step: "?f (Suc i) = ?f i \<or> (\<exists>x y. sts i n = Some x \<and> sts (Suc i) n = Some y \<and> specState y = specState x \<and> ?m (?f (Suc i)) < ?m (?f i))"
    if "i < k" "i \<notin> D" for i
  proof -
    from assms(1) that(1) obtain x where "sts i n = Some x" "undoes (specState x)" by (meson less_imp_le)
    with undisturbed_descends [of r n "sts i" "sts (Suc i)" x] assms(2) that show ?thesis by auto
  qed
  have "?m (?f i) \<le> 4" for i using height_bound by (simp split: option.split)
  with step have "card {i. i < k \<and> i \<notin> D \<and> ?f (Suc i) \<noteq> ?f i} + ?m (?f k) \<le> ?m (?f 0) + 4 * card {i. i < k \<and> i \<in> D}"
    by (intro changes_bounded) blast+
  moreover have "?m (?f 0) \<le> 4" using height_bound by (simp split: option.split)
  moreover have "map_option specState (sts (Suc i) n) = map_option specState (sts i n)" if "i < k" "i \<notin> D" for i
    using step [OF that]
  proof
    assume "?f (Suc i) = ?f i"
    then have "map_option fst (?f (Suc i)) = map_option fst (?f i)" by simp
    then show ?thesis by (simp add: option.map_comp comp_def view_def)
  qed auto
  ultimately show ?thesis by auto
qed

theorem undo_comes_to_rest_witness:
  "\<exists>sts. undisturbed sampleReconciler ''n1'' (sts 0) (sts (Suc 0)) \<and>
     map_option view (sts 0 ''n1'') = Some (''Active'', ''Cordoned'', False) \<and>
     map_option view (sts (Suc 0) ''n1'') = Some (''Active'', ''OK'', False) \<and>
     card {i. i < Suc 0 \<and> i \<notin> {} \<and> map_option view (sts (Suc i) ''n1'') \<noteq> map_option view (sts i ''n1'')} \<le> 4"
proof -
  let ?x0 = "nodeIn ''Active'' ''Cordoned'' False"
  let ?st = "[''n1'' \<mapsto> ?x0]"
  define t where "t = emitted (Reconcile (storeEnv [?x0]) sampleReconciler ''n1'') []"
  define sts where "sts = (\<lambda>i::nat. if i = 0 then ?st else replay ?st t)"
  have x0: "Name ?x0 = ''n1''" "calm ?x0" "view ?x0 = (''Active'', ''Cordoned'', False)" "undoes (specState ?x0)"
    by code_simp+
  have o: "orderly (storeEnv [?x0]) [] ?st" using storeEnv_orderly [of "[?x0]"] x0(1) by simp
  have "tidy ?st" using x0 by (auto simp: tidy_def split: if_splits)
  from orderly_prefix [OF o this, of sampleReconciler "''n1''" t "[]"] orderly_lawful [OF o]
  have u: "undisturbed sampleReconciler ''n1'' (sts 0) (sts (Suc 0))" unfolding undisturbed_def sts_def t_def by auto
  have v: "map_option view (replay ?st t ''n1'') = Some (''Active'', ''OK'', False)" unfolding t_def by code_simp
  then obtain y where y: "replay ?st t ''n1'' = Some y" "view y = (''Active'', ''OK'', False)" by auto
  have "\<forall>i \<le> Suc 0. \<exists>x. sts i ''n1'' = Some x \<and> undoes (specState x)"
    using x0(4) y by (auto simp: sts_def le_Suc_eq view_def undoes_def requested_defs)
  with undo_comes_to_rest [of "Suc 0" sts "''n1''" "{}" sampleReconciler] u
  have "card {i. i < Suc 0 \<and> i \<notin> {} \<and> map_option view (sts (Suc i) ''n1'') \<noteq> map_option view (sts i ''n1'')} \<le> 4"
    by simp
  with u v x0(3) show ?thesis by (intro exI [of _ sts]) (simp add: sts_def)
qed

end
