(* ===== verification/Node_Webhook.thy ===== *)
theory Node_Webhook
  imports Node_Gates
begin

text \<open>
  The admission webhook of node objects, \<open>src/internal/webhook/v1/node_webhook.go\<close>: the defaulter, which
  the API server calls with every created or updated object, and the validator. The object arrives as a
  \<open>runtime.Object\<close>, which may be of another type; \<open>Default\<close> changes it in place, so the model returns it.
\<close>

datatype runtimeObject = NodeObject Node | OtherObject string

text \<open>\<open>%q\<close> of a string of printable bytes.\<close>

fun quote_char :: "char \<Rightarrow> string" where
  "quote_char c = (if c = CHR 0x22 \<or> c = CHR 0x5C then [CHR 0x5C, c] else [c])"

definition Quote :: "string \<Rightarrow> string" where
  "Quote s = [CHR 0x22] @ concat (map quote_char s) @ [CHR 0x22]"

definition applyDefaults :: "Node \<Rightarrow> Node" where
  "applyDefaults node =
     (if specState node = '''' then node\<lparr>Spec := (Spec node)\<lparr>State := NodeStateActive\<rparr>\<rparr> else node)"

definition Default :: "env \<Rightarrow> runtimeObject \<Rightarrow> runtimeObject op" where
  "Default E obj =
     (case obj of
        OtherObject T \<Rightarrow> fail (ErrorString (''expected an Node object but got '' @ T))
      | NodeObject newNode \<Rightarrow>
          attempt (getNode E (Name newNode))
            (\<lambda>err. if \<not> eIsNotFound E err
                   then fail (Errorf (''could not find node '' @ Quote (Name newNode) @ '': '') err)
                   else ret (NodeObject (applyDefaults newNode)))
            (\<lambda>oldNode. ret (NodeObject (applyDefaults newNode))))"

text \<open>The validator returns warnings, here always nil, or an error.\<close>

definition ValidateCreate :: "runtimeObject \<Rightarrow> gerror + string list option" where
  "ValidateCreate obj =
     (case obj of
        OtherObject T \<Rightarrow> Inl (ErrorString (''expected a Node object but got '' @ T))
      | NodeObject node \<Rightarrow> Inr None)"

definition ValidateUpdate :: "runtimeObject \<Rightarrow> runtimeObject \<Rightarrow> gerror + string list option" where
  "ValidateUpdate oldObj newObj =
     (case newObj of
        OtherObject T \<Rightarrow> Inl (ErrorString (''expected a Node object for the newObj but got '' @ T))
      | NodeObject node \<Rightarrow> Inr None)"

definition ValidateDelete :: "runtimeObject \<Rightarrow> gerror + string list option" where
  "ValidateDelete obj =
     (case obj of
        OtherObject T \<Rightarrow> Inl (ErrorString (''expected a Node object but got '' @ T))
      | NodeObject node \<Rightarrow> Inr None)"

section \<open>Properties\<close>

lemma applyDefaults_idem: "applyDefaults (applyDefaults x) = applyDefaults x"
  by (simp add: applyDefaults_def requested_defs)

lemma run_Default:
  "result (Default E (NodeObject x)) h = (case eGetNode E h (Name x) of
     Inl err \<Rightarrow> if eIsNotFound E err then Ok (NodeObject (applyDefaults x))
                else Err (Errorf (''could not find node '' @ Quote (Name x) @ '': '') err)
   | Inr _ \<Rightarrow> Ok (NodeObject (applyDefaults x)))"
  "emitted (Default E (NodeObject x)) h = [EvGetNode (Name x) (eGetNode E h (Name x))]"
  by (auto simp: Default_def getNode_def result_attempt emitted_attempt result_call emitted_call split: sum.split res.split)

text \<open>Defaulting. For a node object the defaulter reads the stored object of that name and does nothing
  else outside; unless that read fails with something other than not-found, it admits the object with the
  requested state filled in: never empty, unchanged when it was given, and every other field as it came.
  Applying it again changes nothing.\<close>

lemma webhook_defaults:
  "(\<exists>r. emitted (Default E (NodeObject x)) h = [EvGetNode (Name x) r] \<and>
     (case r of Inl err \<Rightarrow> eIsNotFound E err | Inr _ \<Rightarrow> True) =
       (result (Default E (NodeObject x)) h = Ok (NodeObject (applyDefaults x)))) \<and>
   (\<forall>y. result (Default E (NodeObject x)) h = Ok y \<longrightarrow> y = NodeObject (applyDefaults x)) \<and>
   specState (applyDefaults x) = (if specState x = '''' then NodeStateActive else specState x) \<and>
   (applyDefaults x)\<lparr>Spec := Spec x\<rparr> = x \<and> applyDefaults (applyDefaults x) = applyDefaults x"
proof -
  have fields: "specState (applyDefaults x) = (if specState x = '''' then NodeStateActive else specState x)"
    "(applyDefaults x)\<lparr>Spec := Spec x\<rparr> = x" by (simp_all add: applyDefaults_def)
  have "(case eGetNode E h (Name x) of Inl err \<Rightarrow> eIsNotFound E err | Inr _ \<Rightarrow> True) =
      (result (Default E (NodeObject x)) h = Ok (NodeObject (applyDefaults x)))"
    "\<forall>y. result (Default E (NodeObject x)) h = Ok y \<longrightarrow> y = NodeObject (applyDefaults x)"
    by (simp_all add: run_Default split: sum.split)
  with fields show ?thesis using run_Default(2) [of E x h] applyDefaults_idem by blast
qed

lemma webhook_defaults_witness:
  "result (Default sampleEnv (NodeObject (nodeIn '''' ''OK'' False))) [] = Ok (NodeObject (nodeIn ''Active'' ''OK'' False))"
proof -
  let ?x = "nodeIn '''' ''OK'' False"
  have e: "emitted (Default sampleEnv (NodeObject ?x)) [] = [EvGetNode ''n1'' (Inr sampleNode)]" by code_simp
  have "applyDefaults ?x = nodeIn ''Active'' ''OK'' False" by code_simp
  moreover from webhook_defaults [of sampleEnv ?x "[]"] obtain r where
    "emitted (Default sampleEnv (NodeObject ?x)) [] = [EvGetNode (Name ?x) r]"
    "(case r of Inl err \<Rightarrow> eIsNotFound sampleEnv err | Inr _ \<Rightarrow> True) =
      (result (Default sampleEnv (NodeObject ?x)) [] = Ok (NodeObject (applyDefaults ?x)))" by blast
  with e have "result (Default sampleEnv (NodeObject ?x)) [] = Ok (NodeObject (applyDefaults ?x))"
    by (simp only: list.inject event.inject sum.case simp_thms)
  ultimately show ?thesis by simp
qed

text \<open>The requested states that the schema of the resource allows, and the one left out.\<close>

definition specAllowed :: "NodeState \<Rightarrow> bool" where
  "specAllowed s \<longleftrightarrow> s \<in> {'''', NodeStateActive, NodeStateCordoned, NodeStateDrained, NodeStateRebootIfRequired}"

text \<open>C34. The webhook closes the switch of the controller. For an object within the schema, the object that the
  defaulter admits never makes an undrain fail with an unhandled requested state, in any current state.\<close>

theorem webhook_closes_switch:
  assumes "specAllowed (specState x)" and "result (Default E (NodeObject x)) h = Ok (NodeObject y)"
  shows "\<exists>b. undrainNeeded (y\<lparr>Status := s\<rparr>) = Ok b"
proof -
  from assms(2) have "y = applyDefaults x" by (auto simp: run_Default split: sum.splits if_splits)
  with assms(1) have "specState y \<in> {NodeStateActive, NodeStateCordoned, NodeStateDrained, NodeStateRebootIfRequired}"
    by (auto simp: applyDefaults_def specAllowed_def)
  then show ?thesis by (auto simp: undrainNeeded_def)
qed

theorem webhook_closes_switch_witness:
  "(\<exists>b. undrainNeeded ((nodeIn ''Active'' ''OK'' False)\<lparr>Status := sampleStatus\<lparr>CurrentState := ''Drained''\<rparr>\<rparr>) = Ok b) \<and>
   undrainNeeded ((nodeIn '''' ''OK'' False)\<lparr>Status := sampleStatus\<lparr>CurrentState := ''Drained''\<rparr>\<rparr>) =
     Err (ErrorString ''unhandled state for undrain: '')"
proof -
  have "result (Default sampleEnv (NodeObject (nodeIn '''' ''OK'' False))) [] = Ok (NodeObject (nodeIn ''Active'' ''OK'' False))"
    by code_simp
  moreover have "specAllowed (specState (nodeIn '''' ''OK'' False))" by code_simp
  moreover have "undrainNeeded ((nodeIn '''' ''OK'' False)\<lparr>Status := sampleStatus\<lparr>CurrentState := ''Drained''\<rparr>\<rparr>) =
      Err (ErrorString ''unhandled state for undrain: '')" by code_simp
  ultimately show ?thesis using webhook_closes_switch by blast
qed

end
