(* ===== verification/Logging.thy ===== *)
theory Logging
  imports Config
begin

text \<open>
  Loggers, \<open>src/internal/config/logger.go\<close>. The logging library (zap, with the colours of its console
  encoder) is the parameter \<open>Z\<close>; \<open>'l\<close> is its type of loggers. The two package variables, the
  configuration and the configuration of loggers, are passed along: None is the nil pointer, and using it
  panics. The mutex only serialises these functions, which is what passing the state along means.
\<close>

section \<open>Levels\<close>

text \<open>The levels of \<open>zapcore\<close>, an \<open>int8\<close>, and the one the repository adds below them.\<close>

type_synonym zapLevel = int

definition DebugLevel :: zapLevel where "DebugLevel = -1"
definition InfoLevel :: zapLevel where "InfoLevel = 0"
definition WarnLevel :: zapLevel where "WarnLevel = 1"
definition ErrorLevel :: zapLevel where "ErrorLevel = 2"
definition FatalLevel :: zapLevel where "FatalLevel = 5"

definition TraceLevel :: zapLevel where "TraceLevel = DebugLevel - 1"

lemmas level_defs = TraceLevel_def DebugLevel_def InfoLevel_def WarnLevel_def ErrorLevel_def FatalLevel_def

section \<open>The logging library\<close>

text \<open>Of \<open>zap.Config\<close> the fields the code sets; an encoder of levels is the text it appends.\<close>

record ZapConfig =
  zcLevel :: zapLevel
  zcEncoding :: string
  zcEncodeLevel :: "zapLevel \<Rightarrow> string"
  zcOutputPaths :: "string list"
  zcErrorOutputPaths :: "string list"
  zcDisableStacktrace :: bool

record 'l zap =
  zParseAtomicLevel :: "string \<Rightarrow> gerror + zapLevel"
  zBuild :: "ZapConfig \<Rightarrow> gerror + 'l"
  zNamed :: "'l \<Rightarrow> string \<Rightarrow> 'l"
  zCapitalColorLevelEncoder :: "zapLevel \<Rightarrow> string"
  zLowercaseLevelEncoder :: "zapLevel \<Rightarrow> string"
  zCyanString :: "string \<Rightarrow> string"

section \<open>Loggers\<close>

text \<open>The encoder that is installed first, and the one that is left in the end.\<close>

definition encodeLevel :: "'l zap \<Rightarrow> string \<Rightarrow> zapLevel \<Rightarrow> string" where
  "encodeLevel Z logFormat l =
     (if logFormat = ''console'' then
        (if l = TraceLevel then zCyanString Z ''TRACE'' else zCapitalColorLevelEncoder Z l)
      else if l = TraceLevel then ''trace'' else zLowercaseLevelEncoder Z l)"

definition newLoggerConfig :: "'l zap \<Rightarrow> zapLevel \<Rightarrow> string \<Rightarrow> ZapConfig" where
  "newLoggerConfig Z level logFormat =
     (let disableStackTrace = True;
          encode = encodeLevel Z logFormat;
          disableStackTrace = (if logFormat = ''json'' then False else disableStackTrace);
          encode = (if logFormat = ''console'' then zCapitalColorLevelEncoder Z else encode)
      in \<lparr>zcLevel = level, zcEncoding = logFormat, zcEncodeLevel = encode, zcOutputPaths = [''stdout''],
          zcErrorOutputPaths = [''stderr''], zcDisableStacktrace = disableStackTrace\<rparr>)"

definition setLoggerConfig :: "ZapConfig \<Rightarrow> ZapConfig option" where
  [simp]: "setLoggerConfig loggerConfig = Some loggerConfig"

text \<open>\<open>GetLogger\<close> returns the logger and the value of \<open>_loggerConfig\<close> after it.\<close>

definition GetLogger :: "'l zap \<Rightarrow> ZapConfig option \<Rightarrow> string \<Rightarrow> string \<Rightarrow> (gerror + 'l) \<times> ZapConfig option" where
  "GetLogger Z g logLevel logFormat =
     (case zParseAtomicLevel Z logLevel of
        Inl err \<Rightarrow> (Inl (Errorf ''failed to parse log level: '' err), g)
      | Inr level \<Rightarrow>
          (let loggerConfig = newLoggerConfig Z level logFormat
           in case zBuild Z loggerConfig of
                Inl err \<Rightarrow> (Inl (Errorf ''failed to build logger: '' err), g)
              | Inr logger \<Rightarrow> (Inr logger, setLoggerConfig loggerConfig)))"

text \<open>
  The level of a named logger, and whether the warning about it is logged. \<open>GetNamedLogger\<close> writes the
  level into the shared configuration before it builds, also when the build fails.
\<close>

definition namedLevel :: "'l zap \<Rightarrow> string \<Rightarrow> zapLevel \<times> bool" where
  "namedLevel Z s =
     (if ToLower s = ''trace'' then (TraceLevel, False)
      else case zParseAtomicLevel Z s of
             Inr level \<Rightarrow> (level, False)
           | Inl err \<Rightarrow> (InfoLevel, True))"

definition GetNamedLogger ::
  "'l zap \<Rightarrow> Config option \<Rightarrow> ZapConfig option \<Rightarrow> string \<Rightarrow> 'l res \<times> ZapConfig option" where
  "GetNamedLogger Z conf g name =
     (case conf of
        None \<Rightarrow> (Panic ''nil pointer dereference'', g)
      | Some c \<Rightarrow>
          (let level = fst (namedLevel Z (lgLevel (Config_GetLogger c name)))
           in case g of
                None \<Rightarrow> (Panic ''nil pointer dereference'', g)
              | Some loggerConfig \<Rightarrow>
                  (let loggerConfig = loggerConfig\<lparr>zcLevel := level\<rparr>
                   in case zBuild Z loggerConfig of
                        Inl err \<Rightarrow> (Err (Errorf (''error building named zap logger for '' @ name @ '': '') err), Some loggerConfig)
                      | Inr l \<Rightarrow> (Ok (zNamed Z l name), Some loggerConfig))))"

section \<open>Properties\<close>

text \<open>The configured level of a logger: its own entry when it has a level, else the global one.\<close>

lemma Config_GetLogger_level:
  "lgLevel (Config_GetLogger c name) =
     (case map_of (lcLoggers (cfLog c)) name of
        Some l \<Rightarrow> if lgLevel l = '''' then lcLevel (cfLog c) else lgLevel l
      | None \<Rightarrow> lcLevel (cfLog c))"
  by (simp add: Config_GetLogger_def split: option.split)

text \<open>Named loggers share one configuration. After the process logger was built, every named logger is
  built from its configuration with only the level replaced: the level of its own entry in the configuration
  or else the global one, where \<open>trace\<close> in any case is the level below debug and a level that does not parse
  is info. However many named loggers are requested, in whatever order, the others do not influence it.\<close>

lemma named_logger:
  assumes "GetLogger Z g0 lvl fmt = (Inr l0, g)"
    and "g' = fold (\<lambda>m s. snd (GetNamedLogger Z (Some c) s m)) names g"
  shows "fst (GetNamedLogger Z (Some c) g' name) =
    (case zBuild Z (newLoggerConfig Z (fst (namedLevel Z (lgLevel (Config_GetLogger c name)))) fmt) of
       Inl err \<Rightarrow> Err (Errorf (''error building named zap logger for '' @ name @ '': '') err)
     | Inr l \<Rightarrow> Ok (zNamed Z l name))"
proof -
  have level: "(newLoggerConfig Z a fmt)\<lparr>zcLevel := b\<rparr> = newLoggerConfig Z b fmt" for a b
    by (simp add: newLoggerConfig_def Let_def)
  have "\<exists>a. fold (\<lambda>m s. snd (GetNamedLogger Z (Some c) s m)) ns (Some (newLoggerConfig Z b fmt)) = Some (newLoggerConfig Z a fmt)" for ns b
  proof (induction ns arbitrary: b)
    case (Cons n ns)
    have "\<exists>a. snd (GetNamedLogger Z (Some c) (Some (newLoggerConfig Z b fmt)) n) = Some (newLoggerConfig Z a fmt)"
      by (auto simp: GetNamedLogger_def level Let_def split: sum.split)
    with Cons show ?case by auto
  qed auto
  moreover from assms(1) obtain b where "g = Some (newLoggerConfig Z b fmt)"
    by (auto simp: GetLogger_def Let_def split: sum.splits)
  ultimately obtain a where "g' = Some (newLoggerConfig Z a fmt)" using assms(2) by blast
  then show ?thesis by (simp add: GetNamedLogger_def level Let_def split: sum.split)
qed

text \<open>A small instance of the library: a logger is its name and its level.\<close>

definition plainZap :: "(string \<times> zapLevel) zap" where
  "plainZap = \<lparr>zParseAtomicLevel = (\<lambda>s. case map_of [(''debug'', -1), (''info'', 0), (''warn'', 1), (''error'', 2)] s of
       Some l \<Rightarrow> Inr l | None \<Rightarrow> Inl (ExtError (''unrecognized level: '' @ s))),
     zBuild = (\<lambda>c. if zcEncoding c \<in> {''json'', ''console''} then Inr ('''', zcLevel c) else Inl (ExtError ''no encoder'')),
     zNamed = (\<lambda>l n. (if fst l = '''' then n else fst l @ ''.'' @ n, snd l)),
     zCapitalColorLevelEncoder = (\<lambda>l. ''LEVEL''), zLowercaseLevelEncoder = (\<lambda>l. ''level''), zCyanString = (\<lambda>s. s)\<rparr>"

definition twoLoggers :: Config where
  "twoLoggers = emptyConfig\<lparr>cfLog := \<lparr>lcLevel = ''warn'', lcFormat = ''json'',
     lcLoggers = [(''node'', \<lparr>lgLevel = ''Trace''\<rparr>), (''drain-plugin-client'', \<lparr>lgLevel = ''loud''\<rparr>)]\<rparr>\<rparr>"

lemma named_logger_witness:
  "fst (GetNamedLogger plainZap (Some twoLoggers)
     (fold (\<lambda>m s. snd (GetNamedLogger plainZap (Some twoLoggers) s m)) [''drain-plugin-client'', ''x'']
        (snd (GetLogger plainZap None ''warn'' ''json''))) ''node'') = Ok (''node'', -2)"
proof -
  let ?g = "snd (GetLogger plainZap None ''warn'' ''json'')"
  have "fst (GetLogger plainZap None ''warn'' ''json'') = Inr ('''', 1)" by code_simp
  then have "GetLogger plainZap None ''warn'' ''json'' = (Inr ('''', 1), ?g)" by (simp add: prod_eq_iff)
  from named_logger [OF this refl, of twoLoggers "[''drain-plugin-client'', ''x'']" "''node''"]
  show ?thesis by (rule trans) code_simp
qed

text \<open>Trace for the process. With a library that does not know the level \<open>trace\<close>, as zap does not, a
  process level of \<open>trace\<close> is refused and the configuration of loggers stays as it was, although named loggers
  accept that level; and in console format the branch that would print \<open>TRACE\<close> is never used, because the
  encoder is replaced.\<close>

lemma trace_level:
  assumes "zParseAtomicLevel Z ''trace'' = Inl err"
  shows "GetLogger Z g ''trace'' fmt = (Inl (Errorf ''failed to parse log level: '' err), g) \<and>
    namedLevel Z ''trace'' = (TraceLevel, False) \<and>
    zcEncodeLevel (newLoggerConfig Z lvl ''console'') = zCapitalColorLevelEncoder Z"
proof -
  have "ToLower ''trace'' = ''trace''" by code_simp
  with assms show ?thesis by (simp add: GetLogger_def namedLevel_def newLoggerConfig_def Let_def)
qed

lemma trace_level_witness:
  "GetLogger plainZap None ''trace'' ''json'' =
     (Inl (Errorf ''failed to parse log level: '' (ExtError ''unrecognized level: trace'')), None) \<and>
   namedLevel plainZap ''trace'' = (TraceLevel, False)"
proof -
  have "zParseAtomicLevel plainZap ''trace'' = Inl (ExtError ''unrecognized level: trace'')" by code_simp
  from trace_level [OF this] show ?thesis by blast
qed

end
