(* ===== verification/Hclog.thy ===== *)
theory Hclog
  imports Logging Drain_Manager
begin

text \<open>
  Logging of plugins: \<open>src/internal/utils/hclog.go\<close>, the adapter from the logger interface of go-plugin
  (hclog) to zap with the forwarding of JSON log lines, and \<open>pluginOutputMonitor\<close> of
  \<open>src/internal/utils/drain-manager.go\<close>, which reads the output of a plugin process line by line.
\<close>

section \<open>The adapter\<close>

text \<open>The levels of hclog, an \<open>int32\<close>.\<close>

type_synonym Level = int

definition hcTrace :: Level where "hcTrace = 1"
definition hcDebug :: Level where "hcDebug = 2"
definition hcInfo :: Level where "hcInfo = 3"
definition hcWarn :: Level where "hcWarn = 4"
definition hcError :: Level where "hcError = 5"
definition hcOff :: Level where "hcOff = 6"

lemmas hc_defs = hcTrace_def hcDebug_def hcInfo_def hcWarn_def hcError_def hcOff_def

text \<open>An argument of a log call, an \<open>interface{}\<close>: a string or a value of another type.\<close>

datatype arg = StringArg string | OtherArg string

type_synonym Field = "string \<times> arg"

text \<open>\<open>fmt.Sprintf("arg%d", i)\<close>.\<close>

fun Itoa :: "nat \<Rightarrow> string" where
  "Itoa n = (if n < 10 then [char_of (48 + n)] else Itoa (n div 10) @ [char_of (48 + n mod 10)])"

declare Itoa.simps [simp del]

definition argName :: "nat \<Rightarrow> string" where
  "argName i = ''arg'' @ Itoa i"

text \<open>
  The loop counts down by two from the end; where Go reaches \<open>-1\<close> the model reaches 0, and both stop.
\<close>

fun convertLoop :: "arg list \<Rightarrow> nat \<Rightarrow> Field list" where
  "convertLoop args i =
     (if i > 0 then
        (let left = i - 2;
             items = take (i - left) (drop left args);
             fields = (case items of
                 [a, b] \<Rightarrow>
                   (case a of
                      StringArg k \<Rightarrow> [(k, b)]
                    | OtherArg _ \<Rightarrow> [(argName (i - 1), b), (argName left, a)])
               | [a] \<Rightarrow> [(argName left, a)]
               | _ \<Rightarrow> [])
         in fields @ convertLoop args (i - 2))
      else [])"

declare convertLoop.simps [simp del]

definition convertToZapAny :: "arg list \<Rightarrow> Field list" where
  "convertToZapAny args = convertLoop args (length args)"

text \<open>A call of the zap logger: its level, message and fields.\<close>

type_synonym zapCall = "zapLevel \<times> string \<times> Field list"

definition wrapper_Debug :: "string \<Rightarrow> arg list \<Rightarrow> zapCall" where
  "wrapper_Debug msg args = (DebugLevel, msg, convertToZapAny args)"
definition wrapper_Info :: "string \<Rightarrow> arg list \<Rightarrow> zapCall" where
  "wrapper_Info msg args = (InfoLevel, msg, convertToZapAny args)"
definition wrapper_Warn :: "string \<Rightarrow> arg list \<Rightarrow> zapCall" where
  "wrapper_Warn msg args = (WarnLevel, msg, convertToZapAny args)"
definition wrapper_Error :: "string \<Rightarrow> arg list \<Rightarrow> zapCall" where
  "wrapper_Error msg args = (ErrorLevel, msg, convertToZapAny args)"
definition wrapper_Trace :: "string \<Rightarrow> arg list \<Rightarrow> zapCall" where
  "wrapper_Trace msg args = (TraceLevel, msg, convertToZapAny args)"

definition wrapper_Log :: "Level \<Rightarrow> string \<Rightarrow> arg list \<Rightarrow> zapCall option" where
  "wrapper_Log lvl msg args =
     (if lvl = hcTrace then Some (wrapper_Trace msg args)
      else if lvl = hcDebug then Some (wrapper_Debug msg args)
      else if lvl = hcInfo then Some (wrapper_Info msg args)
      else if lvl = hcWarn then Some (wrapper_Warn msg args)
      else if lvl = hcError then Some (wrapper_Error msg args)
      else if lvl = hcOff then None
      else Some (wrapper_Info msg args))"

text \<open>The predicates on the level of the zap logger.\<close>

definition wrapper_IsTrace :: "zapLevel \<Rightarrow> bool" where "wrapper_IsTrace l = (l \<le> TraceLevel)"
definition wrapper_IsDebug :: "zapLevel \<Rightarrow> bool" where "wrapper_IsDebug l = (l \<le> DebugLevel)"
definition wrapper_IsInfo :: "zapLevel \<Rightarrow> bool" where "wrapper_IsInfo l = (l \<le> InfoLevel)"
definition wrapper_IsWarn :: "zapLevel \<Rightarrow> bool" where "wrapper_IsWarn l = (l \<le> WarnLevel)"
definition wrapper_IsError :: "zapLevel \<Rightarrow> bool" where "wrapper_IsError l = (l \<le> ErrorLevel)"

lemmas wrapper_Is_defs =
  wrapper_IsTrace_def wrapper_IsDebug_def wrapper_IsInfo_def wrapper_IsWarn_def wrapper_IsError_def

text \<open>
  \<open>GetLevel\<close> looks at its caller on the stack, None when the runtime cannot name it. The parameters are
  \<open>Level.String\<close> of zap and \<open>LevelFromString\<close> of hclog.
\<close>

definition wrapper_GetLevel :: "(zapLevel \<Rightarrow> string) \<Rightarrow> (string \<Rightarrow> Level) \<Rightarrow> string option \<Rightarrow> zapLevel \<Rightarrow> Level" where
  "wrapper_GetLevel levelString levelFromString caller l =
     (if caller = Some ''github.com/hashicorp/go-plugin.(*Client).logStderr'' then hcOff
      else if l = TraceLevel then hcTrace
      else levelFromString (levelString l))"

text \<open>
  Derived loggers. The adapter holds nothing but the zap logger, whose operations are the parameter.
  \<open>SetLevel\<close> and \<open>ImpliedArgs\<close> do nothing, and \<open>ResetNamed\<close> adds to the name like \<open>Named\<close>.
\<close>

record 'l zapLogger =
  zlWithCallerSkip :: "'l \<Rightarrow> int \<Rightarrow> 'l"
  zlWith :: "'l \<Rightarrow> Field list \<Rightarrow> 'l"
  zlNamed :: "'l \<Rightarrow> string \<Rightarrow> 'l"
  zlName :: "'l \<Rightarrow> string"

record 'l wrapper =
  zap :: 'l

definition Wrap :: "'l zapLogger \<Rightarrow> 'l \<Rightarrow> 'l wrapper" where
  "Wrap Z z = \<lparr>zap = zlWithCallerSkip Z z 1\<rparr>"

definition wrapper_With :: "'l zapLogger \<Rightarrow> 'l wrapper \<Rightarrow> arg list \<Rightarrow> 'l wrapper" where
  "wrapper_With Z w args = \<lparr>zap = zlWith Z (zap w) (convertToZapAny args)\<rparr>"

definition wrapper_Named :: "'l zapLogger \<Rightarrow> 'l wrapper \<Rightarrow> string \<Rightarrow> 'l wrapper" where
  "wrapper_Named Z w name = \<lparr>zap = zlNamed Z (zap w) name\<rparr>"

definition wrapper_Name :: "'l zapLogger \<Rightarrow> 'l wrapper \<Rightarrow> string" where
  "wrapper_Name Z w = zlName Z (zap w)"

definition wrapper_ResetNamed :: "'l zapLogger \<Rightarrow> 'l wrapper \<Rightarrow> string \<Rightarrow> 'l wrapper" where
  "wrapper_ResetNamed Z w name = \<lparr>zap = zlNamed Z (zap w) name\<rparr>"

text \<open>The standard logger over the adapter writes to hclog's default output, not to zap.\<close>

datatype writer = HclogDefaultOutput

record stdLogger =
  slWriter :: writer
  slPrefix :: string
  slFlags :: string

definition wrapper_StandardWriter :: "'l wrapper \<Rightarrow> writer" where
  "wrapper_StandardWriter w = HclogDefaultOutput"

definition wrapper_StandardLogger :: "'l wrapper \<Rightarrow> stdLogger" where
  "wrapper_StandardLogger w = \<lparr>slWriter = wrapper_StandardWriter w, slPrefix = '''', slFlags = ''LstdFlags''\<rparr>"

definition wrapper_ImpliedArgs :: "'l wrapper \<Rightarrow> arg list" where
  "wrapper_ImpliedArgs w = []"

definition wrapper_SetLevel :: "'l wrapper \<Rightarrow> Level \<Rightarrow> 'l wrapper" where
  "wrapper_SetLevel w lvl = w"

section \<open>JSON log lines\<close>

definition getLevel :: "string \<Rightarrow> zapLevel" where
  "getLevel s =
     (if s = ''trace'' \<or> s = ''off'' then TraceLevel
      else if s = ''debug'' then DebugLevel
      else if s = ''warn'' then WarnLevel
      else if s = ''error'' then ErrorLevel
      else InfoLevel)"

record logEntry =
  leLevel :: zapLevel
  leMessage :: string
  leTime :: "int option"
  leFields :: "(string \<times> json) list"

text \<open>
  What \<open>logJsonLog\<close> uses from outside: the decoder of a line into a map, the parser of time stamps,
  whether the logger is enabled at a level, and the order in which the map is iterated.
\<close>

record jsonSink =
  jsUnmarshal :: "string \<Rightarrow> gerror + (string \<times> json) list"
  jsParseTime :: "string \<Rightarrow> gerror + int"
  jsEnabled :: "zapLevel \<Rightarrow> bool"
  jsOrder :: "nat list"

text \<open>\<open>v, ok := raw[k]; v.(string); delete(raw, k)\<close>: the string, or None when the key is absent.\<close>

definition takeString :: "string \<Rightarrow> (string \<times> json) list \<Rightarrow> (string option \<times> (string \<times> json) list) res" where
  "takeString k raw =
     (case map_of raw k of
        None \<Rightarrow> Ok (None, raw)
      | Some (JString s) \<Rightarrow> Ok (Some s, AList.delete k raw)
      | Some _ \<Rightarrow> Panic ''interface conversion'')"

text \<open>The result is the entry that is written, None when the logger is not enabled.\<close>

definition logJsonLog :: "jsonSink \<Rightarrow> string \<Rightarrow> logEntry option res" where
  "logJsonLog J line =
     (case jsUnmarshal J line of
        Inl err \<Rightarrow> Err err
      | Inr raw \<Rightarrow>
          (case takeString ''@message'' raw of
             Err e \<Rightarrow> Err e | Panic p \<Rightarrow> Panic p
           | Ok (m, raw) \<Rightarrow>
               (case takeString ''@level'' raw of
                  Err e \<Rightarrow> Err e | Panic p \<Rightarrow> Panic p
                | Ok (lv, raw) \<Rightarrow>
                    (let msg = (case m of Some s \<Rightarrow> s | None \<Rightarrow> '''');
                         level = (case lv of Some s \<Rightarrow> getLevel s | None \<Rightarrow> InfoLevel)
                     in if \<not> jsEnabled J level then Ok None
                        else
                          (case takeString ''@timestamp'' raw of
                             Err e \<Rightarrow> Err e | Panic p \<Rightarrow> Panic p
                           | Ok (None, raw) \<Rightarrow>
                               Ok (Some \<lparr>leLevel = level, leMessage = msg, leTime = None, leFields = shuffle (jsOrder J) raw\<rparr>)
                           | Ok (Some s, raw) \<Rightarrow>
                               (case jsParseTime J s of
                                  Inl err \<Rightarrow> Err err
                                | Inr t \<Rightarrow>
                                    Ok (Some \<lparr>leLevel = level, leMessage = msg, leTime = Some t,
                                       leFields = shuffle (jsOrder J) raw\<rparr>)))))))"

section \<open>The output of a plugin process\<close>

text \<open>\<open>strings.TrimSpace\<close>, for the ASCII blanks.\<close>

definition isSpace :: "char \<Rightarrow> bool" where
  "isSpace c \<longleftrightarrow> c \<in> set [CHR 0x09, CHR 0x0A, CHR 0x0B, CHR 0x0C, CHR 0x0D, CHR 0x20]"

definition TrimSpace :: "string \<Rightarrow> string" where
  "TrimSpace s = rev (dropWhile isSpace (rev (dropWhile isSpace s)))"

definition plainLevel :: "string \<Rightarrow> zapLevel" where
  "plainLevel line =
     (if HasPrefix line ''[TRACE]'' then TraceLevel
      else if HasPrefix line ''[DEBUG]'' then DebugLevel
      else if HasPrefix line ''[INFO]'' then InfoLevel
      else if HasPrefix line ''[WARN]'' then WarnLevel
      else if HasPrefix line ''[ERROR]'' then ErrorLevel
      else if HasPrefix line ''panic: '' \<or> HasPrefix line ''fatal error: '' then ErrorLevel
      else InfoLevel)"

text \<open>What one line makes the logger do, with the plugin id the logger carries by then.\<close>

datatype monitored = JsonLine logEntry "string option" | PlainLine zapLevel string "string option"

text \<open>
  One turn of the loop. \<open>pid\<close> is the id added to the logger so far, \<open>known\<close> what \<open>pluginFileId\<close> says of
  the file at that moment, which the loading of plugins fills in while the process already writes.
\<close>

definition monitorLine ::
  "jsonSink \<Rightarrow> string option \<Rightarrow> string \<Rightarrow> string option \<Rightarrow> (string option \<times> monitored list) res" where
  "monitorLine J pid text known =
     (let line = TrimSpace text
      in if line = '''' then Ok (pid, [])
         else
           (let pid = (case pid of None \<Rightarrow> known | Some _ \<Rightarrow> pid)
            in case logJsonLog J line of
                 Ok None \<Rightarrow> Ok (pid, [])
               | Ok (Some e) \<Rightarrow> Ok (pid, [JsonLine e pid])
               | Err err \<Rightarrow> Ok (pid, [PlainLine (plainLevel line) line pid])
               | Panic p \<Rightarrow> Panic p))"

text \<open>
  The scanner, with its buffer of at most 1 MiB, ends at the first line that does not fit; then nothing
  reads the pipe any more. The outcome is what was logged, and the panic that ended the process, if any.
\<close>

definition maxLine :: int where
  "maxLine = 1024 * 1024"

fun monitorLoop ::
  "jsonSink \<Rightarrow> string option \<Rightarrow> (string \<times> string option) list \<Rightarrow> monitored list \<times> string option" where
  "monitorLoop J pid [] = ([], None)"
| "monitorLoop J pid ((text, known) # rest) =
     (if int (length text) < maxLine then
        (case monitorLine J pid text known of
           Ok (pid, out) \<Rightarrow> (case monitorLoop J pid rest of (outs, p) \<Rightarrow> (out @ outs, p))
         | Panic p \<Rightarrow> ([], Some p)
         | Err _ \<Rightarrow> ([], None))
      else ([], None))"

definition pluginOutputMonitor :: "jsonSink \<Rightarrow> (string \<times> string option) list \<Rightarrow> monitored list \<times> string option" where
  "pluginOutputMonitor J feed = monitorLoop J None feed"

section \<open>Properties of the adapter\<close>

lemma convertLoop_0 [simp]: "convertLoop args 0 = []"
  by (simp add: convertLoop.simps)

lemma convertLoop_append: "i \<le> length xs \<Longrightarrow> convertLoop (xs @ ys) i = convertLoop xs i"
proof (induction i rule: less_induct)
  case (less i)
  then show ?case by (cases "i = 0") (simp_all add: convertLoop.simps [of _ i] Let_def)
qed

lemma convert_simps:
  "convertToZapAny [] = []"
  "convertToZapAny [a] = [(argName 0, a)]"
  "convertToZapAny (xs @ [StringArg k, b]) = (k, b) # convertToZapAny xs"
  "convertToZapAny (xs @ [OtherArg v, b]) =
     (argName (length xs + 1), b) # (argName (length xs), OtherArg v) # convertToZapAny xs"
  by (simp_all add: convertToZapAny_def convertLoop.simps [of _ "Suc _"] convertLoop_append Let_def)

text \<open>Arguments by pairs, from the end.\<close>

lemma pairs_from_end:
  assumes "P []" and "\<And>a. P [a]" and "\<And>xs a b. P xs \<Longrightarrow> P (xs @ [a, b])"
  shows "P xs"
proof (induction xs rule: length_induct)
  case (1 xs)
  show ?case
  proof (cases xs rule: rev_cases)
    case (snoc ys b)
    show ?thesis
    proof (cases ys rule: rev_cases)
      case (snoc zs a)
      with \<open>xs = ys @ [b]\<close> 1 assms(3) [of zs a b] show ?thesis by simp
    qed (use \<open>xs = ys @ [b]\<close> assms(2) in simp)
  qed (use assms(1) in simp)
qed

text \<open>Arguments of a log call. For alternating keys and values the fields are exactly these pairs, last
  first; an odd argument in front is kept as \<open>arg0\<close>; and whatever the arguments are, none is lost: each is
  the value of a field or, if it is a string, the key of one.\<close>

lemma convert_args:
  "convertToZapAny (concat (map (\<lambda>(k, v). [StringArg k, v]) kvs)) = rev kvs \<and>
   convertToZapAny (a # concat (map (\<lambda>(k, v). [StringArg k, v]) kvs)) = rev kvs @ [(''arg0'', a)] \<and>
   (\<forall>x \<in> set args. (\<exists>k. (k, x) \<in> set (convertToZapAny args)) \<or>
      (\<exists>k v. x = StringArg k \<and> (k, v) \<in> set (convertToZapAny args)))"
proof (intro conjI)
  let ?flat = "\<lambda>kvs. concat (map (\<lambda>(k, v). [StringArg k, v]) kvs)"
  show "convertToZapAny (?flat kvs) = rev kvs"
    by (induction kvs rule: rev_induct) (auto simp: convert_simps)
  have "argName 0 = ''arg0''" by code_simp
  then show "convertToZapAny (a # ?flat kvs) = rev kvs @ [(''arg0'', a)]"
    using convert_simps(3) [of "a # _"] by (induction kvs rule: rev_induct) (auto simp: convert_simps)
  show "\<forall>x \<in> set args. (\<exists>k. (k, x) \<in> set (convertToZapAny args)) \<or>
      (\<exists>k v. x = StringArg k \<and> (k, v) \<in> set (convertToZapAny args))"
  proof (induction args rule: pairs_from_end)
    case (3 xs a b)
    then show ?case by (cases a) (auto simp: convert_simps)
  qed (simp_all add: convert_simps)
qed

lemma convert_args_witness:
  "convertToZapAny [OtherArg ''7'', StringArg ''k'', OtherArg ''1''] = [(''k'', OtherArg ''1''), (''arg0'', OtherArg ''7'')] \<and>
   (\<exists>k. (k, OtherArg ''2'') \<in> set (convertToZapAny [OtherArg ''1'', OtherArg ''2'']))"
  using convert_args [of "[(''k'', OtherArg ''1'')]" "OtherArg ''7''" "[OtherArg ''1'', OtherArg ''2'']"] by simp

text \<open>
  What the libraries document of their level names, for the levels the adapter produces.
\<close>

definition levelNames :: "(zapLevel \<Rightarrow> string) \<Rightarrow> (string \<Rightarrow> Level) \<Rightarrow> bool" where
  "levelNames levelString levelFromString \<longleftrightarrow>
     levelFromString (levelString DebugLevel) = hcDebug \<and> levelFromString (levelString InfoLevel) = hcInfo \<and>
     levelFromString (levelString WarnLevel) = hcWarn \<and> levelFromString (levelString ErrorLevel) = hcError"

text \<open>Levels agree across the adapter. For a zap logger at any level from trace to error, a message that
  hclog sends at any of its levels is enabled in zap exactly when hclog thinks it is, by the level the
  adapter reports; and the adapter's predicates say the same. Only the reader of the standard error
  of a plugin is told that logging is off.\<close>

lemma hclog_levels:
  assumes "levelNames levelString levelFromString" and "TraceLevel \<le> l" and "l \<le> ErrorLevel"
    and "caller \<noteq> Some ''github.com/hashicorp/go-plugin.(*Client).logStderr''"
    and "lvl = wrapper_GetLevel levelString levelFromString caller l"
  shows "(\<forall>m \<in> {hcTrace..hcError}. \<forall>msg args. \<exists>z fs. wrapper_Log m msg args = Some (z, msg, fs) \<and> (l \<le> z \<longleftrightarrow> lvl \<le> m)) \<and>
    (wrapper_IsTrace l \<longleftrightarrow> lvl \<le> hcTrace) \<and> (wrapper_IsDebug l \<longleftrightarrow> lvl \<le> hcDebug) \<and> (wrapper_IsInfo l \<longleftrightarrow> lvl \<le> hcInfo) \<and>
    (wrapper_IsWarn l \<longleftrightarrow> lvl \<le> hcWarn) \<and> (wrapper_IsError l \<longleftrightarrow> lvl \<le> hcError)"
proof -
  from assms(2,3) have "l \<in> {TraceLevel, DebugLevel, InfoLevel, WarnLevel, ErrorLevel}" by (auto simp: level_defs)
  with assms(1,4,5) have lvl: "lvl = l + 3" by (auto simp: wrapper_GetLevel_def levelNames_def level_defs hc_defs)
  have "\<exists>fs. wrapper_Log m msg args = Some (m - 3, msg, fs)" if "m \<in> {hcTrace..hcError}" for m msg args
  proof -
    from that have "m \<in> {1, 2, 3, 4, 5}" by (auto simp: hc_defs)
    then show ?thesis
      by (auto simp: wrapper_Log_def hc_defs wrapper_Trace_def wrapper_Debug_def wrapper_Info_def wrapper_Warn_def
          wrapper_Error_def level_defs)
  qed
  with lvl show ?thesis by (fastforce simp: wrapper_Is_defs level_defs hc_defs)
qed

section \<open>Properties of the forwarding\<close>

definition isString :: "json option \<Rightarrow> bool" where
  "isString v = (case v of None \<Rightarrow> True | Some (JString _) \<Rightarrow> True | _ \<Rightarrow> False)"

fun stringOr :: "string \<Rightarrow> json option \<Rightarrow> string" where
  "stringOr d (Some (JString s)) = s"
| "stringOr d _ = d"

lemma takeString_cases:
  "takeString k raw = (if isString (map_of raw k)
     then Ok (case map_of raw k of Some (JString s) \<Rightarrow> Some s | _ \<Rightarrow> None, AList.delete k raw)
     else Panic ''interface conversion'')"
proof -
  have "AList.delete k raw = raw" if "map_of raw k = None"
    using that by (simp add: AList.delete_id map_of_eq_None_iff)
  then show ?thesis by (auto simp: takeString_def isString_def split: option.split json.split)
qed

definition lineLevel :: "(string \<times> json) list \<Rightarrow> zapLevel" where
  "lineLevel raw = (case map_of raw ''@level'' of Some (JString s) \<Rightarrow> getLevel s | _ \<Rightarrow> InfoLevel)"

text \<open>C33. A JSON log line. For a line that decodes, \<open>logJsonLog\<close> panics exactly when the message or the level
  is there and is not a string, or the logger is enabled and the time stamp is there and is not a string.
  Otherwise it writes nothing when the logger is not enabled, fails when the time stamp does not parse, and
  else writes one entry: the message, the level, the time, and every other key as a field, once.\<close>

theorem json_log_line:
  assumes "jsUnmarshal J line = Inr raw"
  shows "if \<not> isString (map_of raw ''@message'') \<or> \<not> isString (map_of raw ''@level'') \<or>
       (jsEnabled J (lineLevel raw) \<and> \<not> isString (map_of raw ''@timestamp''))
     then \<exists>p. logJsonLog J line = Panic p
     else if \<not> jsEnabled J (lineLevel raw) then logJsonLog J line = Ok None
     else (\<exists>e. logJsonLog J line = Err e \<and> (\<exists>s. map_of raw ''@timestamp'' = Some (JString s) \<and> jsParseTime J s = Inl e)) \<or>
       (\<exists>en. logJsonLog J line = Ok (Some en) \<and> leLevel en = lineLevel raw \<and>
          leMessage en = stringOr '''' (map_of raw ''@message'') \<and>
          (case map_of raw ''@timestamp'' of Some (JString s) \<Rightarrow> \<exists>t. leTime en = Some t \<and> jsParseTime J s = Inr t | _ \<Rightarrow> leTime en = None) \<and>
          mset (leFields en) = mset (filter (\<lambda>(k, v). k \<noteq> ''@message'' \<and> k \<noteq> ''@level'' \<and> k \<noteq> ''@timestamp'') raw))"
proof -
  let ?raw = "AList.delete ''@timestamp'' (AList.delete ''@level'' (AList.delete ''@message'' raw))"
  have maps: "map_of (AList.delete ''@message'' raw) ''@level'' = map_of raw ''@level''"
    "map_of (AList.delete ''@level'' (AList.delete ''@message'' raw)) ''@timestamp'' = map_of raw ''@timestamp''"
    by (simp_all add: AList.delete_conv)
  have rest: "?raw = filter (\<lambda>(k, v). k \<noteq> ''@message'' \<and> k \<noteq> ''@level'' \<and> k \<noteq> ''@timestamp'') raw"
    unfolding AList.delete_eq filter_filter by (rule filter_cong) auto
  have level: "(case (case map_of raw ''@level'' of Some (JString s) \<Rightarrow> Some s | _ \<Rightarrow> None) of
      Some s \<Rightarrow> getLevel s | None \<Rightarrow> InfoLevel) = lineLevel raw"
    by (simp add: lineLevel_def split: option.split json.split)
  have message: "(case (case map_of raw ''@message'' of Some (JString s) \<Rightarrow> Some s | _ \<Rightarrow> None) of
      Some s \<Rightarrow> s | None \<Rightarrow> '''') = stringOr '''' (map_of raw ''@message'')"
    by (simp split: option.split json.split)
  show ?thesis
  proof (cases "isString (map_of raw ''@message'') \<and> isString (map_of raw ''@level'') \<and> jsEnabled J (lineLevel raw) \<and>
      isString (map_of raw ''@timestamp'')")
    case False
    then show ?thesis
      by (auto simp: logJsonLog_def assms takeString_cases maps level Let_def)
  next
    case True
    then have t: "map_of raw ''@timestamp'' = None \<or> (\<exists>s. map_of raw ''@timestamp'' = Some (JString s))"
      by (auto simp: isString_def split: option.splits json.splits)
    with True show ?thesis
      by (elim disjE exE; cases "jsParseTime J (stringOr '''' (map_of raw ''@timestamp''))")
        (simp_all add: logJsonLog_def assms takeString_cases maps level message Let_def rest [symmetric])
  qed
qed

definition sampleSink :: jsonSink where
  "sampleSink = \<lparr>jsUnmarshal = (\<lambda>s. if s = ''good'' then
         Inr [(''@level'', JString ''warn''), (''@message'', JString ''hello''), (''x'', JBool True), (''@timestamp'', JString ''t0'')]
       else if s = ''bad'' then Inr [(''@message'', JNumber ''1'')] else Inl (ExtError ''invalid character'')),
     jsParseTime = (\<lambda>s. Inr 7), jsEnabled = (\<lambda>l. True), jsOrder = []\<rparr>"

theorem json_log_line_witness:
  "(\<exists>p. logJsonLog sampleSink ''bad'' = Panic p) \<and>
   (\<exists>en. logJsonLog sampleSink ''good'' = Ok (Some en) \<and> leMessage en = ''hello'' \<and> leTime en = Some 7)"
proof -
  have bad: "jsUnmarshal sampleSink ''bad'' = Inr [(''@message'', JNumber ''1'')]" by code_simp
  have "\<exists>p. logJsonLog sampleSink ''bad'' = Panic p" using json_log_line [OF bad] by (simp add: isString_def)
  moreover have "logJsonLog sampleSink ''good'' = Ok (Some \<lparr>leLevel = 1, leMessage = ''hello'', leTime = Some 7,
      leFields = [(''x'', JBool True)]\<rparr>)" by code_simp
  ultimately show ?thesis by simp
qed

lemma monitorLine_panics:
  "(\<exists>p. monitorLine J pid text known = Panic p) \<longleftrightarrow> TrimSpace text \<noteq> '''' \<and> (\<exists>p. logJsonLog J (TrimSpace text) = Panic p)"
  "monitorLine J pid text known \<noteq> Err e"
  by (auto simp: monitorLine_def Let_def split: res.split option.split)

text \<open>C40. One line can end the logging of a plugin. After a line of 1 MiB or more, and after a JSON line on which
  the forwarding panics, nothing of the plugin's output is logged any more, whatever follows.\<close>

theorem plugin_output_cut:
  assumes "maxLine \<le> int (length text) \<or> (TrimSpace text \<noteq> '''' \<and> (\<exists>p. logJsonLog J (TrimSpace text) = Panic p))"
  shows "fst (pluginOutputMonitor J (xs @ (text, known) # ys)) = fst (pluginOutputMonitor J xs)"
proof -
  have "fst (monitorLoop J pid (xs @ (text, known) # ys)) = fst (monitorLoop J pid xs)" for pid
  proof (induction xs arbitrary: pid)
    case Nil
    then show ?case
      using assms monitorLine_panics(1) [of J pid "text" known] by (auto split: res.splits)
  next
    case (Cons x xs)
    then show ?case by (cases x) (auto simp: case_prod_beta split: res.split)
  qed
  then show ?thesis by (simp add: pluginOutputMonitor_def)
qed

theorem plugin_output_cut_witness:
  "fst (pluginOutputMonitor sampleSink [(''[WARN] a'', None), (''bad'', Some ''p''), (''b'', Some ''p'')]) =
     [PlainLine 1 ''[WARN] a'' None] \<and>
   snd (pluginOutputMonitor sampleSink [(''[WARN] a'', None), (''bad'', Some ''p''), (''b'', Some ''p'')]) \<noteq> None"
proof -
  have "maxLine \<le> int (length ''bad'') \<or> (TrimSpace ''bad'' \<noteq> '''' \<and> (\<exists>p. logJsonLog sampleSink (TrimSpace ''bad'') = Panic p))"
  proof -
    have "logJsonLog sampleSink (TrimSpace ''bad'') = Panic ''interface conversion''" "TrimSpace ''bad'' \<noteq> ''''" by code_simp+
    then show ?thesis by blast
  qed
  from plugin_output_cut [OF this, of "[(''[WARN] a'', None)]" "Some ''p''" "[(''b'', Some ''p'')]"]
  have "fst (pluginOutputMonitor sampleSink [(''[WARN] a'', None), (''bad'', Some ''p''), (''b'', Some ''p'')]) =
      fst (pluginOutputMonitor sampleSink [(''[WARN] a'', None)])" by simp
  moreover have "fst (pluginOutputMonitor sampleSink [(''[WARN] a'', None)]) = [PlainLine 1 ''[WARN] a'' None]" by code_simp
  moreover have "snd (pluginOutputMonitor sampleSink [(''[WARN] a'', None), (''bad'', Some ''p''), (''b'', Some ''p'')]) =
      Some ''interface conversion''" by code_simp
  ultimately show ?thesis by simp
qed

end
