(* ===== verification/Startup.thy ===== *)
theory Startup
  imports Node_Webhook Hclog
begin

text \<open>
  From the start of the process to the running manager: the constructors of the managers and of the
  reconciler, the registration with controller-runtime, and \<open>src/cmd/main.go\<close>. The library around the
  manager and the process environment are the parameter \<open>S\<close>; each call of them is an event, and failing to
  find the cluster's address is an error of creating the manager. A fatal log
  message and \<open>os.Exit(1)\<close> end the process, here an error of the operation. The package variables of
  \<open>config\<close> are threaded through: the configuration is set once, the configuration of loggers changes.
\<close>

section \<open>Constructors\<close>

definition NewRebootManager :: "env \<Rightarrow> string \<Rightarrow> RebootManager op" where
  "NewRebootManager E ns = bind (newClientset E) (\<lambda>_. ret \<lparr>rmNamespace = ns\<rparr>)"

text \<open>The loggers are not part of the model's managers; what they do to the shared configuration is.\<close>

definition NewDrainManager ::
  "env \<Rightarrow> 'l zap \<Rightarrow> Config option \<Rightarrow> ZapConfig option \<Rightarrow> (DrainManager \<times> ZapConfig option) op" where
  "NewDrainManager E Z conf g =
     (case GetNamedLogger Z conf g ''drain-plugin-client'' of (l, g) \<Rightarrow>
      bind (of_res l) (\<lambda>_.
      bind (newClientset E) (\<lambda>_.
      bind (wrapf ''failed to load plugins: ''
              (loadPluginsFromDir E \<lparr>drainClients = [], pluginFileId = [], pluginClients = []\<rparr>)) (\<lambda>d.
      ret (d, g)))))"

definition NewNodeReconciler ::
  "env \<Rightarrow> 'l zap \<Rightarrow> Config option \<Rightarrow> ZapConfig option \<Rightarrow> string \<Rightarrow> string \<Rightarrow> (nodeReconciler \<times> ZapConfig option) op" where
  "NewNodeReconciler E Z conf g ns nameNode =
     (case GetNamedLogger Z conf g ''node'' of (l, g) \<Rightarrow>
      bind (of_res l) (\<lambda>_.
      bind (wrapf ''failed to create reboot manager: '' (NewRebootManager E ns)) (\<lambda>rm.
      bind (wrapf ''failed to create drain manager: '' (NewDrainManager E Z conf g)) (\<lambda>(dm, g).
      ret (\<lparr>managerNamespace = ns, nodeName = nameNode, rebootManager = rm, drainManager = dm\<rparr>, g)))))"

section \<open>The surroundings of the process\<close>

datatype tlsOpt = DisableHTTP2 | GetCertificate string string

record ManagerOptions =
  moMetricsBindAddress :: string
  moMetricsSecureServing :: bool
  moMetricsTLSOpts :: "tlsOpt list"
  moMetricsAuthFilter :: bool
  moWebhookTLSOpts :: "tlsOpt list"
  moHealthProbeBindAddress :: string
  moLeaderElection :: bool
  moLeaderElectionID :: string
  moCacheConfigMapNamespace :: string
  moFieldOwner :: string

text \<open>What is added to the scheme: the types of the client library, or the types of a group and version; and the
  libraries that are given the process logger, where the Kubernetes client gets a logger of its own name.\<close>

datatype schemePart = ClientGoTypes | GroupTypes string string "string list"
datatype loggerSink = ZapGlobals | KlogClear | KlogLogger string | ControllerRuntimeLog | CtrlLogger | SlogDefault

datatype startEvent =
    StAddToScheme schemePart "gerror + unit"
  | StSetLogger loggerSink
  | StCertWatcher string string "gerror + unit"
  | StNewManager ManagerOptions "gerror + unit"
  | StKube event
  | StIndexField string "gerror + unit"
  | StController nodeReconciler "gerror + unit"
  | StWebhook "gerror + unit"
  | StAddRunnable string "gerror + unit"
  | StHealthz "gerror + unit"
  | StReadyz "gerror + unit"
  | StStart "gerror + unit"

type_synonym 'a start = "(startEvent, 'a) go"

record flags =
  metricsAddr :: string
  probeAddr :: string
  enableLeaderElection :: bool
  secureMetrics :: bool
  webhookCertPath :: string
  webhookCertName :: string
  webhookCertKey :: string
  metricsCertPath :: string
  metricsCertName :: string
  metricsCertKey :: string
  enableHTTP2 :: bool
  namespaceFlag :: string
  configMapName :: string

record ('k, 'l) sys =
  sEnv :: env
  sZap :: "'l zap"
  sKoanf :: "'k koanf"
  sFiles :: osfs
  sLoadDefault :: "gerror + 'k"
  sGetenv :: "string \<Rightarrow> string"
  sParseFlags :: "flags \<Rightarrow> flags"
  sAddToScheme :: "schemePart \<Rightarrow> gerror + unit"
  sCertWatcher :: "string \<Rightarrow> string \<Rightarrow> gerror + unit"
  sNewManager :: "ManagerOptions \<Rightarrow> gerror + unit"
  sIndexField :: "string \<Rightarrow> gerror + unit"
  sCompleteController :: "gerror + unit"
  sCompleteWebhook :: "gerror + unit"
  sAddRunnable :: "string \<Rightarrow> gerror + unit"
  sAddHealthz :: "gerror + unit"
  sAddReadyz :: "gerror + unit"
  sStart :: "gerror + unit"

fun kubeEvents :: "startEvent list \<Rightarrow> history" where
  "kubeEvents [] = []"
| "kubeEvents (StKube e # t) = e # kubeEvents t"
| "kubeEvents (_ # t) = kubeEvents t"

definition lift :: "'a op \<Rightarrow> 'a start" where
  "lift m = (\<lambda>h. case m (kubeEvents h) of (r, t) \<Rightarrow> (r, map StKube t))"

definition sysCall :: "gerror + 'a \<Rightarrow> (gerror + 'a \<Rightarrow> startEvent) \<Rightarrow> 'a start" where
  "sysCall r mk = call (\<lambda>_. r) mk"

section \<open>Registration\<close>

definition currentStateField :: string where
  "currentStateField = ''status.currentState''"

text \<open>The index of node objects by current state, and the request a change of a cluster node enqueues.\<close>

definition indexCurrentState :: "Node \<Rightarrow> string list" where
  "indexCurrentState node = (if currentState node = '''' then [] else [currentState node])"

definition requestsOf :: "KubeNode \<Rightarrow> string list" where
  "requestsOf node = [kName node]"

definition SetupWithManager :: "('k, 'l) sys \<Rightarrow> nodeReconciler \<Rightarrow> unit start" where
  "SetupWithManager S r =
     bind (sysCall (sIndexField S currentStateField) (StIndexField currentStateField)) (\<lambda>_.
     sysCall (sCompleteController S) (StController r))"

definition SetupNodeWebhookWithManager ::
  "('k, 'l) sys \<Rightarrow> Config option \<Rightarrow> ZapConfig option \<Rightarrow> ZapConfig option start" where
  "SetupNodeWebhookWithManager S conf g =
     (case GetNamedLogger (sZap S) conf g ''node-webhook'' of (l, g) \<Rightarrow>
      bind (wrapf ''failed to get logger: '' (of_res l)) (\<lambda>_.
      bind (sysCall (sCompleteWebhook S) StWebhook) (\<lambda>_. ret g)))"

section \<open>The main program\<close>

definition defaultFlags :: "('k, 'l) sys \<Rightarrow> flags" where
  "defaultFlags S = \<lparr>metricsAddr = ''0'', probeAddr = '':8081'', enableLeaderElection = False, secureMetrics = True,
     webhookCertPath = '''', webhookCertName = ''tls.crt'', webhookCertKey = ''tls.key'',
     metricsCertPath = '''', metricsCertName = ''tls.crt'', metricsCertKey = ''tls.key'',
     enableHTTP2 = False, namespaceFlag = sGetenv S ''POD_NAMESPACE'', configMapName = ''nodedrain-config''\<rparr>"

text \<open>\<open>init\<close>: the embedded default configuration and the scheme; \<open>utilruntime.Must\<close> panics.\<close>

definition must :: "'a start \<Rightarrow> 'a start" where
  "must m = attempt m (\<lambda>e. panic (Error e)) ret"

definition LoadDefaultConfig :: "('k, 'l) sys \<Rightarrow> 'k start" where
  "LoadDefaultConfig S = wrapf ''failed to load default config: '' (of_res (res_of (sLoadDefault S)))"

definition GroupVersion :: "string \<times> string" where
  "GroupVersion = (''drain.k8s.slyng.dk'', ''v1'')"

text \<open>The builder of the package's scheme, and what it adds after the package registered its types.\<close>

definition SchemeBuilder :: "string list \<Rightarrow> schemePart" where
  "SchemeBuilder types = GroupTypes (fst GroupVersion) (snd GroupVersion) types"

definition AddToScheme :: schemePart where
  "AddToScheme = SchemeBuilder [''Node'', ''NodeList'']"

definition initMain :: "('k, 'l) sys \<Rightarrow> 'k start" where
  "initMain S =
     bind (LoadDefaultConfig S) (\<lambda>k.
     bind (must (sysCall (sAddToScheme S ClientGoTypes) (StAddToScheme ClientGoTypes))) (\<lambda>_.
     bind (must (sysCall (sAddToScheme S AddToScheme) (StAddToScheme AddToScheme))) (\<lambda>_.
     ret k)))"

definition setGlobalLoggers :: "unit start" where
  "setGlobalLoggers =
     bind (emit (StSetLogger ZapGlobals)) (\<lambda>_.
     bind (emit (StSetLogger KlogClear)) (\<lambda>_.
     bind (emit (StSetLogger (KlogLogger ''kubeclient''))) (\<lambda>_.
     bind (emit (StSetLogger ControllerRuntimeLog)) (\<lambda>_.
     bind (emit (StSetLogger CtrlLogger)) (\<lambda>_.
     emit (StSetLogger SlogDefault))))))"

definition namespaceOf :: "flags \<Rightarrow> string" where
  "namespaceOf f = (if namespaceFlag f = '''' then ''default'' else namespaceFlag f)"

definition nodeNameOf :: "('k, 'l) sys \<Rightarrow> string" where
  "nodeNameOf S = (if sGetenv S ''POD_NODENAME'' = '''' then ''no-node-name'' else sGetenv S ''POD_NODENAME'')"

definition tlsOptsOf :: "flags \<Rightarrow> tlsOpt list" where
  "tlsOptsOf f = (if \<not> enableHTTP2 f then [DisableHTTP2] else [])"

text \<open>
  A certificate watcher, when a path is given (without a trailing slash), adds one TLS option. In Go the two option lists start as the
  same slice, whose capacity equals its length, so appending to one never writes into the other.
\<close>

definition certOptions ::
  "('k, 'l) sys \<Rightarrow> string \<Rightarrow> string \<Rightarrow> string \<Rightarrow> string \<Rightarrow> tlsOpt list \<Rightarrow> (bool \<times> tlsOpt list) start" where
  "certOptions S msg path cert key opts =
     (if length path > 0 then
        bind (wrapf msg (sysCall (sCertWatcher S (Join path cert) (Join path key))
                (StCertWatcher (Join path cert) (Join path key)))) (\<lambda>_.
        ret (True, opts @ [GetCertificate (Join path cert) (Join path key)]))
      else ret (False, opts))"

definition managerOptions :: "flags \<Rightarrow> string \<Rightarrow> tlsOpt list \<Rightarrow> tlsOpt list \<Rightarrow> ManagerOptions" where
  "managerOptions f ns webhookTLSOpts metricsTLSOpts =
     \<lparr>moMetricsBindAddress = metricsAddr f, moMetricsSecureServing = secureMetrics f, moMetricsTLSOpts = metricsTLSOpts,
      moMetricsAuthFilter = secureMetrics f, moWebhookTLSOpts = webhookTLSOpts, moHealthProbeBindAddress = probeAddr f,
      moLeaderElection = enableLeaderElection f, moLeaderElectionID = ''223f13cc.k8s.slyng.dk'',
      moCacheConfigMapNamespace = ns, moFieldOwner = GetFieldOwner ns\<rparr>"

definition addRunnable :: "('k, 'l) sys \<Rightarrow> string \<Rightarrow> string \<Rightarrow> bool \<Rightarrow> unit start" where
  "addRunnable S msg name present =
     (if present then wrapf msg (sysCall (sAddRunnable S name) (StAddRunnable name)) else ret ())"

text \<open>The end: watchers, probes, and the manager, which runs until the process is told to stop.\<close>

definition startManager :: "('k, 'l) sys \<Rightarrow> bool \<Rightarrow> bool \<Rightarrow> unit start" where
  "startManager S metricsWatch webhookWatch =
     bind (addRunnable S ''unable to add metrics certificate watcher to manager: '' ''metrics'' metricsWatch) (\<lambda>_.
     bind (addRunnable S ''unable to add webhook certificate watcher to manager: '' ''webhook'' webhookWatch) (\<lambda>_.
     bind (wrapf ''unable to set up health check: '' (sysCall (sAddHealthz S) StHealthz)) (\<lambda>_.
     bind (wrapf ''unable to set up ready check: '' (sysCall (sAddReadyz S) StReadyz)) (\<lambda>_.
     wrapf ''problem running manager: '' (sysCall (sStart S) StStart)))))"

text \<open>The controller and the webhook.\<close>

definition setupController ::
  "('k, 'l) sys \<Rightarrow> Config option \<Rightarrow> ZapConfig option \<Rightarrow> string \<Rightarrow> string \<Rightarrow> ZapConfig option start" where
  "setupController S conf g ns node =
     bind (wrapf ''unable to create node reconciler: ''
             (lift (NewNodeReconciler (sEnv S) (sZap S) conf g ns node))) (\<lambda>(r, g).
     bind (wrapf ''unable to create controller: '' (SetupWithManager S r)) (\<lambda>_.
     if sGetenv S ''ENABLE_WEBHOOKS'' \<noteq> ''false''
     then wrapf ''unable to create webhook: '' (SetupNodeWebhookWithManager S conf g)
     else ret g))"

definition main :: "('k, 'l) sys \<Rightarrow> unit start" where
  "main S =
     bind (initMain S) (\<lambda>k.
     let f = sParseFlags S (defaultFlags S);
         ns = namespaceOf f
     in bind (wrapf ''Failed to load config: '' (of_res (res_of (LoadConfig (sKoanf S) (sFiles S) k)))) (\<lambda>(conf, k).
        case GetLogger (sZap S) None (lcLevel (cfLog conf)) (lcFormat (cfLog conf)) of (l, g) \<Rightarrow>
        bind (wrapf ''Failed to create logger: '' (of_res (res_of l))) (\<lambda>_.
        bind setGlobalLoggers (\<lambda>_.
        let node = nodeNameOf S; tlsOpts = tlsOptsOf f
        in bind (certOptions S ''Failed to initialize webhook certificate watcher: ''
                   (webhookCertPath f) (webhookCertName f) (webhookCertKey f) tlsOpts) (\<lambda>(webhookWatch, webhookTLSOpts).
           bind (certOptions S ''to initialize metrics certificate watcher: ''
                   (metricsCertPath f) (metricsCertName f) (metricsCertKey f) tlsOpts) (\<lambda>(metricsWatch, metricsTLSOpts).
           let opts = managerOptions f ns webhookTLSOpts metricsTLSOpts
           in bind (wrapf ''unable to create new manager: '' (sysCall (sNewManager S opts) (StNewManager opts))) (\<lambda>_.
              bind (setupController S (Some conf) g ns node) (\<lambda>_.
              startManager S metricsWatch webhookWatch))))))))"

section \<open>Properties\<close>

lemma NewNodeReconciler_Ok:
  assumes "result (NewNodeReconciler E Z conf g ns node) h = Ok (r, g')"
  shows "managerNamespace r = ns \<and> nodeName r = node \<and> rmNamespace (rebootManager r) = ns"
  using assms
  by (auto simp: NewNodeReconciler_def NewRebootManager_def result_bind result_wrapf split: res.splits prod.splits)

text \<open>What has happened when the manager is started: with which options it was made, which reconciler was
  registered, and whether the webhook was.\<close>

definition managerMade :: "flags \<Rightarrow> string \<Rightarrow> startEvent list \<Rightarrow> bool" where
  "managerMade f ns t \<longleftrightarrow> (\<exists>opts. StNewManager opts (Inr ()) \<in> set t \<and> moFieldOwner opts = GetFieldOwner ns \<and>
     moMetricsAuthFilter opts = secureMetrics f \<and> moMetricsSecureServing opts = secureMetrics f \<and>
     (enableHTTP2 f \<or> (DisableHTTP2 \<in> set (moMetricsTLSOpts opts) \<and> DisableHTTP2 \<in> set (moWebhookTLSOpts opts))))"

definition controllerMade :: "('k, 'l) sys \<Rightarrow> string \<Rightarrow> string \<Rightarrow> startEvent list \<Rightarrow> bool" where
  "controllerMade S ns node t \<longleftrightarrow> (\<exists>r. StController r (Inr ()) \<in> set t \<and> managerNamespace r = ns \<and> nodeName r = node \<and>
     rmNamespace (rebootManager r) = ns) \<and>
     ((\<exists>x. StWebhook x \<in> set t) \<longleftrightarrow> sGetenv S ''ENABLE_WEBHOOKS'' \<noteq> ''false'')"

definition typesAdded :: "startEvent list \<Rightarrow> bool" where
  "typesAdded t \<longleftrightarrow> StAddToScheme (GroupTypes ''drain.k8s.slyng.dk'' ''v1'' [''Node'', ''NodeList'']) (Inr ()) \<in> set t"

definition loggersSet :: "startEvent list \<Rightarrow> bool" where
  "loggersSet t \<longleftrightarrow> StSetLogger ` {ZapGlobals, KlogLogger ''kubeclient'', ControllerRuntimeLog, CtrlLogger, SlogDefault} \<subseteq> set t"

definition startGate :: "('k, 'l) sys \<Rightarrow> startEvent list \<Rightarrow> startEvent \<Rightarrow> bool" where
  "startGate S t e = (case e of
     StStart _ \<Rightarrow>
       (let f = sParseFlags S (defaultFlags S)
        in typesAdded t \<and> loggersSet t \<and> managerMade f (namespaceOf f) t \<and> controllerMade S (namespaceOf f) (nodeNameOf S) t)
   | _ \<Rightarrow> True)"

text \<open>Steps other than the start and the webhook, and assertions they keep.\<close>

definition plain :: "startEvent \<Rightarrow> bool" where
  "plain e = (case e of StStart _ \<Rightarrow> False | StWebhook _ \<Rightarrow> False | _ \<Rightarrow> True)"

definition keeps :: "(startEvent list \<Rightarrow> bool) \<Rightarrow> bool" where
  "keeps P \<longleftrightarrow> (\<forall>t e. plain e \<longrightarrow> P t \<longrightarrow> P (t @ [e]))"

definition noWebhook :: "startEvent list \<Rightarrow> bool" where
  "noWebhook t \<longleftrightarrow> (\<forall>x. StWebhook x \<notin> set t)"

lemma keeps_rules:
  "keeps (\<lambda>_. b)" "keeps noWebhook" "keeps (managerMade f ns)" "keeps (controllerMade S ns node)"
  "keeps P \<Longrightarrow> keeps Q \<Longrightarrow> keeps (\<lambda>t. P t \<and> Q t)" "keeps typesAdded" "keeps loggersSet"
  by (auto simp: keeps_def noWebhook_def managerMade_def controllerMade_def plain_def typesAdded_def loggersSet_def)

abbreviation booting :: "('k, 'l) sys \<Rightarrow> (startEvent list \<Rightarrow> bool) \<Rightarrow> 'a start \<Rightarrow> ('a \<Rightarrow> startEvent list \<Rightarrow> bool) \<Rightarrow> bool" where
  "booting S P m Q \<equiv> triple (startGate S) P m Q (\<lambda>_. True)"

lemma plain_gate: "plain e \<Longrightarrow> startGate S t e"
  by (cases e) (simp_all add: plain_def startGate_def)

lemma booting_plain:
  assumes "only plain m" and "keeps P" and "\<And>h a. result m h = Ok a \<Longrightarrow> X a"
  shows "booting S P m (\<lambda>a t. P t \<and> X a)"
proof -
  have "triple (startGate S) P m (\<lambda>_. P) P"
    by (rule triple_frame [OF assms(1)]) (use assms(2) plain_gate in \<open>auto simp: keeps_def\<close>)
  with assms(3) show ?thesis unfolding triple_def by blast
qed

lemma booting_call:
  assumes "\<And>x. plain (mk x)" and "keeps P"
  shows "booting S P (sysCall r mk) (\<lambda>a t. P t \<and> mk (Inr a) \<in> set t)"
  unfolding sysCall_def
  by (rule triple_call) (use assms in \<open>auto simp: keeps_def intro: plain_gate\<close>)

lemma booting_of_res: "booting S P (of_res x) (\<lambda>a t. P t \<and> x = Ok a)"
  by (rule triple_of_res) auto

lemma booting_post: "booting S P m Q \<Longrightarrow> (\<And>a t. Q a t \<Longrightarrow> Q' a t) \<Longrightarrow> booting S P m Q'"
  by (erule triple_post) auto

lemmas booting_step = booting_post [OF booting_call]

lemma booting_certOptions:
  assumes "keeps P"
  shows "booting S P (certOptions S msg path cert key opts) (\<lambda>(b, out) t. P t \<and> set opts \<subseteq> set out)"
proof -
  have "booting S P (wrapf msg (sysCall r (StCertWatcher c k))) (\<lambda>_. P)" for r c k
    by (intro triple_wrapf booting_step [OF _ assms]) (simp_all add: plain_def)
  then show ?thesis unfolding certOptions_def by (intro triple_if triple_bind [of _ _ _ "\<lambda>_. P"] triple_ret) auto
qed

lemma stable_keeps: "stable P \<Longrightarrow> keeps P"
  by (simp add: stable_def keeps_def)

lemma stable_made: "stable (managerMade f ns)" "stable typesAdded" "stable loggersSet"
  by (auto simp: stable_def managerMade_def typesAdded_def loggersSet_def)

text \<open>The reconciler that was registered, before and after the webhook.\<close>

definition registeredWith :: "string \<Rightarrow> string \<Rightarrow> startEvent list \<Rightarrow> bool" where
  "registeredWith ns node t \<longleftrightarrow> (\<exists>r. StController r (Inr ()) \<in> set t \<and> managerNamespace r = ns \<and> nodeName r = node \<and>
     rmNamespace (rebootManager r) = ns)"

lemma stable_registered: "stable (registeredWith ns node)"
  by (auto simp: stable_def registeredWith_def)

lemma controllerMade_iff:
  "controllerMade S ns node t \<longleftrightarrow> registeredWith ns node t \<and> (noWebhook t \<longleftrightarrow> sGetenv S ''ENABLE_WEBHOOKS'' = ''false'')"
  by (auto simp: controllerMade_def registeredWith_def noWebhook_def)

lemma only_lift: "only plain (lift m)"
  by (auto simp: only_def emitted_def lift_def plain_def split: prod.splits)

lemma result_lift: "result (lift m) h = Ok a \<Longrightarrow> \<exists>g. result m g = Ok a"
  by (auto simp: result_def lift_def split: prod.splits) (metis fst_conv)

lemma booting_SetupWithManager:
  assumes "keeps P" and "managerNamespace r = ns \<and> nodeName r = node \<and> rmNamespace (rebootManager r) = ns"
  shows "booting S P (SetupWithManager S r) (\<lambda>_ t. P t \<and> registeredWith ns node t)"
proof -
  have "booting S P (sysCall x (StIndexField c)) (\<lambda>_. P)" for x c
    by (rule booting_step [OF _ assms(1)]) (simp_all add: plain_def)
  moreover have "booting S P (sysCall x (StController r)) (\<lambda>_ t. P t \<and> registeredWith ns node t)" for x
    by (rule booting_step [OF _ assms(1)]) (use assms(2) in \<open>auto simp: plain_def registeredWith_def\<close>)
  ultimately show ?thesis unfolding SetupWithManager_def by (rule triple_bind)
qed

lemma booting_webhook:
  assumes "stable M"
  shows "booting (S :: ('k, 'l) sys) M (SetupNodeWebhookWithManager S conf g) (\<lambda>_ t. M t \<and> \<not> noWebhook t)"
proof -
  have log: "booting S M (wrapf msg (of_res l)) (\<lambda>_. M)" for l :: "'l res" and msg
    by (intro triple_wrapf triple_of_res) auto
  have "booting S M (sysCall x StWebhook) (\<lambda>_ t. M t \<and> \<not> noWebhook t)" for x
    unfolding sysCall_def
    by (rule triple_call) (use assms in \<open>auto simp: startGate_def noWebhook_def stable_def\<close>)
  then have "booting S M (bind (sysCall x StWebhook) (\<lambda>_. ret g')) (\<lambda>_ t. M t \<and> \<not> noWebhook t)" for x g'
    by (rule triple_bind) (auto intro: triple_ret)
  then show ?thesis
    unfolding SetupNodeWebhookWithManager_def
    by (cases "GetNamedLogger (sZap S) conf g ''node-webhook''") (simp only: prod.case, rule triple_bind [OF log])
qed

lemma booting_setupController:
  assumes "stable M"
  shows "booting S (\<lambda>t. M t \<and> noWebhook t) (setupController S conf g ns node) (\<lambda>_ t. M t \<and> controllerMade S ns node t)"
proof -
  let ?P = "\<lambda>t. M t \<and> noWebhook t" and ?Q = "\<lambda>_ t. M t \<and> controllerMade S ns node t"
  let ?made = "\<lambda>r. managerNamespace r = ns \<and> nodeName r = node \<and> rmNamespace (rebootManager r) = ns"
  have keep: "keeps ?P" by (intro keeps_rules stable_keeps assms)
  have "booting S ?P (lift (NewNodeReconciler (sEnv S) (sZap S) conf g ns node)) (\<lambda>p t. ?P t \<and> ?made (fst p))"
  proof (rule booting_plain [OF only_lift keep])
    fix h p assume "result (lift (NewNodeReconciler (sEnv S) (sZap S) conf g ns node)) h = Ok p"
    then obtain h' where "result (NewNodeReconciler (sEnv S) (sZap S) conf g ns node) h' = Ok (fst p, snd p)"
      using result_lift by fastforce
    then show "?made (fst p)" by (rule NewNodeReconciler_Ok)
  qed
  note new = triple_wrapf [OF this]
  have reg: "booting S (\<lambda>t. ?P t \<and> ?made r) (wrapf msg (SetupWithManager S r)) (\<lambda>_ t. ?P t \<and> registeredWith ns node t)" for r msg
    by (rule triple_given [of _ "?made r"], simp, rule triple_wrapf, rule triple_pre [OF booting_SetupWithManager [OF keep]]) auto
  have hook: "booting S (\<lambda>t. ?P t \<and> registeredWith ns node t) (if sGetenv S ''ENABLE_WEBHOOKS'' \<noteq> ''false''
      then wrapf msg (SetupNodeWebhookWithManager S conf g') else ret g') ?Q" for msg g'
  proof (rule triple_if)
    have "booting S (\<lambda>t. M t \<and> registeredWith ns node t) (SetupNodeWebhookWithManager S conf g')
        (\<lambda>_ t. (M t \<and> registeredWith ns node t) \<and> \<not> noWebhook t)"
      by (rule booting_webhook [OF stable_conj [OF assms stable_registered]])
    then show "booting S (\<lambda>t. ?P t \<and> registeredWith ns node t) (wrapf msg (SetupNodeWebhookWithManager S conf g')) ?Q"
      if "sGetenv S ''ENABLE_WEBHOOKS'' \<noteq> ''false''"
      by (intro triple_wrapf, elim triple_pre [THEN triple_post]) (use that in \<open>auto simp: controllerMade_iff\<close>)
  qed (auto intro: triple_ret simp: controllerMade_iff)
  have rest: "booting S (\<lambda>t. ?P t \<and> ?made (fst p)) (case p of (r, g) \<Rightarrow> bind (wrapf msg (SetupWithManager S r)) (\<lambda>_.
      if sGetenv S ''ENABLE_WEBHOOKS'' \<noteq> ''false'' then wrapf msg' (SetupNodeWebhookWithManager S conf g) else ret g)) ?Q" for p msg msg'
    by (cases p) (simp only: prod.case fst_conv, rule triple_bind [OF reg hook])
  show ?thesis unfolding setupController_def by (rule triple_bind [OF new rest])
qed

lemma triple_panic: "triple I P (panic msg) Q R"
  by (simp add: triple_def panic_def emitted_def result_def)

lemma booting_must: "booting S P m Q \<Longrightarrow> booting S P (must m) Q"
  unfolding must_def by (erule triple_attempt) (auto intro: triple_ret triple_panic)

lemma booting_initMain: "booting S noWebhook (initMain S) (\<lambda>_ t. noWebhook t \<and> typesAdded t)"
proof -
  have load: "booting S noWebhook (LoadDefaultConfig S) (\<lambda>_. noWebhook)"
    unfolding LoadDefaultConfig_def by (intro triple_wrapf triple_of_res) auto
  have client: "booting S noWebhook (must (sysCall r (StAddToScheme c))) (\<lambda>_. noWebhook)" for r c
    by (intro booting_must booting_step [OF _ keeps_rules(2)]) (simp_all add: plain_def)
  have types: "booting S noWebhook (must (sysCall r (StAddToScheme AddToScheme))) (\<lambda>_ t. noWebhook t \<and> typesAdded t)" for r
    by (intro booting_must booting_step [OF _ keeps_rules(2)])
      (simp_all add: plain_def typesAdded_def AddToScheme_def SchemeBuilder_def GroupVersion_def)
  show ?thesis unfolding initMain_def
    by (rule triple_bind [OF load triple_bind [OF client triple_bind [OF types triple_ret]]]) simp
qed

lemma booting_setGlobalLoggers:
  assumes "keeps P"
  shows "booting S P setGlobalLoggers (\<lambda>_ t. P t \<and> loggersSet t)"
proof -
  have step: "booting S (\<lambda>t. P t \<and> StSetLogger ` K \<subseteq> set t) (emit (StSetLogger l)) (\<lambda>_ t. P t \<and> StSetLogger ` insert l K \<subseteq> set t)" for l K
    using assms by (auto simp: triple_def emit_def result_def emitted_def keeps_def plain_def startGate_def)
  have "booting S (\<lambda>t. P t \<and> StSetLogger ` {} \<subseteq> set t) setGlobalLoggers (\<lambda>_ t. P t \<and>
      StSetLogger ` {SlogDefault, CtrlLogger, ControllerRuntimeLog, KlogLogger ''kubeclient'', KlogClear, ZapGlobals} \<subseteq> set t)"
    unfolding setGlobalLoggers_def by (intro triple_bind [OF step] step)
  then show ?thesis by (rule triple_post [OF triple_pre]) (auto simp: loggersSet_def)
qed

lemma booting_startManager:
  assumes "f = sParseFlags S (defaultFlags S)"
  shows "booting S (\<lambda>t. (managerMade f (namespaceOf f) t \<and> typesAdded t \<and> loggersSet t) \<and>
      controllerMade S (namespaceOf f) (nodeNameOf S) t) (startManager S mw ww) (\<lambda>_ _. True)"
proof -
  let ?P = "\<lambda>t. (managerMade f (namespaceOf f) t \<and> typesAdded t \<and> loggersSet t) \<and> controllerMade S (namespaceOf f) (nodeNameOf S) t"
  have keep: "keeps ?P" by (intro keeps_rules)
  have "booting S ?P (sysCall r mk) (\<lambda>_. ?P)" if "\<And>x. plain (mk x)" for r and mk :: "gerror + unit \<Rightarrow> startEvent"
    by (rule booting_step [OF that keep]) auto
  note plainStep = this
  have run: "booting S ?P (addRunnable S msg n b) (\<lambda>_. ?P)" for msg n b
    unfolding addRunnable_def by (intro triple_if triple_wrapf plainStep triple_ret) (simp_all add: plain_def)
  have probes: "booting S ?P (sysCall r StHealthz) (\<lambda>_. ?P)" "booting S ?P (sysCall r StReadyz) (\<lambda>_. ?P)" for r
    by (rule plainStep, simp add: plain_def)+
  have start: "booting S ?P (sysCall r StStart) (\<lambda>_ _. True)" for r
    unfolding sysCall_def by (rule triple_call) (use assms in \<open>auto simp: startGate_def Let_def\<close>)
  show ?thesis unfolding startManager_def
    by (intro triple_bind [of _ _ _ "\<lambda>_. ?P"] run triple_wrapf probes start)
qed

text \<open>The state in which the manager is made.\<close>

definition ready :: "startEvent list \<Rightarrow> bool" where
  "ready t \<longleftrightarrow> (noWebhook t \<and> typesAdded t) \<and> loggersSet t"

lemma keeps_ready: "keeps ready"
  unfolding ready_def by (intro keeps_rules)

lemma booting_newManager:
  assumes "set (tlsOptsOf f) \<subseteq> set w" and "set (tlsOptsOf f) \<subseteq> set m"
  shows "booting S ready (sysCall r (StNewManager (managerOptions f ns w m)))
    (\<lambda>_ t. (managerMade f ns t \<and> typesAdded t \<and> loggersSet t) \<and> noWebhook t)"
  unfolding ready_def
  by (rule booting_step [OF _ keeps_ready [unfolded ready_def]])
     (use assms in \<open>auto simp: plain_def managerMade_def managerOptions_def tlsOptsOf_def intro!: exI [of _ "managerOptions f ns w m"]\<close>)

lemma booting_main: "booting S noWebhook (main S) (\<lambda>_ _. True)"
proof -
  let ?f = "sParseFlags S (defaultFlags S)"
  let ?ns = "namespaceOf ?f" and ?node = "nodeNameOf S"

  let ?boot = "\<lambda>conf g w m. bind (wrapf ''unable to create new manager: ''
      (sysCall (sNewManager S (managerOptions ?f ?ns (snd w) (snd m))) (StNewManager (managerOptions ?f ?ns (snd w) (snd m)))))
      (\<lambda>_. bind (setupController S (Some conf) g ?ns ?node) (\<lambda>_. startManager S (fst m) (fst w)))"
  have boot: "booting S ready (?boot conf g w m) (\<lambda>_ _. True)"
    if "set (tlsOptsOf ?f) \<subseteq> set (snd w)" "set (tlsOptsOf ?f) \<subseteq> set (snd m)" for conf g w m
    by (intro triple_bind [OF triple_wrapf [OF booting_newManager [OF that]]]
        triple_bind [OF booting_setupController [OF stable_conj [OF stable_made(1) stable_conj [OF stable_made(2,3)]]]]
        booting_startManager) simp
  have certs: "booting S ready (bind (certOptions S msg path cert key (tlsOptsOf ?f)) k) (\<lambda>_ _. True)"
    if "\<And>w. set (tlsOptsOf ?f) \<subseteq> set (snd w) \<Longrightarrow> booting S ready (k w) (\<lambda>_ _. True)"
    for msg path cert key and k :: "bool \<times> tlsOpt list \<Rightarrow> unit start"
  proof (rule triple_bind [OF booting_certOptions [OF keeps_ready]])
    fix w :: "bool \<times> tlsOpt list"
    show "booting S (case w of (b, out) \<Rightarrow> \<lambda>t. ready t \<and> set (tlsOptsOf ?f) \<subseteq> set out) (k w) (\<lambda>_ _. True)"
      by (rule triple_given [where c = "set (tlsOptsOf ?f) \<subseteq> set (snd w)"])
         (auto split: prod.splits intro: triple_pre [OF that])
  qed
  have log: "booting S (\<lambda>t. noWebhook t \<and> typesAdded t) (bind (wrapf msg (of_res x)) k) (\<lambda>_ _. True)"
    if "\<And>a. booting S (\<lambda>t. noWebhook t \<and> typesAdded t) (k a) (\<lambda>_ _. True)" for msg x and k :: "'c \<Rightarrow> unit start"
    by (rule triple_bind [OF triple_wrapf [OF triple_of_res] that]) auto
  have "booting S (\<lambda>t. noWebhook t \<and> typesAdded t) setGlobalLoggers (\<lambda>_. ready)"
    unfolding ready_def by (intro booting_setGlobalLoggers keeps_rules)
  note set = triple_bind [OF this]
  show ?thesis
    unfolding main_def Let_def case_prod_beta
    by (intro triple_bind [OF booting_initMain] log set certs boot)
qed

text \<open>C29. Nothing runs half configured. When the manager is started, the node types of the group and version have been
  added to the scheme, the process logger has been given to all five libraries that log, and the manager has been created: its client writes under
  the field owner of the manager's namespace, the metrics endpoint is served securely and behind
  authentication exactly as the flag asks, and unless HTTP/2 is enabled both servers have it disabled,
  whatever certificate watchers were added. And the reconciler has been registered, with the namespace of
  the flag or environment (\<open>default\<close> when that is empty) and the name of the manager's own node, its reboot
  manager with the same namespace; the webhook is registered if and only if it is not switched off.\<close>

theorem startup_gate:
  assumes "emitted (main S) [] = pre @ StStart x # post"
  shows "let f = sParseFlags S (defaultFlags S)
    in typesAdded pre \<and> loggersSet pre \<and> managerMade f (namespaceOf f) pre \<and>
       controllerMade S (namespaceOf f) (nodeNameOf S) pre \<and> namespaceOf f \<noteq> ''''"
proof -
  have "guarded (startGate S) [] (emitted (main S) [])"
    by (rule tripleD(1) [OF booting_main]) (simp add: noWebhook_def)
  with assms show ?thesis by (auto simp: guarded_append startGate_def Let_def namespaceOf_def)
qed

definition sampleSys :: "(string, string \<times> zapLevel) sys" where
  "sampleSys = \<lparr>sEnv = sampleEnv, sZap = plainZap, sKoanf = sampleKoanf, sFiles = threeFiles,
     sLoadDefault = Inr '''', sGetenv = (\<lambda>v. if v = ''POD_NAMESPACE'' then ''drain'' else if v = ''POD_NODENAME'' then ''n1'' else ''''),
     sParseFlags = (\<lambda>f. f\<lparr>webhookCertPath := ''/certs''\<rparr>), sAddToScheme = (\<lambda>s. Inr ()),
     sCertWatcher = (\<lambda>c k. Inr ()), sNewManager = (\<lambda>p. Inr ()), sIndexField = (\<lambda>i. Inr ()),
     sCompleteController = Inr (), sCompleteWebhook = Inr (), sAddRunnable = (\<lambda>n. Inr ()),
     sAddHealthz = Inr (), sAddReadyz = Inr (), sStart = Inr ()\<rparr>"

theorem startup_gate_witness:
  "\<exists>pre. emitted (main sampleSys) [] = pre @ [StStart (Inr ())] \<and> namespaceOf (defaultFlags sampleSys) = ''drain'' \<and>
     typesAdded pre \<and> loggersSet pre \<and> managerMade (sParseFlags sampleSys (defaultFlags sampleSys)) ''drain'' pre \<and> controllerMade sampleSys ''drain'' ''n1'' pre"
proof -
  let ?t = "emitted (main sampleSys) []"
  have "?t = butlast ?t @ StStart (Inr ()) # []" by code_simp
  moreover have "namespaceOf (sParseFlags sampleSys (defaultFlags sampleSys)) = ''drain''"
    "namespaceOf (defaultFlags sampleSys) = ''drain''" "nodeNameOf sampleSys = ''n1''" by code_simp+
  ultimately show ?thesis using startup_gate [of sampleSys "butlast ?t" "Inr ()" "[]"] by (auto simp: Let_def)
qed

end
