(* ===== verification/Deep_Copy.thy ===== *)
theory Deep_Copy
  imports Node_Types
begin

text \<open>
  \<open>src/api/v1/zz_generated.deepcopy.go\<close> on an explicit heap. Everywhere else the model treats objects as
  values; in Go they are structs with pointers and slices, and the old side of every merge patch is a
  \<open>DeepCopy\<close> taken before the object is changed. Here the objects are as they lie in memory, and the
  contract \<open>deep_copier\<close> says what makes the value model right: the copy has the same value and shares no
  memory with the original. The deep copies of \<open>metav1.ObjectMeta\<close> and \<open>metav1.ListMeta\<close> are parameters that
  obey the same contract.
\<close>

section \<open>Memory\<close>

text \<open>A heap is the list of the cells allocated so far; an address is a position in it. \<open>nil\<close> is \<open>None\<close>.\<close>

type_synonym addr = nat

definition lookup :: "'c list \<Rightarrow> addr \<Rightarrow> 'c option" where
  "lookup h a = (if a < length h then Some (h ! a) else None)"

record memCondition =
  mcType :: string
  mcStatus :: string
  mcObservedGeneration :: int
  mcLastTransitionTime :: int
  mcReason :: string
  mcMessage :: string
  mcLastCheckTime :: "addr option"

record memStatus =
  msConditions :: "addr option"
  msRebootRequiredLastChecked :: "addr option"
  msRebootRequired :: "addr option"
  msDrained :: bool
  msCurrentState :: NodeCurrentState
  msBootID :: string

record 'm memNode =
  mnTypeMeta :: "string \<times> string"
  mnObjectMeta :: 'm
  mnSpec :: NodeSpec
  mnStatus :: memStatus

record 'l memNodeList =
  mlTypeMeta :: "string \<times> string"
  mlListMeta :: 'l
  mlItems :: "addr option"

datatype ('m, 'l, 'c) cell =
    TimeCell int
  | BoolCell bool
  | CondCells "memCondition list"
  | NodeCells "'m memNode list"
  | CondCell memCondition
  | SpecCell NodeSpec
  | StatusCell memStatus
  | NodeCell "'m memNode"
  | ListCell "'l memNodeList"
  | OtherCell 'c

type_synonym ('m, 'l, 'c) heap = "('m, 'l, 'c) cell list"

text \<open>An operation that copies; \<open>None\<close> when it follows a pointer to nowhere.\<close>

type_synonym ('x, 'c) copier = "'x \<Rightarrow> 'c list \<Rightarrow> ('x \<times> 'c list) option"

section \<open>The contract\<close>

locale deep_copier =
  fixes copy :: "'x \<Rightarrow> 'c list \<Rightarrow> ('x \<times> 'c list) option"
    and val :: "'c list \<Rightarrow> 'x \<Rightarrow> 'v option"
    and refs :: "'c list \<Rightarrow> 'x \<Rightarrow> addr set"
  assumes copies: "val h x = Some v \<Longrightarrow> \<exists>y e. copy x h = Some (y, h @ e) \<and> val (h @ e) y = Some v \<and>
        refs (h @ e) y \<subseteq> {length h ..< length (h @ e)}"
    and footprint: "val h x = Some v \<Longrightarrow> (\<forall>a \<in> refs h x. lookup h' a = lookup h a) \<Longrightarrow>
        val h' x = Some v \<and> refs h' x = refs h x"
    and inside: "val h x = Some v \<Longrightarrow> refs h x \<subseteq> {..< length h}"
begin

lemma extend: "val h x = Some v \<Longrightarrow> val (h @ e) x = Some v \<and> refs (h @ e) x = refs h x"
  by (rule footprint) (use inside in \<open>auto simp: lookup_def nth_append\<close>)

text \<open>Whatever is written through the copy leaves the original as it was, and the other way round.\<close>

lemma independent:
  assumes "val h x = Some v"
  shows "\<exists>y h'. copy x h = Some (y, h') \<and> val h' y = Some v \<and>
    (\<forall>h''. (\<forall>a < length h'. a \<notin> refs h' y \<longrightarrow> lookup h'' a = lookup h' a) \<longrightarrow> val h'' x = Some v) \<and>
    (\<forall>h''. (\<forall>a < length h'. a \<notin> refs h' x \<longrightarrow> lookup h'' a = lookup h' a) \<longrightarrow> val h'' y = Some v)"
proof -
  from copies [OF assms] obtain y e where c: "copy x h = Some (y, h @ e)" "val (h @ e) y = Some v"
    "refs (h @ e) y \<subseteq> {length h ..< length (h @ e)}" by blast
  from extend [OF assms] have x: "val (h @ e) x = Some v" "refs (h @ e) x = refs h x" by auto
  have apart: "refs (h @ e) x \<inter> refs (h @ e) y = {}" using c(3) x(2) inside [OF assms] by fastforce
  have "val h'' x = Some v" if "\<forall>a < length (h @ e). a \<notin> refs (h @ e) y \<longrightarrow> lookup h'' a = lookup (h @ e) a" for h''
    using footprint [OF x(1)] inside [OF x(1)] apart that by blast
  moreover have "val h'' y = Some v" if "\<forall>a < length (h @ e). a \<notin> refs (h @ e) x \<longrightarrow> lookup h'' a = lookup (h @ e) a" for h''
    using footprint [OF c(2)] inside [OF c(2)] apart that by blast
  ultimately show ?thesis using c by blast
qed

end

section \<open>Building blocks\<close>

text \<open>Go assigns plain data, allocates a new cell for what a pointer or slice refers to, and loops over the
  elements of a slice. Each way of building a copy keeps the contract.\<close>

definition copyFlat :: "('x, 'c) copier" where
  "copyFlat x h = Some (x, h)"

definition copyPtr :: "('c \<Rightarrow> 'x option) \<Rightarrow> ('x \<Rightarrow> 'c) \<Rightarrow> ('x, 'c) copier \<Rightarrow> (addr option, 'c) copier" where
  "copyPtr get mk into p h =
     (case p of
        None \<Rightarrow> Some (None, h)
      | Some a \<Rightarrow>
          Option.bind (Option.bind (lookup h a) get) (\<lambda>x.
          Option.bind (into x h) (\<lambda>(y, h1). Some (Some (length h1), h1 @ [mk y]))))"

fun copyAll :: "('x, 'c) copier \<Rightarrow> ('x list, 'c) copier" where
  "copyAll into [] h = Some ([], h)"
| "copyAll into (x # xs) h =
     Option.bind (into x h) (\<lambda>(y, h1).
     Option.bind (copyAll into xs h1) (\<lambda>(ys, h2). Some (y # ys, h2)))"

text \<open>Values and footprints of these blocks.\<close>

definition valPtr :: "('c \<Rightarrow> 'x option) \<Rightarrow> ('c list \<Rightarrow> 'x \<Rightarrow> 'v option) \<Rightarrow> 'c list \<Rightarrow> addr option \<Rightarrow> 'v option option" where
  "valPtr get val h p =
     (case p of
        None \<Rightarrow> Some None
      | Some a \<Rightarrow> Option.bind (Option.bind (lookup h a) get) (\<lambda>x. map_option Some (val h x)))"

definition refsPtr :: "('c \<Rightarrow> 'x option) \<Rightarrow> ('c list \<Rightarrow> 'x \<Rightarrow> addr set) \<Rightarrow> 'c list \<Rightarrow> addr option \<Rightarrow> addr set" where
  "refsPtr get refs h p =
     (case p of
        None \<Rightarrow> {}
      | Some a \<Rightarrow> insert a (case Option.bind (lookup h a) get of None \<Rightarrow> {} | Some x \<Rightarrow> refs h x))"

fun valAll :: "('c list \<Rightarrow> 'x \<Rightarrow> 'v option) \<Rightarrow> 'c list \<Rightarrow> 'x list \<Rightarrow> 'v list option" where
  "valAll val h [] = Some []"
| "valAll val h (x # xs) = Option.bind (val h x) (\<lambda>v. map_option ((#) v) (valAll val h xs))"

definition refsAll :: "('c list \<Rightarrow> 'x \<Rightarrow> addr set) \<Rightarrow> 'c list \<Rightarrow> 'x list \<Rightarrow> addr set" where
  "refsAll refs h xs = (\<Union>x \<in> set xs. refs h x)"

definition copyPair :: "('x, 'c) copier \<Rightarrow> ('y, 'c) copier \<Rightarrow> ('x \<times> 'y, 'c) copier" where
  "copyPair c d p h =
     Option.bind (c (fst p) h) (\<lambda>(x, h1). Option.bind (d (snd p) h1) (\<lambda>(y, h2). Some ((x, y), h2)))"

definition valPair :: "('c list \<Rightarrow> 'x \<Rightarrow> 'v option) \<Rightarrow> ('c list \<Rightarrow> 'y \<Rightarrow> 'w option) \<Rightarrow> 'c list \<Rightarrow> 'x \<times> 'y \<Rightarrow> ('v \<times> 'w) option" where
  "valPair val wal h p = Option.bind (val h (fst p)) (\<lambda>v. map_option (Pair v) (wal h (snd p)))"

definition refsPair :: "('c list \<Rightarrow> 'x \<Rightarrow> addr set) \<Rightarrow> ('c list \<Rightarrow> 'y \<Rightarrow> addr set) \<Rightarrow> 'c list \<Rightarrow> 'x \<times> 'y \<Rightarrow> addr set" where
  "refsPair refs sefs h p = refs h (fst p) \<union> sefs h (snd p)"

lemma copier_flat: "deep_copier copyFlat (\<lambda>h x. Some (f x)) (\<lambda>h x. {})"
  by unfold_locales (auto simp: copyFlat_def)

lemma copier_pair:
  assumes "deep_copier c val refs" and "deep_copier d wal sefs"
  shows "deep_copier (copyPair c d) (valPair val wal) (refsPair refs sefs)"
proof
  fix h p v assume "valPair val wal h p = Some v"
  then obtain v1 v2 where v: "val h (fst p) = Some v1" "wal h (snd p) = Some v2" "v = (v1, v2)"
    by (auto simp: valPair_def bind_eq_Some_conv)
  from deep_copier.copies [OF assms(1) v(1)] obtain x e where x: "c (fst p) h = Some (x, h @ e)"
    "val (h @ e) x = Some v1" "refs (h @ e) x \<subseteq> {length h ..< length (h @ e)}" by blast
  from deep_copier.extend [OF assms(2) v(2)] have "wal (h @ e) (snd p) = Some v2" by blast
  from deep_copier.copies [OF assms(2) this] obtain y e' where y: "d (snd p) (h @ e) = Some (y, (h @ e) @ e')"
    "wal ((h @ e) @ e') y = Some v2" "sefs ((h @ e) @ e') y \<subseteq> {length (h @ e) ..< length ((h @ e) @ e')}" by blast
  from deep_copier.extend [OF assms(1) x(2)] x(3) y v(3) x(1)
  show "\<exists>y e. copyPair c d p h = Some (y, h @ e) \<and> valPair val wal (h @ e) y = Some v \<and>
      refsPair refs sefs (h @ e) y \<subseteq> {length h ..< length (h @ e)}"
    by (intro exI [of _ "(x, y)"] exI [of _ "e @ e'"]) (fastforce simp: copyPair_def valPair_def refsPair_def)
next
  fix h p v h' assume "valPair val wal h p = Some v" and "\<forall>a \<in> refsPair refs sefs h p. lookup h' a = lookup h a"
  then show "valPair val wal h' p = Some v \<and> refsPair refs sefs h' p = refsPair refs sefs h p"
    using deep_copier.footprint [OF assms(1), of h "fst p" _ h'] deep_copier.footprint [OF assms(2), of h "snd p" _ h']
    by (auto simp: valPair_def refsPair_def bind_eq_Some_conv)
next
  fix h p v assume "valPair val wal h p = Some v"
  then show "refsPair refs sefs h p \<subseteq> {..< length h}"
    using deep_copier.inside [OF assms(1), of h "fst p"] deep_copier.inside [OF assms(2), of h "snd p"]
    by (auto simp: valPair_def refsPair_def bind_eq_Some_conv)
qed

lemma copier_ptr:
  assumes "deep_copier into val refs" and get: "\<And>x. get (mk x) = Some x"
  shows "deep_copier (copyPtr get mk into) (valPtr get val) (refsPtr get refs)"
proof
  fix h p v assume v: "valPtr get val h p = Some v"
  show "\<exists>q e. copyPtr get mk into p h = Some (q, h @ e) \<and> valPtr get val (h @ e) q = Some v \<and>
      refsPtr get refs (h @ e) q \<subseteq> {length h ..< length (h @ e)}"
  proof (cases p)
    case (Some a)
    with v obtain c x w where x: "lookup h a = Some c" "get c = Some x" "val h x = Some w" "v = Some w"
      by (auto simp: valPtr_def bind_eq_Some_conv)
    from deep_copier.copies [OF assms(1) x(3)] obtain y e where y: "into x h = Some (y, h @ e)"
      "val (h @ e) y = Some w" "refs (h @ e) y \<subseteq> {length h ..< length (h @ e)}" by blast
    have "lookup (h @ e @ [mk y]) (length h + length e) = Some (mk y)" by (simp add: lookup_def nth_append)
    with deep_copier.extend [OF assms(1) y(2), of "[mk y]"] Some x y get show ?thesis
      by (intro exI [of _ "Some (length (h @ e))"] exI [of _ "e @ [mk y]"]) (auto simp: copyPtr_def valPtr_def refsPtr_def)
  qed (use v in \<open>auto simp: copyPtr_def valPtr_def refsPtr_def intro: exI [of _ "[]"]\<close>)
next
  fix h p v h' assume "valPtr get val h p = Some v" and "\<forall>a \<in> refsPtr get refs h p. lookup h' a = lookup h a"
  then show "valPtr get val h' p = Some v \<and> refsPtr get refs h' p = refsPtr get refs h p"
    using deep_copier.footprint [OF assms(1), of h _ _ h']
    by (cases p) (auto simp: valPtr_def refsPtr_def bind_eq_Some_conv)
next
  fix h p v assume "valPtr get val h p = Some v"
  then show "refsPtr get refs h p \<subseteq> {..< length h}"
    using deep_copier.inside [OF assms(1), of h, THEN subsetD]
    by (cases p) (auto simp: valPtr_def refsPtr_def bind_eq_Some_conv lookup_def split: if_splits)
qed

lemma copier_all:
  assumes "deep_copier into val refs"
  shows "deep_copier (copyAll into) (valAll val) (refsAll refs)"
proof
  fix h xs vs assume "valAll val h xs = Some vs"
  then show "\<exists>ys e. copyAll into xs h = Some (ys, h @ e) \<and> valAll val (h @ e) ys = Some vs \<and>
      refsAll refs (h @ e) ys \<subseteq> {length h ..< length (h @ e)}"
  proof (induction xs arbitrary: h vs)
    case (Cons x xs)
    then obtain v ws where v: "val h x = Some v" "valAll val h xs = Some ws" "vs = v # ws"
      by (auto simp: bind_eq_Some_conv)
    from deep_copier.copies [OF assms v(1)] obtain y e where y: "into x h = Some (y, h @ e)"
      "val (h @ e) y = Some v" "refs (h @ e) y \<subseteq> {length h ..< length (h @ e)}" by blast
    have "valAll val (h @ e) xs = Some ws" using v(2) deep_copier.extend [OF assms, of h _ _ e]
      by (induction xs arbitrary: ws) (auto simp: bind_eq_Some_conv)
    from Cons.IH [OF this] obtain ys e' where ys: "copyAll into xs (h @ e) = Some (ys, (h @ e) @ e')"
      "valAll val ((h @ e) @ e') ys = Some ws" "refsAll refs ((h @ e) @ e') ys \<subseteq> {length (h @ e) ..< length ((h @ e) @ e')}"
      by blast
    with deep_copier.extend [OF assms y(2), of e'] y v(3) show ?case
      by (intro exI [of _ "y # ys"] exI [of _ "e @ e'"]) (fastforce simp: refsAll_def)
  qed (auto simp: refsAll_def intro: exI [of _ "[]"])
next
  fix h xs vs h' assume "valAll val h xs = Some vs" and "\<forall>a \<in> refsAll refs h xs. lookup h' a = lookup h a"
  then show "valAll val h' xs = Some vs \<and> refsAll refs h' xs = refsAll refs h xs"
  proof (induction xs arbitrary: vs)
    case (Cons x xs)
    then obtain v ws where v: "val h x = Some v" "valAll val h xs = Some ws" "vs = v # ws"
      by (auto simp: bind_eq_Some_conv)
    have "\<forall>a \<in> refs h x. lookup h' a = lookup h a" "\<forall>a \<in> refsAll refs h xs. lookup h' a = lookup h a"
      using Cons.prems(2) unfolding refsAll_def by force+
    from deep_copier.footprint [OF assms v(1) this(1)] Cons.IH [OF v(2) this(2)] v(3) show ?case by (simp add: refsAll_def)
  qed (simp add: refsAll_def)
next
  fix h xs vs assume "valAll val h xs = Some vs"
  then show "refsAll refs h xs \<subseteq> {..< length h}"
  proof (induction xs arbitrary: vs)
    case (Cons x xs)
    then obtain v ws where "val h x = Some v" "valAll val h xs = Some ws" by (auto simp: bind_eq_Some_conv)
    from deep_copier.inside [OF assms this(1)] Cons.IH [OF this(2)] show ?case by (simp add: refsAll_def)
  qed (simp add: refsAll_def)
qed

text \<open>A struct: \<open>*out = *in\<close>, then the fields that refer to memory are replaced by their copies.\<close>

lemma copier_struct:
  assumes "deep_copier into val refs"
    and "\<And>x s. get (put x s) = x" and "\<And>x s v. build (put x s) v = build s v"
    and "\<And>s h. copy s h = map_option (\<lambda>(x, h1). (put x s, h1)) (into (get s) h)"
    and "\<And>h s. wal h s = map_option (build s) (val h (get s))" and "\<And>h s. sefs h s = refs h (get s)"
  shows "deep_copier copy wal sefs"
proof
  fix h s w assume "wal h s = Some w"
  then obtain v where "val h (get s) = Some v" "w = build s v" by (auto simp: assms(5))
  with deep_copier.copies [OF assms(1), of h "get s" v]
  show "\<exists>y e. copy s h = Some (y, h @ e) \<and> wal (h @ e) y = Some w \<and> sefs (h @ e) y \<subseteq> {length h ..< length (h @ e)}"
    by (auto simp: assms(2-6))
next
  fix h s w h' assume "wal h s = Some w" "\<forall>a \<in> sefs h s. lookup h' a = lookup h a"
  then show "wal h' s = Some w \<and> sefs h' s = sefs h s"
    using deep_copier.footprint [OF assms(1), of h "get s" _ h'] by (auto simp: assms(5,6))
next
  fix h s w assume "wal h s = Some w"
  then show "sefs h s \<subseteq> {..< length h}"
    using deep_copier.inside [OF assms(1), of h "get s"] by (auto simp: assms(5,6))
qed

section \<open>The generated operations\<close>

fun getTime :: "('m, 'l, 'c) cell \<Rightarrow> int option" where
  "getTime (TimeCell t) = Some t" | "getTime _ = None"

fun getBool :: "('m, 'l, 'c) cell \<Rightarrow> bool option" where
  "getBool (BoolCell b) = Some b" | "getBool _ = None"

fun getConds :: "('m, 'l, 'c) cell \<Rightarrow> memCondition list option" where
  "getConds (CondCells cs) = Some cs" | "getConds _ = None"

fun getNodes :: "('m, 'l, 'c) cell \<Rightarrow> 'm memNode list option" where
  "getNodes (NodeCells ns) = Some ns" | "getNodes _ = None"

fun getCond :: "('m, 'l, 'c) cell \<Rightarrow> memCondition option" where
  "getCond (CondCell c) = Some c" | "getCond _ = None"

fun getSpec :: "('m, 'l, 'c) cell \<Rightarrow> NodeSpec option" where
  "getSpec (SpecCell s) = Some s" | "getSpec _ = None"

fun getStatus :: "('m, 'l, 'c) cell \<Rightarrow> memStatus option" where
  "getStatus (StatusCell s) = Some s" | "getStatus _ = None"

fun getNodeCell :: "('m, 'l, 'c) cell \<Rightarrow> 'm memNode option" where
  "getNodeCell (NodeCell n) = Some n" | "getNodeCell _ = None"

fun getList :: "('m, 'l, 'c) cell \<Rightarrow> 'l memNodeList option" where
  "getList (ListCell l) = Some l" | "getList _ = None"

text \<open>\<open>metav1.Time\<close> is modelled as plain data, so its \<open>DeepCopy\<close> is a new cell with the same time; of
  \<open>metav1.Condition\<close> all fields are plain.\<close>

definition Time_DeepCopy :: "(addr option, ('m, 'l, 'c) cell) copier" where
  "Time_DeepCopy = copyPtr getTime TimeCell copyFlat"

definition Condition_DeepCopyInto :: "(memCondition, ('m, 'l, 'c) cell) copier" where
  "Condition_DeepCopyInto x h =
     Option.bind (Time_DeepCopy (mcLastCheckTime x) h) (\<lambda>(t, h1). Some (x\<lparr>mcLastCheckTime := t\<rparr>, h1))"

definition Condition_DeepCopy :: "(addr option, ('m, 'l, 'c) cell) copier" where
  "Condition_DeepCopy = copyPtr getCond CondCell Condition_DeepCopyInto"

definition NodeSpec_DeepCopyInto :: "(NodeSpec, ('m, 'l, 'c) cell) copier" where
  "NodeSpec_DeepCopyInto = copyFlat"

definition NodeSpec_DeepCopy :: "(addr option, ('m, 'l, 'c) cell) copier" where
  "NodeSpec_DeepCopy = copyPtr getSpec SpecCell NodeSpec_DeepCopyInto"

definition NodeStatus_DeepCopyInto :: "(memStatus, ('m, 'l, 'c) cell) copier" where
  "NodeStatus_DeepCopyInto x h =
     Option.bind (copyPtr getConds CondCells (copyAll Condition_DeepCopyInto) (msConditions x) h) (\<lambda>(cs, h1).
     Option.bind (Time_DeepCopy (msRebootRequiredLastChecked x) h1) (\<lambda>(t, h2).
     Option.bind (copyPtr getBool BoolCell copyFlat (msRebootRequired x) h2) (\<lambda>(b, h3).
     Some (x\<lparr>msConditions := cs, msRebootRequiredLastChecked := t, msRebootRequired := b\<rparr>, h3))))"

definition NodeStatus_DeepCopy :: "(addr option, ('m, 'l, 'c) cell) copier" where
  "NodeStatus_DeepCopy = copyPtr getStatus StatusCell NodeStatus_DeepCopyInto"

definition Node_DeepCopyInto :: "('m, ('m, 'l, 'c) cell) copier \<Rightarrow> ('m memNode, ('m, 'l, 'c) cell) copier" where
  "Node_DeepCopyInto metaInto x h =
     Option.bind (metaInto (mnObjectMeta x) h) (\<lambda>(m, h1).
     Option.bind (NodeStatus_DeepCopyInto (mnStatus x) h1) (\<lambda>(s, h2).
     Some (x\<lparr>mnObjectMeta := m, mnStatus := s\<rparr>, h2)))"

definition Node_DeepCopy :: "('m, ('m, 'l, 'c) cell) copier \<Rightarrow> (addr option, ('m, 'l, 'c) cell) copier" where
  "Node_DeepCopy metaInto = copyPtr getNodeCell NodeCell (Node_DeepCopyInto metaInto)"

definition NodeList_DeepCopyInto ::
  "('m, ('m, 'l, 'c) cell) copier \<Rightarrow> ('l, ('m, 'l, 'c) cell) copier \<Rightarrow> ('l memNodeList, ('m, 'l, 'c) cell) copier" where
  "NodeList_DeepCopyInto metaInto listInto x h =
     Option.bind (listInto (mlListMeta x) h) (\<lambda>(m, h1).
     Option.bind (copyPtr getNodes NodeCells (copyAll (Node_DeepCopyInto metaInto)) (mlItems x) h1) (\<lambda>(i, h2).
     Some (x\<lparr>mlListMeta := m, mlItems := i\<rparr>, h2)))"

definition NodeList_DeepCopy ::
  "('m, ('m, 'l, 'c) cell) copier \<Rightarrow> ('l, ('m, 'l, 'c) cell) copier \<Rightarrow> (addr option, ('m, 'l, 'c) cell) copier" where
  "NodeList_DeepCopy metaInto listInto = copyPtr getList ListCell (NodeList_DeepCopyInto metaInto listInto)"

text \<open>\<open>DeepCopyObject\<close>: a nil copy becomes the nil interface, anything else is wrapped.\<close>

datatype object = NilObject | NodeObjectAt addr | NodeListAt addr

definition Node_DeepCopyObject ::
  "('m, ('m, 'l, 'c) cell) copier \<Rightarrow> addr option \<Rightarrow> ('m, 'l, 'c) heap \<Rightarrow> (object \<times> ('m, 'l, 'c) heap) option" where
  "Node_DeepCopyObject metaInto p h =
     Option.bind (Node_DeepCopy metaInto p h) (\<lambda>(c, h1).
     case c of Some a \<Rightarrow> Some (NodeObjectAt a, h1) | None \<Rightarrow> Some (NilObject, h1))"

definition NodeList_DeepCopyObject ::
  "('m, ('m, 'l, 'c) cell) copier \<Rightarrow> ('l, ('m, 'l, 'c) cell) copier \<Rightarrow> addr option \<Rightarrow> ('m, 'l, 'c) heap \<Rightarrow>
     (object \<times> ('m, 'l, 'c) heap) option" where
  "NodeList_DeepCopyObject metaInto listInto p h =
     Option.bind (NodeList_DeepCopy metaInto listInto p h) (\<lambda>(c, h1).
     case c of Some a \<Rightarrow> Some (NodeListAt a, h1) | None \<Rightarrow> Some (NilObject, h1))"

section \<open>Values\<close>

text \<open>What an object in memory denotes: the records the rest of the model uses. The metadata keeps the value its
  own reading gives it.\<close>

abbreviation timeVal :: "('m, 'l, 'c) heap \<Rightarrow> addr option \<Rightarrow> int option option" where
  "timeVal \<equiv> valPtr getTime (\<lambda>h t. Some t)"

abbreviation timeRefs :: "('m, 'l, 'c) heap \<Rightarrow> addr option \<Rightarrow> addr set" where
  "timeRefs \<equiv> refsPtr getTime (\<lambda>h t. {})"

definition conditionVal :: "('m, 'l, 'c) heap \<Rightarrow> memCondition \<Rightarrow> Condition option" where
  "conditionVal h x = map_option (\<lambda>t. \<lparr>cdType = mcType x, cdStatus = mcStatus x, cdObservedGeneration = mcObservedGeneration x,
     cdLastTransitionTime = mcLastTransitionTime x, cdReason = mcReason x, cdMessage = mcMessage x, LastCheckTime = t\<rparr>)
     (timeVal h (mcLastCheckTime x))"

definition conditionRefs :: "('m, 'l, 'c) heap \<Rightarrow> memCondition \<Rightarrow> addr set" where
  "conditionRefs h x = timeRefs h (mcLastCheckTime x)"

definition statusFields :: "memStatus \<Rightarrow> addr option \<times> addr option \<times> addr option" where
  "statusFields x = (msConditions x, msRebootRequiredLastChecked x, msRebootRequired x)"

text \<open>Of the conditions it matters whether the slice is nil or empty, which the record does not say; the value has
  both.\<close>

definition statusVal :: "('m, 'l, 'c) heap \<Rightarrow> memStatus \<Rightarrow> (bool \<times> NodeStatus) option" where
  "statusVal h x = map_option (\<lambda>(cs, t, b). (cs = None, \<lparr>Conditions = (case cs of None \<Rightarrow> [] | Some l \<Rightarrow> l),
     RebootRequiredLastChecked = t, RebootRequired = b, Drained = msDrained x, CurrentState = msCurrentState x, BootID = msBootID x\<rparr>))
     (valPair (valPtr getConds (valAll conditionVal)) (valPair timeVal (valPtr getBool (\<lambda>h b. Some b))) h (statusFields x))"

definition statusRefs :: "('m, 'l, 'c) heap \<Rightarrow> memStatus \<Rightarrow> addr set" where
  "statusRefs h x = refsPair (refsPtr getConds (refsAll conditionRefs))
     (refsPair timeRefs (refsPtr getBool (\<lambda>h b. {}))) h (statusFields x)"

type_synonym 'v nodeValue = "(string \<times> string) \<times> 'v \<times> NodeSpec \<times> bool \<times> NodeStatus"

definition nodeVal :: "(('m, 'l, 'c) heap \<Rightarrow> 'm \<Rightarrow> 'v option) \<Rightarrow> ('m, 'l, 'c) heap \<Rightarrow> 'm memNode \<Rightarrow> 'v nodeValue option" where
  "nodeVal metaVal h x = map_option (\<lambda>(m, s). (mnTypeMeta x, m, mnSpec x, s))
     (valPair metaVal statusVal h (mnObjectMeta x, mnStatus x))"

definition nodeRefs :: "(('m, 'l, 'c) heap \<Rightarrow> 'm \<Rightarrow> addr set) \<Rightarrow> ('m, 'l, 'c) heap \<Rightarrow> 'm memNode \<Rightarrow> addr set" where
  "nodeRefs metaRefs h x = refsPair metaRefs statusRefs h (mnObjectMeta x, mnStatus x)"

definition listVal :: "(('m, 'l, 'c) heap \<Rightarrow> 'm \<Rightarrow> 'v option) \<Rightarrow> (('m, 'l, 'c) heap \<Rightarrow> 'l \<Rightarrow> 'w option) \<Rightarrow>
    ('m, 'l, 'c) heap \<Rightarrow> 'l memNodeList \<Rightarrow> ((string \<times> string) \<times> 'w \<times> 'v nodeValue list option) option" where
  "listVal metaVal lmVal h x = map_option (\<lambda>(m, i). (mlTypeMeta x, m, i))
     (valPair lmVal (valPtr getNodes (valAll (nodeVal metaVal))) h (mlListMeta x, mlItems x))"

definition listRefs :: "(('m, 'l, 'c) heap \<Rightarrow> 'm \<Rightarrow> addr set) \<Rightarrow> (('m, 'l, 'c) heap \<Rightarrow> 'l \<Rightarrow> addr set) \<Rightarrow>
    ('m, 'l, 'c) heap \<Rightarrow> 'l memNodeList \<Rightarrow> addr set" where
  "listRefs metaRefs lmRefs h x =
     refsPair lmRefs (refsPtr getNodes (refsAll (nodeRefs metaRefs))) h (mlListMeta x, mlItems x)"

section \<open>The generated operations are deep copies\<close>

lemma time_copier: "deep_copier Time_DeepCopy timeVal timeRefs"
  unfolding Time_DeepCopy_def by (rule copier_ptr [OF copier_flat [where f = "\<lambda>t. t"]]) simp

lemma bind_case_map: "Option.bind x (\<lambda>(a, b). Some (f a b)) = map_option (\<lambda>(a, b). (f a b)) x"
  by (cases x) auto

interpretation condition: deep_copier Condition_DeepCopyInto conditionVal conditionRefs
  by (rule copier_struct [OF time_copier, where get = mcLastCheckTime and put = "\<lambda>t s. s\<lparr>mcLastCheckTime := t\<rparr>" and
        build = "\<lambda>x t. \<lparr>cdType = mcType x, cdStatus = mcStatus x, cdObservedGeneration = mcObservedGeneration x,
          cdLastTransitionTime = mcLastTransitionTime x, cdReason = mcReason x, cdMessage = mcMessage x, LastCheckTime = t\<rparr>"])
     (simp_all add: Condition_DeepCopyInto_def conditionVal_def conditionRefs_def bind_case_map)

interpretation status: deep_copier NodeStatus_DeepCopyInto statusVal statusRefs
proof (rule copier_struct [where get = statusFields and
      put = "\<lambda>(c, t, b) s. s\<lparr>msConditions := c, msRebootRequiredLastChecked := t, msRebootRequired := b\<rparr>"])
  show "deep_copier (copyPair (copyPtr getConds CondCells (copyAll Condition_DeepCopyInto))
      (copyPair Time_DeepCopy (copyPtr getBool BoolCell copyFlat)))
    (valPair (valPtr getConds (valAll conditionVal)) (valPair timeVal (valPtr getBool (\<lambda>h b. Some b))))
    (refsPair (refsPtr getConds (refsAll conditionRefs)) (refsPair timeRefs (refsPtr getBool (\<lambda>h b. {}))))"
    by (intro copier_pair copier_ptr copier_all condition.deep_copier_axioms time_copier copier_flat) simp_all
qed (auto simp: statusFields_def statusVal_def statusRefs_def NodeStatus_DeepCopyInto_def copyPair_def fun_eq_iff
    split: Option.bind_split prod.splits)

lemma node_copier:
  assumes "deep_copier metaInto metaVal metaRefs"
  shows "deep_copier (Node_DeepCopyInto metaInto) (nodeVal metaVal) (nodeRefs metaRefs)"
proof (rule copier_struct [OF copier_pair [OF assms status.deep_copier_axioms], where get = "\<lambda>x. (mnObjectMeta x, mnStatus x)" and
      put = "\<lambda>(m, s) x. x\<lparr>mnObjectMeta := m, mnStatus := s\<rparr>" and build = "\<lambda>x (m, s). (mnTypeMeta x, m, mnSpec x, s)"])
qed (auto simp: nodeVal_def nodeRefs_def Node_DeepCopyInto_def copyPair_def split: Option.bind_split prod.splits)

lemma list_copier:
  assumes "deep_copier metaInto metaVal metaRefs" and "deep_copier listInto lmVal lmRefs"
  shows "deep_copier (NodeList_DeepCopyInto metaInto listInto) (listVal metaVal lmVal) (listRefs metaRefs lmRefs)"
proof (rule copier_struct [where get = "\<lambda>x. (mlListMeta x, mlItems x)" and
      put = "\<lambda>(m, i) x. x\<lparr>mlListMeta := m, mlItems := i\<rparr>" and build = "\<lambda>x (m, i). (mlTypeMeta x, m, i)"])
  show "deep_copier (copyPair listInto (copyPtr getNodes NodeCells (copyAll (Node_DeepCopyInto metaInto))))
      (valPair lmVal (valPtr getNodes (valAll (nodeVal metaVal)))) (refsPair lmRefs (refsPtr getNodes (refsAll (nodeRefs metaRefs))))"
    by (intro copier_pair copier_ptr copier_all node_copier assms) simp
qed (auto simp: listVal_def listRefs_def NodeList_DeepCopyInto_def copyPair_def split: Option.bind_split prod.splits)

text \<open>The same behind a pointer.\<close>

interpretation conditionAt: deep_copier Condition_DeepCopy "valPtr getCond conditionVal" "refsPtr getCond conditionRefs"
  unfolding Condition_DeepCopy_def by (rule copier_ptr [OF condition.deep_copier_axioms]) simp

interpretation specAt: deep_copier NodeSpec_DeepCopy "valPtr getSpec (\<lambda>h s. Some s)" "refsPtr getSpec (\<lambda>h s. {})"
  unfolding NodeSpec_DeepCopy_def NodeSpec_DeepCopyInto_def by (rule copier_ptr [OF copier_flat]) simp

interpretation statusAt: deep_copier NodeStatus_DeepCopy "valPtr getStatus statusVal" "refsPtr getStatus statusRefs"
  unfolding NodeStatus_DeepCopy_def by (rule copier_ptr [OF status.deep_copier_axioms]) simp

lemma nodeAt_copier:
  "deep_copier metaInto metaVal metaRefs \<Longrightarrow>
   deep_copier (Node_DeepCopy metaInto) (valPtr getNodeCell (nodeVal metaVal)) (refsPtr getNodeCell (nodeRefs metaRefs))"
  unfolding Node_DeepCopy_def by (rule copier_ptr [OF node_copier]) simp_all

lemma listAt_copier:
  "deep_copier metaInto metaVal metaRefs \<Longrightarrow> deep_copier listInto lmVal lmRefs \<Longrightarrow>
   deep_copier (NodeList_DeepCopy metaInto listInto) (valPtr getList (listVal metaVal lmVal)) (refsPtr getList (listRefs metaRefs lmRefs))"
  unfolding NodeList_DeepCopy_def by (rule copier_ptr [OF list_copier]) simp_all

text \<open>C30. Copies are deep. \<open>DeepCopy\<close> of a node that is well formed in memory returns a pointer to a node with
  the same value (a nil slice of conditions stays nil and an empty one stays empty), and whatever is written afterwards to cells of the copy, or allocated, leaves the value of the
  original as it was, and the same with copy and original exchanged: so the old side of a merge patch is the
  object before the change. The deep copy of the object's metadata is assumed to obey the same contract.\<close>

theorem deep_copy:
  assumes "deep_copier metaInto metaVal metaRefs"
    and "valPtr getNodeCell (nodeVal metaVal) h p = Some v"
  shows "\<exists>q h'. Node_DeepCopy metaInto p h = Some (q, h') \<and> valPtr getNodeCell (nodeVal metaVal) h' q = Some v \<and>
    (\<forall>h''. (\<forall>a < length h'. a \<notin> refsPtr getNodeCell (nodeRefs metaRefs) h' q \<longrightarrow> lookup h'' a = lookup h' a) \<longrightarrow>
       valPtr getNodeCell (nodeVal metaVal) h'' p = Some v) \<and>
    (\<forall>h''. (\<forall>a < length h'. a \<notin> refsPtr getNodeCell (nodeRefs metaRefs) h' p \<longrightarrow> lookup h'' a = lookup h' a) \<longrightarrow>
       valPtr getNodeCell (nodeVal metaVal) h'' q = Some v)"
  by (rule deep_copier.independent [OF nodeAt_copier [OF assms(1)] assms(2)])

text \<open>Metadata with a name and a slice of finalizers, and a node with everything behind pointers.\<close>

fun getOther :: "('m, 'l, 'c) cell \<Rightarrow> 'c option" where
  "getOther (OtherCell c) = Some c" | "getOther _ = None"

type_synonym sampleMeta = "string \<times> addr option"

definition sampleMetaInto :: "(sampleMeta, (sampleMeta, unit, string list) cell) copier" where
  "sampleMetaInto = copyPair copyFlat (copyPtr getOther OtherCell copyFlat)"

definition sampleMetaVal :: "(sampleMeta, unit, string list) heap \<Rightarrow> sampleMeta \<Rightarrow> (string \<times> string list option) option" where
  "sampleMetaVal = valPair (\<lambda>h n. Some n) (valPtr getOther (\<lambda>h f. Some f))"

definition sampleMetaRefs :: "(sampleMeta, unit, string list) heap \<Rightarrow> sampleMeta \<Rightarrow> addr set" where
  "sampleMetaRefs = refsPair (\<lambda>h n. {}) (refsPtr getOther (\<lambda>h f. {}))"

definition sampleHeap :: "(sampleMeta, unit, string list) heap" where
  "sampleHeap = [TimeCell 5, BoolCell True, OtherCell [''finalizer''],
     CondCells [\<lparr>mcType = ''Ready'', mcStatus = ''True'', mcObservedGeneration = 1, mcLastTransitionTime = 3,
       mcReason = '''', mcMessage = '''', mcLastCheckTime = Some 0\<rparr>],
     NodeCell \<lparr>mnTypeMeta = ('''', ''''), mnObjectMeta = (''n1'', Some 2), mnSpec = \<lparr>State = ''Drained''\<rparr>,
       mnStatus = \<lparr>msConditions = Some 3, msRebootRequiredLastChecked = Some 0, msRebootRequired = Some 1,
         msDrained = False, msCurrentState = ''Next'', msBootID = ''''\<rparr>\<rparr>]"

interpretation sampleMeta: deep_copier sampleMetaInto sampleMetaVal sampleMetaRefs
  unfolding sampleMetaInto_def sampleMetaVal_def sampleMetaRefs_def
  by (intro copier_pair copier_ptr copier_flat) simp

text \<open>The copy is written to: the original keeps its value.\<close>

theorem deep_copy_witness:
  "\<exists>q h' v. Node_DeepCopy sampleMetaInto (Some 4) sampleHeap = Some (Some q, h') \<and> q = 10 \<and> length h' = 11 \<and>
     valPtr getNodeCell (nodeVal sampleMetaVal) sampleHeap (Some 4) = Some v \<and>
     valPtr getNodeCell (nodeVal sampleMetaVal) (h'[9 := BoolCell False]) (Some 4) = Some v \<and>
     valPtr getNodeCell (nodeVal sampleMetaVal) (h'[9 := BoolCell False]) (Some q) \<noteq> Some v"
proof -
  let ?val = "valPtr getNodeCell (nodeVal sampleMetaVal)" and ?refs = "refsPtr getNodeCell (nodeRefs sampleMetaRefs)"
  let ?c = "Node_DeepCopy sampleMetaInto (Some 4) sampleHeap"
  have "?val sampleHeap (Some 4) \<noteq> None" by code_simp
  then obtain v where v: "?val sampleHeap (Some 4) = Some v" by auto
  from deep_copy [OF sampleMeta.deep_copier_axioms v] obtain q h' where c: "?c = Some (q, h')"
    and keep: "\<And>h''. \<forall>a < length h'. a \<notin> ?refs h' q \<longrightarrow> lookup h'' a = lookup h' a \<Longrightarrow> ?val h'' (Some 4) = Some v"
    by blast
  have "map_option (\<lambda>(q, h'). (q, length h')) ?c = Some (Some 10, 11)"
    "map_option (\<lambda>(q, h'). 9 \<in> ?refs h' q) ?c = Some True"
    "map_option (\<lambda>(q, h'). ?val (h'[9 := BoolCell False]) q = ?val sampleHeap (Some 4)) ?c = Some False" by code_simp+
  with c v have q: "q = Some 10" "length h' = 11" "9 \<in> ?refs h' q" "?val (h'[9 := BoolCell False]) q \<noteq> Some v" by auto
  have "lookup (h'[9 := BoolCell False]) a = lookup h' a" if "a \<notin> ?refs h' q" for a
    using that q(3) by (cases "a = 9") (auto simp: lookup_def)
  then have "?val (h'[9 := BoolCell False]) (Some 4) = Some v" by (intro keep) blast
  with c v q show ?thesis by auto
qed

end
