(* ===== verification/Plugin_Server.thy ===== *)
theory Plugin_Server
  imports Drain_Manager
begin

text \<open>
  The plugin end of the protocol: the interface a plugin implements and the plugin of go-plugin
  (\<open>src/api/plugins/drain.go\<close>), the server around an implementation and \<open>Serve\<close> (\<open>drain-server.go\<close>), the generated
  stubs of both ends (\<open>proto/v1/drain_plugin_grpc.pb.go\<close>) and the example plugin (\<open>src/examples/plugin\<close>).

  gRPC and go-plugin are parameters. What is assumed of them is \<open>delivers\<close> (a call runs the handler registered under
  the name of the method), \<open>faithfulCodec\<close> (a message that was encoded is decoded to itself) and \<open>goPlugin\<close> (host
  and plugin agree on a protocol version and use the plugins of that version).
\<close>

section \<open>The interface of a plugin\<close>

text \<open>The options of the hclog logger that a plugin process logs with.\<close>

record LoggerOptions =
  loLevel :: string
  loOutput :: string
  loJSONFormat :: bool

text \<open>
  An implementation of the Go interface \<open>DrainPlugin\<close>, in the plugin process: what it answers is a function of
  the history; it may also panic. A value returned beside a non-nil error is never looked at. A logger is an
  interface value, nil or not.
\<close>

record DrainPlugin =
  dpPluginInfo :: "history \<Rightarrow> DrainPluginInfo res"
  dpInit :: "history \<Rightarrow> LoggerOptions option \<Rightarrow> DrainPluginSettings \<Rightarrow> unit res"
  dpIsSupported :: "history \<Rightarrow> bool res"
  dpIsHealthy :: "history \<Rightarrow> bool res"
  dpIsDrainOk :: "history \<Rightarrow> string \<Rightarrow> bool res"
  dpPreDrain :: "history \<Rightarrow> string \<Rightarrow> unit res"
  dpPostDrain :: "history \<Rightarrow> string \<Rightarrow> unit res"

definition nilPanic :: "'a res" where
  "nilPanic = Panic ''invalid memory address or nil pointer dereference''"

text \<open>The nil interface: every call panics.\<close>

definition nilDrainPlugin :: DrainPlugin where
  "nilDrainPlugin =
     \<lparr>dpPluginInfo = (\<lambda>h. nilPanic), dpInit = (\<lambda>h logger settings. nilPanic), dpIsSupported = (\<lambda>h. nilPanic),
      dpIsHealthy = (\<lambda>h. nilPanic), dpIsDrainOk = (\<lambda>h nodeName. nilPanic), dpPreDrain = (\<lambda>h nodeName. nilPanic),
      dpPostDrain = (\<lambda>h nodeName. nilPanic)\<rparr>"

section \<open>The server\<close>

text \<open>
  The generated interface of the service. A handler gets a request that is not nil. A response beside an error is
  dropped by gRPC, which sends the error alone, so the pair is the error.
\<close>

record DrainServiceServer =
  svPluginInfo :: "history \<Rightarrow> PluginInfoResponse res"
  svInit :: "history \<Rightarrow> InitRequest \<Rightarrow> unit res"
  svIsSupported :: "history \<Rightarrow> IsSupportedResponse res"
  svIsHealthy :: "history \<Rightarrow> IsHealthyResponse res"
  svIsDrainOk :: "history \<Rightarrow> IsDrainOkRequest \<Rightarrow> IsDrainOkResponse res"
  svPreDrain :: "history \<Rightarrow> PreDrainRequest \<Rightarrow> unit res"
  svPostDrain :: "history \<Rightarrow> PostDrainRequest \<Rightarrow> unit res"

definition DrainServer_PluginInfo :: "DrainPlugin \<Rightarrow> history \<Rightarrow> PluginInfoResponse res" where
  "DrainServer_PluginInfo Impl h = map_res
     (\<lambda>info. PluginInfoResponse_Build (Some (ID info)) (Some (InfoConfigFormat info))) (dpPluginInfo Impl h)"

definition DrainServer_Init :: "LoggerOptions option \<Rightarrow> DrainPlugin \<Rightarrow> history \<Rightarrow> InitRequest \<Rightarrow> unit res" where
  "DrainServer_Init Logger Impl h request = dpInit Impl h Logger \<lparr>SettingsConfig = GetConfigBytes (Some request)\<rparr>"

definition DrainServer_IsSupported :: "DrainPlugin \<Rightarrow> history \<Rightarrow> IsSupportedResponse res" where
  "DrainServer_IsSupported Impl h = map_res (\<lambda>supported. IsSupportedResponse_Build (Some supported)) (dpIsSupported Impl h)"

definition DrainServer_IsHealthy :: "DrainPlugin \<Rightarrow> history \<Rightarrow> IsHealthyResponse res" where
  "DrainServer_IsHealthy Impl h = map_res (\<lambda>healthy. IsHealthyResponse_Build (Some healthy)) (dpIsHealthy Impl h)"

definition DrainServer_IsDrainOk :: "DrainPlugin \<Rightarrow> history \<Rightarrow> IsDrainOkRequest \<Rightarrow> IsDrainOkResponse res" where
  "DrainServer_IsDrainOk Impl h request = map_res (\<lambda>ok. IsDrainOkResponse_Build (Some ok))
     (dpIsDrainOk Impl h (IsDrainOkRequest_GetNodeName (Some request)))"

definition DrainServer_PreDrain :: "DrainPlugin \<Rightarrow> history \<Rightarrow> PreDrainRequest \<Rightarrow> unit res" where
  "DrainServer_PreDrain Impl h request = dpPreDrain Impl h (PreDrainRequest_GetNodeName (Some request))"

definition DrainServer_PostDrain :: "DrainPlugin \<Rightarrow> history \<Rightarrow> PostDrainRequest \<Rightarrow> unit res" where
  "DrainServer_PostDrain Impl h request = dpPostDrain Impl h (PostDrainRequest_GetNodeName (Some request))"

lemmas server_defs =
  DrainServer_PluginInfo_def DrainServer_Init_def DrainServer_IsSupported_def DrainServer_IsHealthy_def
  DrainServer_IsDrainOk_def DrainServer_PreDrain_def DrainServer_PostDrain_def

text \<open>The struct \<open>DrainServer\<close> as an implementation of the service, and the generated one that implements nothing.\<close>

definition DrainServer :: "LoggerOptions option \<Rightarrow> DrainPlugin \<Rightarrow> DrainServiceServer" where
  "DrainServer Logger Impl =
     \<lparr>svPluginInfo = DrainServer_PluginInfo Impl, svInit = DrainServer_Init Logger Impl,
      svIsSupported = DrainServer_IsSupported Impl, svIsHealthy = DrainServer_IsHealthy Impl,
      svIsDrainOk = DrainServer_IsDrainOk Impl, svPreDrain = DrainServer_PreDrain Impl,
      svPostDrain = DrainServer_PostDrain Impl\<rparr>"

definition Unimplemented :: "string \<Rightarrow> 'a res" where
  "Unimplemented method = Err (ExtError (''rpc error: code = Unimplemented desc = method '' @ method @ '' not implemented''))"

definition UnimplementedDrainServiceServer :: DrainServiceServer where
  "UnimplementedDrainServiceServer =
     \<lparr>svPluginInfo = (\<lambda>h. Unimplemented ''PluginInfo''), svInit = (\<lambda>h rq. Unimplemented ''Init''),
      svIsSupported = (\<lambda>h. Unimplemented ''IsSupported''), svIsHealthy = (\<lambda>h. Unimplemented ''IsHealthy''),
      svIsDrainOk = (\<lambda>h rq. Unimplemented ''IsDrainOk''), svPreDrain = (\<lambda>h rq. Unimplemented ''PreDrain''),
      svPostDrain = (\<lambda>h rq. Unimplemented ''PostDrain'')\<rparr>"

section \<open>The generated stubs\<close>

text \<open>A pointer to a message behind \<open>interface{}\<close>, by its dynamic type; messages without fields have one value.\<close>

datatype message =
    MPluginInfoRequest | MPluginInfoResponse PluginInfoResponse
  | MInitRequest InitRequest | MInitResponse
  | MIsSupportedRequest | MIsSupportedResponse IsSupportedResponse
  | MIsHealthyRequest | MIsHealthyResponse IsHealthyResponse
  | MIsDrainOkRequest IsDrainOkRequest | MIsDrainOkResponse IsDrainOkResponse
  | MPreDrainRequest PreDrainRequest | MPreDrainResponse
  | MPostDrainRequest PostDrainRequest | MPostDrainResponse

text \<open>\<open>new(T)\<close> for the type of a message, which is also what \<open>Reset\<close> leaves of it.\<close>

fun fresh :: "message \<Rightarrow> message" where
  "fresh (MPluginInfoResponse m) = MPluginInfoResponse (PluginInfoResponse_Build None None)"
| "fresh (MInitRequest m) = MInitRequest (InitRequest_Build None)"
| "fresh (MIsSupportedResponse m) = MIsSupportedResponse (IsSupportedResponse_Build None)"
| "fresh (MIsHealthyResponse m) = MIsHealthyResponse (IsHealthyResponse_Build None)"
| "fresh (MIsDrainOkRequest m) = MIsDrainOkRequest (IsDrainOkRequest_Build None)"
| "fresh (MIsDrainOkResponse m) = MIsDrainOkResponse (IsDrainOkResponse_Build None)"
| "fresh (MPreDrainRequest m) = MPreDrainRequest (PreDrainRequest_Build None)"
| "fresh (MPostDrainRequest m) = MPostDrainRequest (PostDrainRequest_Build None)"
| "fresh m = m"

definition DrainService_PluginInfo_FullMethodName :: string where
  "DrainService_PluginInfo_FullMethodName = ''/api.plugins.proto.v1.DrainService/PluginInfo''"
definition DrainService_Init_FullMethodName :: string where
  "DrainService_Init_FullMethodName = ''/api.plugins.proto.v1.DrainService/Init''"
definition DrainService_IsSupported_FullMethodName :: string where
  "DrainService_IsSupported_FullMethodName = ''/api.plugins.proto.v1.DrainService/IsSupported''"
definition DrainService_IsHealthy_FullMethodName :: string where
  "DrainService_IsHealthy_FullMethodName = ''/api.plugins.proto.v1.DrainService/IsHealthy''"
definition DrainService_IsDrainOk_FullMethodName :: string where
  "DrainService_IsDrainOk_FullMethodName = ''/api.plugins.proto.v1.DrainService/IsDrainOk''"
definition DrainService_PreDrain_FullMethodName :: string where
  "DrainService_PreDrain_FullMethodName = ''/api.plugins.proto.v1.DrainService/PreDrain''"
definition DrainService_PostDrain_FullMethodName :: string where
  "DrainService_PostDrain_FullMethodName = ''/api.plugins.proto.v1.DrainService/PostDrain''"

lemmas method_names =
  DrainService_PluginInfo_FullMethodName_def DrainService_Init_FullMethodName_def
  DrainService_IsSupported_FullMethodName_def DrainService_IsHealthy_FullMethodName_def
  DrainService_IsDrainOk_FullMethodName_def DrainService_PreDrain_FullMethodName_def
  DrainService_PostDrain_FullMethodName_def

text \<open>
  The client stubs. \<open>Invoke\<close> of a connection is given the name of the method, the request and the message that
  receives the response; that message keeps its type, so the last branch of a projection is never taken.
\<close>

type_synonym invoke = "history \<Rightarrow> string \<Rightarrow> message \<Rightarrow> message \<Rightarrow> gerror + message"

definition drainServiceClient_PluginInfo :: "invoke \<Rightarrow> history \<Rightarrow> gerror + PluginInfoResponse" where
  "drainServiceClient_PluginInfo cc h =
     (let out = PluginInfoResponse_Build None None in
      case cc h DrainService_PluginInfo_FullMethodName MPluginInfoRequest (MPluginInfoResponse out) of
        Inl err \<Rightarrow> Inl err | Inr r \<Rightarrow> Inr (case r of MPluginInfoResponse out \<Rightarrow> out | _ \<Rightarrow> out))"

definition drainServiceClient_Init :: "invoke \<Rightarrow> history \<Rightarrow> InitRequest \<Rightarrow> gerror + unit" where
  "drainServiceClient_Init cc h rq =
     (case cc h DrainService_Init_FullMethodName (MInitRequest rq) MInitResponse of Inl err \<Rightarrow> Inl err | Inr _ \<Rightarrow> Inr ())"

definition drainServiceClient_IsSupported :: "invoke \<Rightarrow> history \<Rightarrow> gerror + IsSupportedResponse" where
  "drainServiceClient_IsSupported cc h =
     (let out = IsSupportedResponse_Build None in
      case cc h DrainService_IsSupported_FullMethodName MIsSupportedRequest (MIsSupportedResponse out) of
        Inl err \<Rightarrow> Inl err | Inr r \<Rightarrow> Inr (case r of MIsSupportedResponse out \<Rightarrow> out | _ \<Rightarrow> out))"

definition drainServiceClient_IsHealthy :: "invoke \<Rightarrow> history \<Rightarrow> gerror + IsHealthyResponse" where
  "drainServiceClient_IsHealthy cc h =
     (let out = IsHealthyResponse_Build None in
      case cc h DrainService_IsHealthy_FullMethodName MIsHealthyRequest (MIsHealthyResponse out) of
        Inl err \<Rightarrow> Inl err | Inr r \<Rightarrow> Inr (case r of MIsHealthyResponse out \<Rightarrow> out | _ \<Rightarrow> out))"

definition drainServiceClient_IsDrainOk :: "invoke \<Rightarrow> history \<Rightarrow> IsDrainOkRequest \<Rightarrow> gerror + IsDrainOkResponse" where
  "drainServiceClient_IsDrainOk cc h rq =
     (let out = IsDrainOkResponse_Build None in
      case cc h DrainService_IsDrainOk_FullMethodName (MIsDrainOkRequest rq) (MIsDrainOkResponse out) of
        Inl err \<Rightarrow> Inl err | Inr r \<Rightarrow> Inr (case r of MIsDrainOkResponse out \<Rightarrow> out | _ \<Rightarrow> out))"

definition drainServiceClient_PreDrain :: "invoke \<Rightarrow> history \<Rightarrow> PreDrainRequest \<Rightarrow> gerror + unit" where
  "drainServiceClient_PreDrain cc h rq =
     (case cc h DrainService_PreDrain_FullMethodName (MPreDrainRequest rq) MPreDrainResponse of Inl err \<Rightarrow> Inl err | Inr _ \<Rightarrow> Inr ())"

definition drainServiceClient_PostDrain :: "invoke \<Rightarrow> history \<Rightarrow> PostDrainRequest \<Rightarrow> gerror + unit" where
  "drainServiceClient_PostDrain cc h rq =
     (case cc h DrainService_PostDrain_FullMethodName (MPostDrainRequest rq) MPostDrainResponse of Inl err \<Rightarrow> Inl err | Inr _ \<Rightarrow> Inr ())"

lemmas stub_defs =
  drainServiceClient_PluginInfo_def drainServiceClient_Init_def drainServiceClient_IsSupported_def
  drainServiceClient_IsHealthy_def drainServiceClient_IsDrainOk_def drainServiceClient_PreDrain_def
  drainServiceClient_PostDrain_def

text \<open>
  The server stubs. \<open>dec\<close> decodes the request into the message it is given; an interceptor gets the request, the
  name of the method and the rest of the handling, whose type assertion panics on another type of request. The seven
  generated handlers differ in the name, the type of the request and the method they call.
\<close>

type_synonym dec = "message \<Rightarrow> gerror + message"
type_synonym interceptor = "message \<Rightarrow> string \<Rightarrow> (message \<Rightarrow> message res) \<Rightarrow> message res"
type_synonym handler = "DrainServiceServer \<Rightarrow> history \<Rightarrow> dec \<Rightarrow> interceptor option \<Rightarrow> message res"

definition unaryHandler :: "string \<Rightarrow> message \<Rightarrow> (message \<Rightarrow> message res) \<Rightarrow> dec \<Rightarrow> interceptor option \<Rightarrow> message res" where
  "unaryHandler fullMethod new run dec interceptor =
     (case dec new of
        Inl err \<Rightarrow> Err err
      | Inr rq \<Rightarrow> (case interceptor of None \<Rightarrow> run rq | Some i \<Rightarrow> i rq fullMethod run))"

definition conversionPanic :: "'a res" where
  "conversionPanic = Panic ''interface conversion''"

definition DrainService_PluginInfo_Handler :: handler where
  "DrainService_PluginInfo_Handler srv h = unaryHandler DrainService_PluginInfo_FullMethodName MPluginInfoRequest
     (\<lambda>req. case req of MPluginInfoRequest \<Rightarrow> map_res MPluginInfoResponse (svPluginInfo srv h) | _ \<Rightarrow> conversionPanic)"

definition DrainService_Init_Handler :: handler where
  "DrainService_Init_Handler srv h = unaryHandler DrainService_Init_FullMethodName (MInitRequest (InitRequest_Build None))
     (\<lambda>req. case req of MInitRequest rq \<Rightarrow> map_res (\<lambda>_. MInitResponse) (svInit srv h rq) | _ \<Rightarrow> conversionPanic)"

definition DrainService_IsSupported_Handler :: handler where
  "DrainService_IsSupported_Handler srv h = unaryHandler DrainService_IsSupported_FullMethodName MIsSupportedRequest
     (\<lambda>req. case req of MIsSupportedRequest \<Rightarrow> map_res MIsSupportedResponse (svIsSupported srv h) | _ \<Rightarrow> conversionPanic)"

definition DrainService_IsHealthy_Handler :: handler where
  "DrainService_IsHealthy_Handler srv h = unaryHandler DrainService_IsHealthy_FullMethodName MIsHealthyRequest
     (\<lambda>req. case req of MIsHealthyRequest \<Rightarrow> map_res MIsHealthyResponse (svIsHealthy srv h) | _ \<Rightarrow> conversionPanic)"

definition DrainService_IsDrainOk_Handler :: handler where
  "DrainService_IsDrainOk_Handler srv h = unaryHandler DrainService_IsDrainOk_FullMethodName (MIsDrainOkRequest (IsDrainOkRequest_Build None))
     (\<lambda>req. case req of MIsDrainOkRequest rq \<Rightarrow> map_res MIsDrainOkResponse (svIsDrainOk srv h rq) | _ \<Rightarrow> conversionPanic)"

definition DrainService_PreDrain_Handler :: handler where
  "DrainService_PreDrain_Handler srv h = unaryHandler DrainService_PreDrain_FullMethodName (MPreDrainRequest (PreDrainRequest_Build None))
     (\<lambda>req. case req of MPreDrainRequest rq \<Rightarrow> map_res (\<lambda>_. MPreDrainResponse) (svPreDrain srv h rq) | _ \<Rightarrow> conversionPanic)"

definition DrainService_PostDrain_Handler :: handler where
  "DrainService_PostDrain_Handler srv h = unaryHandler DrainService_PostDrain_FullMethodName (MPostDrainRequest (PostDrainRequest_Build None))
     (\<lambda>req. case req of MPostDrainRequest rq \<Rightarrow> map_res (\<lambda>_. MPostDrainResponse) (svPostDrain srv h rq) | _ \<Rightarrow> conversionPanic)"

lemmas handler_defs =
  DrainService_PluginInfo_Handler_def DrainService_Init_Handler_def DrainService_IsSupported_Handler_def
  DrainService_IsHealthy_Handler_def DrainService_IsDrainOk_Handler_def DrainService_PreDrain_Handler_def
  DrainService_PostDrain_Handler_def unaryHandler_def

record ServiceDesc =
  sdServiceName :: string
  sdMethods :: "(string \<times> handler) list"
  sdMetadata :: string

definition DrainService_ServiceDesc :: ServiceDesc where
  "DrainService_ServiceDesc =
     \<lparr>sdServiceName = ''api.plugins.proto.v1.DrainService'',
      sdMethods =
        [(''PluginInfo'', DrainService_PluginInfo_Handler), (''Init'', DrainService_Init_Handler),
         (''IsSupported'', DrainService_IsSupported_Handler), (''IsHealthy'', DrainService_IsHealthy_Handler),
         (''IsDrainOk'', DrainService_IsDrainOk_Handler), (''PreDrain'', DrainService_PreDrain_Handler),
         (''PostDrain'', DrainService_PostDrain_Handler)],
      sdMetadata = ''api/plugins/proto/v1/drain_plugin.proto''\<rparr>"

text \<open>The calls of \<open>RegisterService\<close> that a registration makes.\<close>

type_synonym registration = "ServiceDesc \<times> DrainServiceServer"

definition RegisterDrainServiceServer :: "DrainServiceServer \<Rightarrow> registration list" where
  "RegisterDrainServiceServer srv = [(DrainService_ServiceDesc, srv)]"

section \<open>The plugin of go-plugin\<close>

record HandshakeConfig =
  hcProtocolVersion :: int
  hcMagicCookieKey :: string
  hcMagicCookieValue :: string

definition Handshake :: HandshakeConfig where
  "Handshake = \<lparr>hcProtocolVersion = 0, hcMagicCookieKey = ''NODEDRAIN_PLUGIN'',
     hcMagicCookieValue = ''4ae46e30-c5de-4ab9-a2c5-4618fdcab7ae''\<rparr>"

record GRPCDrainPlugin =
  gpLogger :: "LoggerOptions option"
  gpImpl :: DrainPlugin

definition GRPCServer :: "GRPCDrainPlugin \<Rightarrow> registration list" where
  "GRPCServer p = RegisterDrainServiceServer (DrainServer (gpLogger p) (gpImpl p))"

definition GRPCClient :: "GRPCDrainPlugin \<Rightarrow> conn \<Rightarrow> gerror + dispensed" where
  "GRPCClient p c = Inr (DispensedDrainClient c)"

type_synonym versioned = "(int \<times> (string \<times> GRPCDrainPlugin) list) list"

text \<open>What \<open>Serve\<close> hands to \<open>plugin.Serve\<close>, and what the drain manager hands to \<open>plugin.NewClient\<close>.\<close>

record ServeConfig =
  scHandshake :: HandshakeConfig
  scLogger :: LoggerOptions
  scVersionedPlugins :: versioned
  scGRPCServer :: string

definition serveLogger :: LoggerOptions where
  "serveLogger = \<lparr>loLevel = ''trace'', loOutput = ''stderr'', loJSONFormat = True\<rparr>"

definition Serve :: "DrainPlugin \<Rightarrow> ServeConfig" where
  "Serve impl =
     \<lparr>scHandshake = Handshake, scLogger = serveLogger,
      scVersionedPlugins = [(0, [(''drain'', \<lparr>gpLogger = Some serveLogger, gpImpl = impl\<rparr>)])],
      scGRPCServer = ''DefaultGRPCServer''\<rparr>"

record ClientConfig =
  ccHandshake :: HandshakeConfig
  ccVersionedPlugins :: versioned
  ccCmd :: string
  ccManaged :: bool
  ccStderr :: string
  ccSyncStdout :: string
  ccSyncStderr :: string
  ccAllowedProtocols :: "string list"

definition pluginClientConfig :: "string \<Rightarrow> ClientConfig" where
  "pluginClientConfig pluginPath =
     \<lparr>ccHandshake = Handshake,
      ccVersionedPlugins = [(0, [(''drain'', \<lparr>gpLogger = None, gpImpl = nilDrainPlugin\<rparr>)])],
      ccCmd = pluginPath, ccManaged = True, ccStderr = ''Stderr'', ccSyncStdout = ''SyncStdout'',
      ccSyncStderr = ''SyncStdout'', ccAllowedProtocols = [''grpc'']\<rparr>"

section \<open>The example plugin\<close>

text \<open>
  The example plugin at the other end of connection \<open>c\<close>. Its field \<open>logger\<close> is nil until \<open>Init\<close> has run, and every
  method but \<open>PluginInfo\<close> logs with it.
\<close>

definition loggerSet :: "conn \<Rightarrow> history \<Rightarrow> bool" where
  "loggerSet c h \<longleftrightarrow> list_ex (\<lambda>e. case e of EvInit c' rq r \<Rightarrow> c' = c | _ \<Rightarrow> False) h"

definition debugThen :: "bool \<Rightarrow> 'a \<Rightarrow> 'a res" where
  "debugThen hasLogger a = (if hasLogger then Ok a else nilPanic)"

definition ExampleDrainPlugin :: "conn \<Rightarrow> DrainPlugin" where
  "ExampleDrainPlugin c =
     \<lparr>dpPluginInfo = (\<lambda>h. Ok \<lparr>ID = ''example-plugin'', InfoConfigFormat = CONFIG_FORMAT_YAML\<rparr>),
      dpInit = (\<lambda>h logger settings. debugThen (logger \<noteq> None) ()),
      dpIsSupported = (\<lambda>h. debugThen (loggerSet c h) True),
      dpIsHealthy = (\<lambda>h. debugThen (loggerSet c h) True),
      dpIsDrainOk = (\<lambda>h nodeName. debugThen (loggerSet c h) True),
      dpPreDrain = (\<lambda>h nodeName. debugThen (loggerSet c h) ()),
      dpPostDrain = (\<lambda>h nodeName. debugThen (loggerSet c h) ())\<rparr>"

definition mainExample :: "conn \<Rightarrow> ServeConfig" where
  "mainExample c = Serve (ExampleDrainPlugin c)"

section \<open>Laws of gRPC and go-plugin\<close>

text \<open>
  The library as a parameter: encoding and decoding (into a message of the wanted type), the status error that an
  error of a handler arrives as, the errors of a call to an unknown method and to a process that died on the call,
  and which strings are valid UTF-8. The encoded form is left open.
\<close>

record 'b grpc =
  gMarshal :: "message \<Rightarrow> gerror + 'b"
  gUnmarshal :: "'b \<Rightarrow> message \<Rightarrow> gerror + message"
  gStatus :: "gerror \<Rightarrow> gerror"
  gUnknown :: "string \<Rightarrow> gerror"
  gCrash :: gerror
  gUtf8 :: "string \<Rightarrow> bool"

text \<open>Messages as a builder makes them, with values that protobuf can carry.\<close>

fun validFormat :: "ConfigFormat \<Rightarrow> bool" where
  "validFormat (CONFIG_FORMAT_OTHER n) \<longleftrightarrow> n \<notin> {0, 1, 2} \<and> - (2 ^ 31) \<le> n \<and> n < 2 ^ 31"
| "validFormat f \<longleftrightarrow> True"

fun built :: "(string \<Rightarrow> bool) \<Rightarrow> message \<Rightarrow> bool" where
  "built utf8 (MPluginInfoResponse m) \<longleftrightarrow>
     (\<exists>i f. m = PluginInfoResponse_Build i f \<and> pred_option utf8 i \<and> pred_option validFormat f)"
| "built utf8 (MInitRequest m) \<longleftrightarrow> (\<exists>b. m = InitRequest_Build b)"
| "built utf8 (MIsSupportedResponse m) \<longleftrightarrow> (\<exists>b. m = IsSupportedResponse_Build b)"
| "built utf8 (MIsHealthyResponse m) \<longleftrightarrow> (\<exists>b. m = IsHealthyResponse_Build b)"
| "built utf8 (MIsDrainOkRequest m) \<longleftrightarrow> (\<exists>n. m = IsDrainOkRequest_Build n \<and> pred_option utf8 n)"
| "built utf8 (MIsDrainOkResponse m) \<longleftrightarrow> (\<exists>b. m = IsDrainOkResponse_Build b)"
| "built utf8 (MPreDrainRequest m) \<longleftrightarrow> (\<exists>n. m = PreDrainRequest_Build n \<and> pred_option utf8 n)"
| "built utf8 (MPostDrainRequest m) \<longleftrightarrow> (\<exists>n. m = PostDrainRequest_Build n \<and> pred_option utf8 n)"
| "built utf8 m \<longleftrightarrow> True"

definition faithfulCodec :: "'b grpc \<Rightarrow> bool" where
  "faithfulCodec G \<longleftrightarrow> (\<forall>m. built (gUtf8 G) m \<longrightarrow> (\<exists>b. gMarshal G m = Inr b \<and> gUnmarshal G b (fresh m) = Inr m))"

text \<open>The handler registered for a full method name, \<open>/service/method\<close>.\<close>

definition route :: "registration list \<Rightarrow> string \<Rightarrow> (DrainServiceServer \<times> handler) option" where
  "route regs name = map_option snd (List.find (\<lambda>(n, _). n = name)
     (concat (map (\<lambda>(desc, srv). map (\<lambda>(m, hdl). (''/'' @ sdServiceName desc @ ''/'' @ m, srv, hdl)) (sdMethods desc)) regs)))"

text \<open>
  A unary call over a connection while the process at its end is \<open>alive\<close>: the request is encoded, the handler of
  the method runs on it without an interceptor, and its response is encoded and decoded into the message of the
  caller; an error arrives as its status, a panic of the handler ends the process.
\<close>

definition delivery :: "'b grpc \<Rightarrow> registration list \<Rightarrow> invoke" where
  "delivery G regs h name rq out =
     (case gMarshal G rq of
        Inl e \<Rightarrow> Inl (gStatus G e)
      | Inr data \<Rightarrow>
          (case route regs name of
             None \<Rightarrow> Inl (gUnknown G name)
           | Some (srv, hdl) \<Rightarrow>
               (case hdl srv h (gUnmarshal G data) None of
                  Err e \<Rightarrow> Inl (gStatus G e)
                | Panic p \<Rightarrow> Inl (gCrash G)
                | Ok resp \<Rightarrow>
                    (case gMarshal G resp of Inl e \<Rightarrow> Inl (gStatus G e) | Inr data \<Rightarrow> gUnmarshal G data out))))"

definition delivers :: "'b grpc \<Rightarrow> (history \<Rightarrow> bool) \<Rightarrow> registration list \<Rightarrow> invoke \<Rightarrow> bool" where
  "delivers G alive regs Inv \<longleftrightarrow> (\<forall>h name rq out. alive h \<longrightarrow> Inv h name rq out = delivery G regs h name rq out)"

text \<open>
  The host of a plugin process with configurations \<open>cc\<close> and \<open>sc\<close> at the two ends of connection \<open>c\<close>. When the
  handshakes are the same and there is a common protocol version, the greatest one is used: \<open>Dispense\<close> asks the
  plugin of that name of the host, and the process serves what its own plugins of that version register.
\<close>

definition commonVersion :: "versioned \<Rightarrow> versioned \<Rightarrow> int option" where
  "commonVersion cs ss = (case filter (\<lambda>v. v \<in> set (map fst ss)) (map fst cs) of [] \<Rightarrow> None | vs \<Rightarrow> Some (Max (set vs)))"

definition goPlugin ::
  "env \<Rightarrow> 'b grpc \<Rightarrow> (history \<Rightarrow> bool) \<Rightarrow> invoke \<Rightarrow> ClientConfig \<Rightarrow> ServeConfig \<Rightarrow> conn \<Rightarrow> bool" where
  "goPlugin E G alive Inv cc sc c \<longleftrightarrow>
     (ccHandshake cc = scHandshake sc \<longrightarrow>
      (\<forall>v. commonVersion (ccVersionedPlugins cc) (scVersionedPlugins sc) = Some v \<longrightarrow>
        (\<forall>h name. alive h \<longrightarrow> eDispense E h c name =
           (case map_of (concat (map snd (filter (\<lambda>(u, _). u = v) (ccVersionedPlugins cc)))) name of
              None \<Rightarrow> Inl (ExtError (''unknown plugin type: '' @ name)) | Some p \<Rightarrow> GRPCClient p c)) \<and>
        delivers G alive
          (concat (map (GRPCServer \<circ> snd) (concat (map snd (filter (\<lambda>(u, _). u = v) (scVersionedPlugins sc)))))) Inv))"

text \<open>The client held by \<open>DrainClient\<close> is made by \<open>NewDrainServiceClient\<close> for the connection.\<close>

definition stubs :: "env \<Rightarrow> invoke \<Rightarrow> conn \<Rightarrow> bool" where
  "stubs E Inv c \<longleftrightarrow> (\<forall>h.
     ePluginInfo E h c = drainServiceClient_PluginInfo Inv h \<and>
     (\<forall>rq. eInit E h c rq = drainServiceClient_Init Inv h rq) \<and>
     eIsSupported E h c = drainServiceClient_IsSupported Inv h \<and>
     eIsHealthy E h c = drainServiceClient_IsHealthy Inv h \<and>
     (\<forall>rq. eIsDrainOk E h c rq = drainServiceClient_IsDrainOk Inv h rq) \<and>
     (\<forall>rq. ePreDrain E h c rq = drainServiceClient_PreDrain Inv h rq) \<and>
     (\<forall>rq. ePostDrain E h c rq = drainServiceClient_PostDrain Inv h rq))"

text \<open>The process at the other end of \<open>c\<close> was started by the drain manager from \<open>path\<close> and runs \<open>Serve Impl\<close>.\<close>

definition hosts :: "env \<Rightarrow> 'b grpc \<Rightarrow> (history \<Rightarrow> bool) \<Rightarrow> string \<Rightarrow> conn \<Rightarrow> DrainPlugin \<Rightarrow> bool" where
  "hosts E G alive path c Impl \<longleftrightarrow> faithfulCodec G \<and>
     (\<exists>Inv. stubs E Inv c \<and> goPlugin E G alive Inv (pluginClientConfig path) (Serve Impl) c)"

section \<open>The client over the server is the plugin\<close>

definition answer :: "'b grpc \<Rightarrow> 'a res \<Rightarrow> gerror + 'a" where
  "answer G r = (case r of Ok a \<Rightarrow> Inr a | Err e \<Rightarrow> Inl (gStatus G e) | Panic p \<Rightarrow> Inl (gCrash G))"

lemma answer_simps [simp]:
  "answer G (Ok a) = Inr a" "answer G (Err e) = Inl (gStatus G e)" "answer G (Panic p) = Inl (gCrash G)"
  by (simp_all add: answer_def)

text \<open>
  What the generated code promises for one method: its name leads to its handler, the handler decodes a request of
  its type and wraps what the server returns, and the message the client passes for the response is of the type of that
  response.
\<close>

locale unary_method =
  fixes name :: string and hdl :: handler and request :: "'r \<Rightarrow> message" and response :: "'a \<Rightarrow> message"
    and project :: "message \<Rightarrow> 'a" and out :: message and serve :: "DrainServiceServer \<Rightarrow> history \<Rightarrow> 'r \<Rightarrow> 'a res"
  assumes routed: "route (RegisterDrainServiceServer srv) name = Some (srv, hdl)"
    and handled: "dec (fresh (request rq)) = Inr (request rq) \<Longrightarrow> hdl srv h dec None = map_res response (serve srv h rq)"
    and typed: "fresh (response a) = out"
    and projected: "project (response a) = a"
begin

lemma delivered:
  assumes "delivers G alive (RegisterDrainServiceServer srv) Inv" and "faithfulCodec G" and "alive h"
    and "built (gUtf8 G) (request rq)" and "\<And>a. serve srv h rq = Ok a \<Longrightarrow> built (gUtf8 G) (response a)"
  shows "(case Inv h name (request rq) out of Inl err \<Rightarrow> Inl err | Inr m \<Rightarrow> Inr (project m)) = answer G (serve srv h rq)"
proof -
  from assms(2,4) obtain b where b: "gMarshal G (request rq) = Inr b" "gUnmarshal G b (fresh (request rq)) = Inr (request rq)"
    unfolding faithfulCodec_def by blast
  have "\<exists>d. gMarshal G (response a) = Inr d \<and> gUnmarshal G d out = Inr (response a)" if "serve srv h rq = Ok a" for a
    using assms(2) assms(5) [OF that] typed [of a] unfolding faithfulCodec_def by metis
  with assms(1,3) b handled [of "gUnmarshal G b", OF b(2)] show ?thesis
    unfolding delivers_def delivery_def by (cases "serve srv h rq") (auto simp: routed projected)
qed

end

lemma route_service:
  "route (RegisterDrainServiceServer srv) ''/api.plugins.proto.v1.DrainService/PluginInfo'' = Some (srv, DrainService_PluginInfo_Handler)"
  "route (RegisterDrainServiceServer srv) ''/api.plugins.proto.v1.DrainService/Init'' = Some (srv, DrainService_Init_Handler)"
  "route (RegisterDrainServiceServer srv) ''/api.plugins.proto.v1.DrainService/IsSupported'' = Some (srv, DrainService_IsSupported_Handler)"
  "route (RegisterDrainServiceServer srv) ''/api.plugins.proto.v1.DrainService/IsHealthy'' = Some (srv, DrainService_IsHealthy_Handler)"
  "route (RegisterDrainServiceServer srv) ''/api.plugins.proto.v1.DrainService/IsDrainOk'' = Some (srv, DrainService_IsDrainOk_Handler)"
  "route (RegisterDrainServiceServer srv) ''/api.plugins.proto.v1.DrainService/PreDrain'' = Some (srv, DrainService_PreDrain_Handler)"
  "route (RegisterDrainServiceServer srv) ''/api.plugins.proto.v1.DrainService/PostDrain'' = Some (srv, DrainService_PostDrain_Handler)"
  by (simp_all add: route_def RegisterDrainServiceServer_def DrainService_ServiceDesc_def)

interpretation pluginInfo: unary_method DrainService_PluginInfo_FullMethodName DrainService_PluginInfo_Handler
  "\<lambda>_ :: unit. MPluginInfoRequest" MPluginInfoResponse
  "\<lambda>m. case m of MPluginInfoResponse r \<Rightarrow> r | _ \<Rightarrow> PluginInfoResponse_Build None None"
  "MPluginInfoResponse (PluginInfoResponse_Build None None)" "\<lambda>srv h _. svPluginInfo srv h"
  by unfold_locales (simp_all add: method_names route_service, simp add: handler_defs)

interpretation initPlugin: unary_method DrainService_Init_FullMethodName DrainService_Init_Handler
  MInitRequest "\<lambda>_. MInitResponse" "\<lambda>_. ()" MInitResponse svInit
  by unfold_locales (simp_all add: method_names route_service, simp add: handler_defs)

interpretation isSupported: unary_method DrainService_IsSupported_FullMethodName DrainService_IsSupported_Handler
  "\<lambda>_ :: unit. MIsSupportedRequest" MIsSupportedResponse
  "\<lambda>m. case m of MIsSupportedResponse r \<Rightarrow> r | _ \<Rightarrow> IsSupportedResponse_Build None"
  "MIsSupportedResponse (IsSupportedResponse_Build None)" "\<lambda>srv h _. svIsSupported srv h"
  by unfold_locales (simp_all add: method_names route_service, simp add: handler_defs)

interpretation isHealthy: unary_method DrainService_IsHealthy_FullMethodName DrainService_IsHealthy_Handler
  "\<lambda>_ :: unit. MIsHealthyRequest" MIsHealthyResponse
  "\<lambda>m. case m of MIsHealthyResponse r \<Rightarrow> r | _ \<Rightarrow> IsHealthyResponse_Build None"
  "MIsHealthyResponse (IsHealthyResponse_Build None)" "\<lambda>srv h _. svIsHealthy srv h"
  by unfold_locales (simp_all add: method_names route_service, simp add: handler_defs)

interpretation isDrainOk: unary_method DrainService_IsDrainOk_FullMethodName DrainService_IsDrainOk_Handler
  MIsDrainOkRequest MIsDrainOkResponse "\<lambda>m. case m of MIsDrainOkResponse r \<Rightarrow> r | _ \<Rightarrow> IsDrainOkResponse_Build None"
  "MIsDrainOkResponse (IsDrainOkResponse_Build None)" svIsDrainOk
  by unfold_locales (simp_all add: method_names route_service, simp add: handler_defs)

interpretation preDrain: unary_method DrainService_PreDrain_FullMethodName DrainService_PreDrain_Handler
  MPreDrainRequest "\<lambda>_. MPreDrainResponse" "\<lambda>_. ()" MPreDrainResponse svPreDrain
  by unfold_locales (simp_all add: method_names route_service, simp add: handler_defs)

interpretation postDrain: unary_method DrainService_PostDrain_FullMethodName DrainService_PostDrain_Handler
  MPostDrainRequest "\<lambda>_. MPostDrainResponse" "\<lambda>_. ()" MPostDrainResponse svPostDrain
  by unfold_locales (simp_all add: method_names route_service, simp add: handler_defs)

lemma agreed_version [simp]:
  "commonVersion (ccVersionedPlugins (pluginClientConfig path)) (scVersionedPlugins (Serve Impl)) = Some 0"
  by (simp add: commonVersion_def pluginClientConfig_def Serve_def)

lemma hosts_delivers:
  assumes "hosts E G alive path c Impl"
  obtains Inv where "stubs E Inv c" and "faithfulCodec G"
    and "\<forall>h. alive h \<longrightarrow> eDispense E h c ''drain'' = Inr (DispensedDrainClient c)"
    and "delivers G alive (RegisterDrainServiceServer (DrainServer (Some serveLogger) Impl)) Inv"
proof -
  from assms obtain Inv where "stubs E Inv c" "faithfulCodec G" "goPlugin E G alive Inv (pluginClientConfig path) (Serve Impl) c"
    by (auto simp: hosts_def)
  then show thesis by (intro that [of Inv])
      (auto simp: goPlugin_def, auto simp: pluginClientConfig_def Serve_def GRPCClient_def GRPCServer_def)
qed

definition proper :: "'b grpc \<Rightarrow> DrainPluginInfo \<Rightarrow> bool" where
  "proper G info \<longleftrightarrow> gUtf8 G (ID info) \<and> validFormat (InfoConfigFormat info)"

lemma settings_eta [simp]: "\<lparr>SettingsConfig = SettingsConfig s\<rparr> = s"
  by simp

lemmas over_server = client_defs server_defs primitive_defs result_call_ret proto_simps DrainServer_def

lemma stubsD:
  assumes "stubs E Inv c"
  shows "ePluginInfo E h c = drainServiceClient_PluginInfo Inv h"
    and "eInit E h c ir = drainServiceClient_Init Inv h ir"
    and "eIsSupported E h c = drainServiceClient_IsSupported Inv h"
    and "eIsHealthy E h c = drainServiceClient_IsHealthy Inv h"
    and "eIsDrainOk E h c dr = drainServiceClient_IsDrainOk Inv h dr"
    and "ePreDrain E h c pr = drainServiceClient_PreDrain Inv h pr"
    and "ePostDrain E h c po = drainServiceClient_PostDrain Inv h po"
  using assms by (simp_all add: stubs_def)

lemma built_requests:
  assumes "utf8 n"
  shows "built utf8 (MIsDrainOkRequest (IsDrainOkRequest_Build (Some n)))"
    and "built utf8 (MPreDrainRequest (PreDrainRequest_Build (Some n)))"
    and "built utf8 (MPostDrainRequest (PostDrainRequest_Build (Some n)))"
  using assms by force+

text \<open>The answers of the connection are those of the server.\<close>

lemma answers_of_server:
  assumes "hosts E G alive path c Impl" and "alive h" and "srv = DrainServer (Some serveLogger) Impl"
  shows "(\<And>info. dpPluginInfo Impl h = Ok info \<Longrightarrow> proper G info) \<Longrightarrow> ePluginInfo E h c = answer G (svPluginInfo srv h)"
    and "eInit E h c (InitRequest_Build b) = answer G (svInit srv h (InitRequest_Build b))"
    and "eIsSupported E h c = answer G (svIsSupported srv h)"
    and "eIsHealthy E h c = answer G (svIsHealthy srv h)"
    and "gUtf8 G n \<Longrightarrow> eIsDrainOk E h c (IsDrainOkRequest_Build (Some n)) = answer G (svIsDrainOk srv h (IsDrainOkRequest_Build (Some n)))"
    and "gUtf8 G n \<Longrightarrow> ePreDrain E h c (PreDrainRequest_Build (Some n)) = answer G (svPreDrain srv h (PreDrainRequest_Build (Some n)))"
    and "gUtf8 G n \<Longrightarrow> ePostDrain E h c (PostDrainRequest_Build (Some n)) = answer G (svPostDrain srv h (PostDrainRequest_Build (Some n)))"
proof -
  from assms(1) obtain Inv where stubs: "stubs E Inv c" and codec: "faithfulCodec G"
    and served: "delivers G alive (RegisterDrainServiceServer (DrainServer (Some serveLogger) Impl)) Inv"
    by (rule hosts_delivers) blast
  note law = served codec assms(2)
  note at = stubsD [OF stubs] Let_def assms(3)
  show "ePluginInfo E h c = answer G (svPluginInfo srv h)" if info: "\<And>info. dpPluginInfo Impl h = Ok info \<Longrightarrow> proper G info"
  proof -
    have "built (gUtf8 G) (MPluginInfoResponse a)" if "svPluginInfo (DrainServer (Some serveLogger) Impl) h = Ok a" for a
      using that by (force simp: DrainServer_def DrainServer_PluginInfo_def proper_def dest: info)
    from pluginInfo.delivered [OF law _ this] show ?thesis
      by (simp add: at drainServiceClient_PluginInfo_def)
  qed
  show "eInit E h c (InitRequest_Build b) = answer G (svInit srv h (InitRequest_Build b))"
    using initPlugin.delivered [OF law, of "InitRequest_Build b"] by (auto simp: at drainServiceClient_Init_def)
  show "eIsSupported E h c = answer G (svIsSupported srv h)"
    using isSupported.delivered [OF law]
    by (auto simp: at drainServiceClient_IsSupported_def DrainServer_def DrainServer_IsSupported_def)
  show "eIsHealthy E h c = answer G (svIsHealthy srv h)"
    using isHealthy.delivered [OF law]
    by (auto simp: at drainServiceClient_IsHealthy_def DrainServer_def DrainServer_IsHealthy_def)
  assume n: "gUtf8 G n"
  show "eIsDrainOk E h c (IsDrainOkRequest_Build (Some n)) = answer G (svIsDrainOk srv h (IsDrainOkRequest_Build (Some n)))"
    using isDrainOk.delivered [OF law built_requests(1) [of "gUtf8 G", OF n]]
    by (auto simp: at drainServiceClient_IsDrainOk_def DrainServer_def DrainServer_IsDrainOk_def)
  show "ePreDrain E h c (PreDrainRequest_Build (Some n)) = answer G (svPreDrain srv h (PreDrainRequest_Build (Some n)))"
    using preDrain.delivered [OF law built_requests(2) [of "gUtf8 G", OF n]] by (auto simp: at drainServiceClient_PreDrain_def)
  show "ePostDrain E h c (PostDrainRequest_Build (Some n)) = answer G (svPostDrain srv h (PostDrainRequest_Build (Some n)))"
    using postDrain.delivered [OF law built_requests(3) [of "gUtf8 G", OF n]] by (auto simp: at drainServiceClient_PostDrain_def)
qed

lemma client_over_server:
  assumes "hosts E G alive path c Impl" and "alive h"
  shows "eDispense E h c ''drain'' = Inr (DispensedDrainClient c)"
    and "(\<And>info. dpPluginInfo Impl h = Ok info \<Longrightarrow> proper G info) \<Longrightarrow>
      result (DrainClient_PluginInfo E c) h = res_of (answer G (dpPluginInfo Impl h))"
    and "result (DrainClient_Init E c s) h = res_of (answer G (dpInit Impl h (Some serveLogger) s))"
    and "result (DrainClient_IsSupported E c) h = res_of (answer G (dpIsSupported Impl h))"
    and "result (DrainClient_IsHealthy E c) h = res_of (answer G (dpIsHealthy Impl h))"
    and "gUtf8 G n \<Longrightarrow> result (DrainClient_IsDrainOk E c n) h = res_of (answer G (dpIsDrainOk Impl h n))"
    and "gUtf8 G n \<Longrightarrow> result (DrainClient_PreDrain E c n) h = res_of (answer G (dpPreDrain Impl h n))"
    and "gUtf8 G n \<Longrightarrow> result (DrainClient_PostDrain E c n) h = res_of (answer G (dpPostDrain Impl h n))"
proof -
  note at = answers_of_server [OF assms refl]
  show "eDispense E h c ''drain'' = Inr (DispensedDrainClient c)"
    using assms(1) by (rule hosts_delivers) (use assms(2) in blast)
  show "result (DrainClient_PluginInfo E c) h = res_of (answer G (dpPluginInfo Impl h))"
    if "\<And>info. dpPluginInfo Impl h = Ok info \<Longrightarrow> proper G info"
    using at(1) [OF that] by (cases "dpPluginInfo Impl h") (simp_all add: over_server)
  show "result (DrainClient_Init E c s) h = res_of (answer G (dpInit Impl h (Some serveLogger) s))"
    by (cases "dpInit Impl h (Some serveLogger) s") (simp_all add: over_server at(2))
  show "result (DrainClient_IsSupported E c) h = res_of (answer G (dpIsSupported Impl h))"
    by (cases "dpIsSupported Impl h") (simp_all add: over_server at(3))
  show "result (DrainClient_IsHealthy E c) h = res_of (answer G (dpIsHealthy Impl h))"
    by (cases "dpIsHealthy Impl h") (simp_all add: over_server at(4))
  assume n: "gUtf8 G n"
  show "result (DrainClient_IsDrainOk E c n) h = res_of (answer G (dpIsDrainOk Impl h n))"
    by (cases "dpIsDrainOk Impl h n") (simp_all add: over_server at(5) [OF n])
  show "result (DrainClient_PreDrain E c n) h = res_of (answer G (dpPreDrain Impl h n))"
    by (cases "dpPreDrain Impl h n") (simp_all add: over_server at(6) [OF n])
  show "result (DrainClient_PostDrain E c n) h = res_of (answer G (dpPostDrain Impl h n))"
    by (cases "dpPostDrain Impl h n") (simp_all add: over_server at(7) [OF n])
qed

text \<open>C22. The plugin protocol is transparent, end to end. Between the drain manager and a process that runs \<open>Serve\<close> on
  an implementation, both ends agree on the handshake and on version 0 of the protocol, asking for the plugin
  \<open>drain\<close> gives a drain client, and each call of that client gives exactly what the implementation answers to the same
  arguments: the method name leads to the right handler, the messages lose nothing, an absent field included, an error
  arrives as its status, and a panic of the plugin as an error, never as a panic of the controller.\<close>

theorem plugin_roundtrip:
  assumes "hosts E G alive path c Impl" and "alive h" and "gUtf8 G n"
    and "\<And>info. dpPluginInfo Impl h = Ok info \<Longrightarrow> proper G info"
  shows "ccHandshake (pluginClientConfig path) = scHandshake (Serve Impl) \<and>
    commonVersion (ccVersionedPlugins (pluginClientConfig path)) (scVersionedPlugins (Serve Impl)) = Some 0 \<and>
    result (dispense E c ''drain'') h = Ok (DispensedDrainClient c) \<and>
    result (DrainClient_PluginInfo E c) h = res_of (answer G (dpPluginInfo Impl h)) \<and>
    result (DrainClient_Init E c s) h = res_of (answer G (dpInit Impl h (Some serveLogger) s)) \<and>
    result (DrainClient_IsSupported E c) h = res_of (answer G (dpIsSupported Impl h)) \<and>
    result (DrainClient_IsHealthy E c) h = res_of (answer G (dpIsHealthy Impl h)) \<and>
    result (DrainClient_IsDrainOk E c n) h = res_of (answer G (dpIsDrainOk Impl h n)) \<and>
    result (DrainClient_PreDrain E c n) h = res_of (answer G (dpPreDrain Impl h n)) \<and>
    result (DrainClient_PostDrain E c n) h = res_of (answer G (dpPostDrain Impl h n))"
proof -
  note client = client_over_server [OF assms(1,2)]
  have "ccHandshake (pluginClientConfig path) = scHandshake (Serve Impl)"
    by (simp add: pluginClientConfig_def Serve_def)
  moreover have "result (dispense E c ''drain'') h = Ok (DispensedDrainClient c)"
    using client(1) by (simp add: dispense_def call_def result_def)
  ultimately show ?thesis using client(2) [OF assms(4)] client(3-5) client(6-8) [OF assms(3)] agreed_version by blast
qed

text \<open>A library whose encoded form is the message itself, and the environment whose connections lead to plugins over it.\<close>

definition plainGrpc :: "message grpc" where
  "plainGrpc = \<lparr>gMarshal = Inr, gUnmarshal = (\<lambda>b m. Inr b), gStatus = id, gUnknown = (\<lambda>n. ExtError ''Unimplemented''),
     gCrash = ExtError ''Unavailable'', gUtf8 = (\<lambda>s. True)\<rparr>"

definition hostedEnv :: "(conn \<Rightarrow> DrainPlugin) \<Rightarrow> env \<Rightarrow> env" where
  "hostedEnv Impl E =
     (let Inv = (\<lambda>c. delivery plainGrpc (RegisterDrainServiceServer (DrainServer (Some serveLogger) (Impl c)))) in E\<lparr>
       eDispense := (\<lambda>h c n. if n = ''drain'' then Inr (DispensedDrainClient c) else Inl (ExtError (''unknown plugin type: '' @ n))),
       ePluginInfo := (\<lambda>h c. drainServiceClient_PluginInfo (Inv c) h), eInit := (\<lambda>h c. drainServiceClient_Init (Inv c) h),
       eIsSupported := (\<lambda>h c. drainServiceClient_IsSupported (Inv c) h), eIsHealthy := (\<lambda>h c. drainServiceClient_IsHealthy (Inv c) h),
       eIsDrainOk := (\<lambda>h c. drainServiceClient_IsDrainOk (Inv c) h), ePreDrain := (\<lambda>h c. drainServiceClient_PreDrain (Inv c) h),
       ePostDrain := (\<lambda>h c. drainServiceClient_PostDrain (Inv c) h)\<rparr>)"

lemma hostedEnv_hosts: "hosts (hostedEnv Impl E) plainGrpc (\<lambda>h. True) path c (Impl c)"
proof -
  let ?Inv = "delivery plainGrpc (RegisterDrainServiceServer (DrainServer (Some serveLogger) (Impl c)))"
  have "faithfulCodec plainGrpc" by (simp add: faithfulCodec_def plainGrpc_def)
  moreover have "stubs (hostedEnv Impl E) ?Inv c" by (simp add: stubs_def hostedEnv_def Let_def)
  moreover have "goPlugin (hostedEnv Impl E) plainGrpc (\<lambda>h. True) ?Inv (pluginClientConfig path) (Serve (Impl c)) c"
    unfolding goPlugin_def agreed_version
    by (simp add: pluginClientConfig_def Serve_def GRPCClient_def GRPCServer_def delivers_def hostedEnv_def Let_def)
  ultimately show ?thesis by (auto simp: hosts_def)
qed

theorem plugin_roundtrip_witness:
  "\<exists>E. E = hostedEnv ExampleDrainPlugin sampleEnv \<and> hosts E plainGrpc (\<lambda>h. True) ''/plugins/a.so'' ''c'' (ExampleDrainPlugin ''c'') \<and>
     result (DrainClient_PluginInfo E ''c'') [] = Ok \<lparr>ID = ''example-plugin'', InfoConfigFormat = CONFIG_FORMAT_YAML\<rparr> \<and>
     result (DrainClient_Init E ''c'' \<lparr>SettingsConfig = None\<rparr>) [] = Ok () \<and>
     result (DrainClient_IsSupported E ''c'') [] = Err (ExtError ''Unavailable'')"
proof -
  let ?E = "hostedEnv ExampleDrainPlugin sampleEnv"
  have host: "hosts ?E plainGrpc (\<lambda>h. True) ''/plugins/a.so'' ''c'' (ExampleDrainPlugin ''c'')" by (rule hostedEnv_hosts)
  have "proper plainGrpc info" if "dpPluginInfo (ExampleDrainPlugin ''c'') [] = Ok info" for info
    using that by (auto simp: ExampleDrainPlugin_def proper_def plainGrpc_def)
  from plugin_roundtrip [where n = "''n1''" and h = "[]" and s = "\<lparr>SettingsConfig = None\<rparr>", OF host _ _ this] host show ?thesis
    by (simp add: plainGrpc_def ExampleDrainPlugin_def debugThen_def nilPanic_def loggerSet_def)
qed

text \<open>C23. The order of the loader is what a plugin may rely on. A plugin such as the example, which keeps the logger it gets
  from \<open>Init\<close> and uses it in every later method, dies on a call before \<open>Init\<close>. Once the drain manager has registered
  it, each call at any later time succeeds: it is supported, healthy, agrees to drains and runs its hooks.\<close>

theorem example_plugin_ready:
  assumes "result (loadPluginsFromDir E d0) h = Ok d" and "drainClients d0 = []" and "(pid, client) \<in> set (drainClients d)"
    and "c = dcClient client" and "hosts E G alive path c (ExampleDrainPlugin c)" and "gUtf8 G n"
  shows "(alive g \<and> \<not> loggerSet c g \<longrightarrow> result (DrainClient_IsSupported E c) g = Err (gCrash G)) \<and>
    (alive g \<and> g = h @ emitted (loadPluginsFromDir E d0) h @ t \<longrightarrow>
       result (DrainClient_IsSupported E c) g = Ok True \<and> result (DrainClient_IsHealthy E c) g = Ok True \<and>
       result (DrainClient_IsDrainOk E c n) g = Ok True \<and> result (DrainClient_PreDrain E c n) g = Ok () \<and>
       result (DrainClient_PostDrain E c n) g = Ok ())"
proof -
  note client = client_over_server [OF assms(5)]
  from loaded_registered [OF assms(1-3)] have "loggerSet c (h @ emitted (loadPluginsFromDir E d0) h @ t)"
    by (force simp: registered_def loggerSet_def list_ex_iff assms(4))
  moreover have "result (DrainClient_IsSupported E c) g = Err (gCrash G)" if "alive g" "\<not> loggerSet c g"
    using that client(4) by (simp add: ExampleDrainPlugin_def debugThen_def nilPanic_def)
  ultimately show ?thesis using client(4-5) client(6-8) [OF _ assms(6)]
    by (auto simp: ExampleDrainPlugin_def debugThen_def)
qed

definition oneFileEnv :: env where
  "oneFileEnv = hostedEnv ExampleDrainPlugin (sampleEnv\<lparr>eReadDir := (\<lambda>h p. Inr [(''a.so'', False)])\<rparr>)"

theorem example_plugin_ready_witness:
  "\<exists>d t client. result (loadPluginsFromDir oneFileEnv \<lparr>drainClients = [], pluginFileId = [], pluginClients = []\<rparr>) [] = Ok d \<and>
     emitted (loadPluginsFromDir oneFileEnv \<lparr>drainClients = [], pluginFileId = [], pluginClients = []\<rparr>) [] = t \<and>
     drainClients d = [(''example-plugin'', client)] \<and>
     result (DrainClient_IsSupported oneFileEnv (dcClient client)) t = Ok True \<and>
     result (DrainClient_IsSupported oneFileEnv (dcClient client)) [] = Err (ExtError ''Unavailable'')"
proof -
  let ?d0 = "\<lparr>drainClients = [], pluginFileId = [], pluginClients = []\<rparr>"
  let ?client = "\<lparr>dcClient = ''/plugins/a.so'', dcInfo = \<lparr>ID = ''example-plugin'', InfoConfigFormat = CONFIG_FORMAT_YAML\<rparr>\<rparr>"
  have "case result (loadPluginsFromDir oneFileEnv ?d0) [] of Ok d \<Rightarrow> drainClients d = [(''example-plugin'', ?client)] | _ \<Rightarrow> False"
    by code_simp
  then obtain d where ok: "result (loadPluginsFromDir oneFileEnv ?d0) [] = Ok d"
    and d: "drainClients d = [(''example-plugin'', ?client)]" by (auto split: res.splits)
  have host: "hosts oneFileEnv plainGrpc (\<lambda>h. True) ''/plugins/a.so'' (dcClient ?client) (ExampleDrainPlugin (dcClient ?client))"
    unfolding oneFileEnv_def by (rule hostedEnv_hosts)
  have "(''example-plugin'', ?client) \<in> set (drainClients d)" by (simp add: d)
  note ready = example_plugin_ready [where t = "[]" and n = "''n1''", OF ok _ this refl host]
  from ready [where g = "[]"] ready [where g = "emitted (loadPluginsFromDir oneFileEnv ?d0) []"] ok d show ?thesis
    by (simp add: plainGrpc_def loggerSet_def)
qed

end
