(* ===== verification/Spec2Isabelle.thy ===== *)
theory Spec2Isabelle
  imports Progress Reboot_Progress Node_Behaviour Cluster_Runs Startup Deep_Copy Plugin_Server
begin

text \<open>
  \<^bold>\<open>node-drain\<close>, a Kubernetes controller that cordons, drains, reboots and undrains the nodes of a cluster,
  one at a time, asking plugins before and around each drain.

  \<^bold>\<open>The program.\<close> A user states the wanted state of a node (Active, Cordoned, Drained, RebootIfRequired) in a
  \<open>Node\<close> object; the webhook fills in the default. For every change of such an object or of the cluster
  node of that name, controller-runtime calls \<open>Reconcile\<close> of the node controller, which reads both, moves the
  object through its life cycle (OK, Cordoned, Queued, Next, Draining, Drained, Rebooting, Undraining) and on the way
  cordons the cluster node, evicts its pods and lets the reboot manager run pods on it. The drain manager
  consults the plugins, separate processes that speak gRPC, and forwards what they print to the log. Main reads flags,
  environment and configuration files, builds the loggers and the managers and starts the controller.

  \<^bold>\<open>The model.\<close> An operation is a function of the history of all interactions so far; it returns a result
  (a value, an error, or a panic) and the new interactions, in order. Everything outside the repository (the API
  server, pods and commands in them, the drain library, the clock, plugins, files, JSON, koanf, zap,
  controller-runtime) is a parameter: a record of functions that answer a call from the history. What a theorem
  needs of them is a named hypothesis. Go's maps with a changing iteration order are lists in an arbitrary order.
  Times and durations are integers in nanoseconds; no arithmetic of the program comes near the width of \<open>int64\<close>.
  Loops over slices are structural recursion; polling is done by a library call that evaluates the
  condition as often as it likes. So every function is total and no fuel is needed.

  \<^bold>\<open>Theories, sources under \<open>src/\<close>, and what they show.\<close>

  \<^item> \<open>Go_Prelude\<close>, \<open>Go_Strings\<close>: operations and their combinators (sequence, error handling, wrapped errors,
    deferred calls); footprints (\<open>only\<close>), a logic of triples whose invariant guards every interaction by those
    before it, and a judgement of total correctness (\<open>yields\<close>); strings of the Go library.
  \<^item> \<open>Node_Types\<close> (\<open>api/v1/node_types.go\<close>): the object, its requested and current states.
  \<^item> \<open>Deep_Copy\<close> (\<open>api/v1/zz_generated.deepcopy.go\<close>): the generated copies on an explicit heap with pointers and
    slices. The contract \<open>deep_copier\<close> is kept by each way of building a copy; copies are equal and share no
    memory, which is what allows the other theories to treat objects as values.
  \<^item> \<open>Plugin_Proto\<close>, \<open>Plugins\<close> (\<open>api/plugins/proto/v1/drain_plugin.pb.go\<close>, \<open>api/plugins/drain-client.go\<close>): messages with
    their accessors (contract \<open>presence_field\<close>), and the client.
  \<^item> \<open>Plugin_Server\<close> (\<open>api/plugins/drain.go\<close>, \<open>drain-server.go\<close>, \<open>proto/v1/drain_plugin_grpc.pb.go\<close>, \<open>examples/plugin\<close>):
    the plugin end, from the names of the methods through the generated stubs (contract \<open>unary_method\<close>, interpreted on the
    seven methods) to the implementation; the protocol is transparent, and a plugin may rely on \<open>Init\<close> coming first.
  \<^item> \<open>Config\<close> (\<open>internal/config/config.go\<close>) and \<open>Logging\<close> (\<open>internal/config/logger.go\<close>): order of configuration
    sources, names from the environment, named loggers.
  \<^item> \<open>Kube_Env\<close>, \<open>Sample_Env\<close>: the interactions, the parameter \<open>env\<close>, and a concrete environment for witnesses.
  \<^item> \<open>Utils\<close>, \<open>Reboot_Manager\<close> (\<open>internal/utils/utils.go\<close>, \<open>reboot-manager.go\<close>): pods that test for and cause a
    reboot; what the check answers, that it cleans up and when it does not, when a reboot pod may be created, when a
    node counts as rebooted.
  \<^item> \<open>Drain_Manager\<close> (\<open>internal/utils/drain-manager.go\<close>): loading of plugins, verdicts and hooks. The loops that collect
    verdicts and those that run hooks obey one contract each (\<open>verdict_loop\<close>, \<open>hook_loop\<close>), interpreted on the four loops.
  \<^item> \<open>Hclog\<close> (\<open>internal/utils/hclog.go\<close> and \<open>pluginOutputMonitor\<close>): the adapter from hclog to zap and the forwarding of
    plugin output, with the lines that end it.
  \<^item> \<open>Node_Controller\<close> (\<open>internal/controller/node_controller.go\<close>): every operation of the reconciler, composed as in the code.
  \<^item> \<open>Node_Gates\<close>: what must have happened before each interaction of \<open>Reconcile\<close> that changes something: evicting
    pods, starting a drain, leaving the queue, rebooting, cordoning and uncordoning, deleting the own pod.
  \<^item> \<open>Node_Lifecycle\<close>: the abstract life cycle (\<open>edge\<close>) and the refinement: a status write is an edge, under a request
    that is fixed during the reconciliation or that users change meanwhile (the flag \<open>b\<close>); the type of the status.
  \<^item> \<open>Cluster\<close>: the stored objects, changed by reconciliations (the effects of their events) and by users, with any
    answers of the server. \<open>told\<close> says of an event whether its answer agrees with the store, and \<open>misled\<close> of a
    reconciliation whether a stale read, a stale list or an unwritten status deceived it; as long as none was misled
    at most one node is being worked on (runs of the system, \<open>path\<close>). The last sections hold the ideal
    surroundings of the claims of progress and a server that has them.
  \<^item> \<open>Cluster_Runs\<close>: a reconciliation leaves other objects alone, and with answers that agree it is a series of moves of
    an abstract machine on request, state and drained flag; on a node that is to be undone every move descends, so
    whatever fails and however often it is reconciled, it changes at most four times, and four times more for
    every disturbance.
  \<^item> \<open>Progress\<close>: total correctness: when nothing fails, a drain and an undrain reach their end in a fixed number
    of reconciliations.
  \<^item> \<open>Reboot_Progress\<close>: the same for a requested reboot, across the reboot: one environment before it, another after
    it, in which the node came back with a new boot id.
  \<^item> \<open>Node_Behaviour\<close>: the gate of ending an undrain, the owner of a cordon, creation and release of objects, two dead
    ends of the state machine, two ways around the queue (an unwritten status, a stale list), the rate of reboot
    checks, the steady state.
  \<^item> \<open>Node_Webhook\<close> (\<open>internal/webhook/v1/node_webhook.go\<close>): defaulting and validation, and that an admitted object
    is one the controller handles.
  \<^item> \<open>Startup\<close> (\<open>cmd/main.go\<close>, the constructors and registrations): what has been set up when the manager starts.

  \<^bold>\<open>Laws assumed of the surroundings.\<close> \<open>polls_only\<close>: polling interacts only through the condition it is given.
  \<open>keepsNames\<close>, \<open>podNames\<close>: objects and pods come back under the name they were asked for. \<open>metaOnly\<close>: owner
  references and finalizers are metadata; \<open>lawful\<close> has these together. \<open>storesState\<close>: a current state that a patch changes is in
  its answer. \<open>faithfulCodec\<close>, \<open>delivers\<close>, \<open>goPlugin\<close>: protobuf decodes what it encoded, gRPC runs the handler of the
  method's name, go-plugin uses the greatest common version. \<open>levelNames\<close>: level names of zap and hclog.
  How fresh a read is and who else writes is not a law: the client of the manager reads from a cache and its patches
  carry no lock. Safety is stated for any answers, or with the events that deceive the controller as part of
  the statement (\<open>answered\<close>, \<open>told\<close>, \<open>misled\<close>). Only the claims of progress (\<open>Progress\<close>, \<open>Reboot_Progress\<close>) are about ideal
  surroundings: \<open>orderly\<close> (a cache that has caught up, \<open>serves_store\<close>, and nobody else who writes the object, \<open>echoes\<close>, with
  times stored in whole seconds), \<open>willing\<close> (nothing fails and plugins consent), \<open>rebootable\<close> and \<open>cameBack\<close> (what a reboot
  needs). Each property that uses a law has a witness with a concrete environment that satisfies it.

  \<^bold>\<open>Not modelled.\<close> The reflection and descriptors of the generated messages, which only call the protobuf library;
  the lock around the configuration of loggers and the data race between the loader and the monitor of plugin output;
  concurrent reconciliations (controller-runtime runs one worker by default; writes of users during a reconciliation
  show in its reads and answers); manifests, chart and tests. Log messages
  of the program itself are left out, recorded events are not.
\<close>

end
